(* ===== verification/Prelude.thy ===== *)
theory Prelude
  imports Main "HOL-Library.Word"
begin

text \<open>
  Shared vocabulary of the development: the machine types of the Rust sources, the \<open>?\<close>
  operator on results, byte strings, little- and big-endian integers, and the generic facts
  about them that the component theories use.

  \<^item> \<open>u8\<close>, \<open>u32\<close>, \<open>u64\<close> are words of that width. A \<open>usize\<close> that is a slice length
    or an index is a \<open>nat\<close>; where the code can exceed 64 bits the bound \<open>usize_max\<close> is
    written out.
  \<^item> A Rust \<open>String\<close> is its UTF-8 encoding, a \<open>string\<close> whose characters are the bytes;
    \<open>as_bytes\<close> reads them as \<open>u8\<close>.
  \<^item> \<open>Result<T, E>\<close> is the sum \<open>'e + 'a\<close> with \<open>Inl\<close> for \<open>Err\<close>; \<open>try_bind\<close> is the
    early return of the \<open>?\<close> operator.
\<close>

unbundle bit_operations_syntax

named_theorems code_inj \<open>injectivity of the byte encodings\<close>
named_theorems code_len \<open>lengths of the byte encodings\<close>

type_synonym u8 = "8 word"
type_synonym u32 = "32 word"
type_synonym u64 = "64 word"
type_synonym bytes = "u8 list"

definition usize_max :: nat where
  "usize_max = 2 ^ 64 - 1"

text \<open>No slice or vector is longer than \<open>isize::MAX\<close>.\<close>

definition isize_max :: nat where
  "isize_max = 2 ^ 63 - 1"

section \<open>Results\<close>

definition try_bind :: "'e + 'a \<Rightarrow> ('a \<Rightarrow> 'e + 'b) \<Rightarrow> 'e + 'b" where
  "try_bind r f = (case r of Inl e \<Rightarrow> Inl e | Inr a \<Rightarrow> f a)"

definition map_err :: "('e \<Rightarrow> 'f) \<Rightarrow> 'e + 'a \<Rightarrow> 'f + 'a" where
  "map_err g r = (case r of Inl e \<Rightarrow> Inl (g e) | Inr a \<Rightarrow> Inr a)"

definition ok_or :: "'e \<Rightarrow> 'a option \<Rightarrow> 'e + 'a" where
  "ok_or e x = (case x of None \<Rightarrow> Inl e | Some a \<Rightarrow> Inr a)"

lemma try_bind_simps [simp]:
  "try_bind (Inl e) f = Inl e"
  "try_bind (Inr a) f = f a"
  by (simp_all add: try_bind_def)

lemma map_err_simps [simp]:
  "map_err g (Inl e) = Inl (g e)"
  "map_err g (Inr a) = Inr a"
  by (simp_all add: map_err_def)

lemma ok_or_simps [simp]:
  "ok_or e None = Inl e"
  "ok_or e (Some a) = Inr a"
  by (simp_all add: ok_or_def)

lemma try_bind_eq_Inr: "try_bind r f = Inr b \<longleftrightarrow> (\<exists>a. r = Inr a \<and> f a = Inr b)"
  by (cases r) auto

lemma map_err_eq_Inr [simp]: "map_err g r = Inr a \<longleftrightarrow> r = Inr a"
  by (cases r) auto

lemma ok_or_eq_Inr [simp]: "ok_or e x = Inr a \<longleftrightarrow> x = Some a"
  by (cases x) auto

text \<open>
  A Rust panic is a value of its own: \<open>panic + 'a\<close> is a call that may panic. A call that
  may also run forever has type \<open>(panic + 'a) option\<close>, with \<open>None\<close> for not returning.
\<close>

datatype panic =
    AssertionFailed string
  | ClampMinAboveMax
  | ExpectFailed string
  | SliceOutOfRange nat nat
  | CapacityOverflow

text \<open>A loop that collects results and returns at the first error.\<close>

fun try_map :: "('a \<Rightarrow> 'e + 'b) \<Rightarrow> 'a list \<Rightarrow> 'e + 'b list" where
  "try_map f [] = Inr []"
| "try_map f (x # xs) = try_bind (f x) (\<lambda>y. try_bind (try_map f xs) (\<lambda>ys. Inr (y # ys)))"

lemma try_map_eq_Inr: "try_map f xs = Inr ys \<longleftrightarrow> list_all2 (\<lambda>x y. f x = Inr y) xs ys"
  by (induction xs arbitrary: ys) (auto simp: try_bind_eq_Inr list_all2_Cons1)

lemma try_map_Inr_map: "(\<And>x. x \<in> set xs \<Longrightarrow> f x = Inr (g x)) \<Longrightarrow> try_map f xs = Inr (map g xs)"
  by (induction xs) simp_all

lemma try_map_try_map_eq_Inr:
  "try_bind (try_map f xs) (try_map g) = Inr zs
     \<longleftrightarrow> list_all2 (\<lambda>x z. \<exists>y. f x = Inr y \<and> g y = Inr z) xs zs"
proof -
  let ?F = "\<lambda>x y. f x = Inr y" and ?G = "\<lambda>y z. g y = Inr z"
  have "try_bind (try_map f xs) (try_map g) = Inr zs \<longleftrightarrow> (list_all2 ?F OO list_all2 ?G) xs zs"
    by (auto simp: try_bind_eq_Inr try_map_eq_Inr)
  also have "\<dots> \<longleftrightarrow> list_all2 (?F OO ?G) xs zs" by (simp add: list.rel_compp)
  also have "?F OO ?G = (\<lambda>x z. \<exists>y. f x = Inr y \<and> g y = Inr z)" by (auto simp: relcompp_apply)
  finally show ?thesis .
qed

section \<open>Slices\<close>

definition slice :: "'a list \<Rightarrow> nat \<Rightarrow> nat \<Rightarrow> 'a list" where
  "slice xs a b = take (b - a) (drop a xs)"

lemma length_slice [simp]: "length (slice xs a b) = min (b - a) (length xs - a)"
  by (simp add: slice_def)

lemma slice_append_left: "b \<le> length xs \<Longrightarrow> slice (xs @ ys) a b = slice xs a b"
  by (cases "a \<le> b") (simp_all add: slice_def)

lemma slice_mid: "slice (xs @ ys @ zs) (length xs) (length xs + length ys) = ys"
  by (simp add: slice_def)

section \<open>Separators\<close>

lemma separator_split:
  "xs @ z # r = ys @ z # s \<Longrightarrow> z \<notin> set xs \<Longrightarrow> z \<notin> set ys \<Longrightarrow> xs = ys \<and> r = s"
proof (induction xs arbitrary: ys)
  case Nil
  then show ?case by (cases ys) auto
next
  case (Cons x xs)
  then show ?case by (cases ys) auto
qed

section \<open>Strings and bytes\<close>

definition byte_of_char :: "char \<Rightarrow> u8" where
  "byte_of_char c = word_of_nat (of_char c)"

definition char_of_byte :: "u8 \<Rightarrow> char" where
  "char_of_byte b = char_of (unat b)"

definition as_bytes :: "string \<Rightarrow> bytes" where
  "as_bytes s = map byte_of_char s"

lemma of_char_nat_less: "of_char c < (256::nat)"
  using of_char_mod_256 [of c, where 'a = nat] by (metis mod_less_divisor zero_less_numeral)

lemma unat_byte_of_char [simp]: "unat (byte_of_char c) = of_char c"
  by (simp add: byte_of_char_def unat_of_nat of_char_nat_less)

lemma char_of_byte_of_char [simp]: "char_of_byte (byte_of_char c) = c"
  by (simp add: char_of_byte_def)

lemma byte_of_char_inject [simp]: "byte_of_char c = byte_of_char d \<longleftrightarrow> c = d"
  by (metis char_of_byte_of_char)

lemma as_bytes_simps [simp]:
  "as_bytes [] = []"
  "as_bytes (c # s) = byte_of_char c # as_bytes s"
  "as_bytes (s @ t) = as_bytes s @ as_bytes t"
  "length (as_bytes s) = length s"
  by (simp_all add: as_bytes_def)

lemma as_bytes_inject [simp]: "as_bytes s = as_bytes t \<longleftrightarrow> s = t"
  unfolding as_bytes_def by (simp add: inj_map_eq_map inj_on_def)

lemma set_as_bytes: "set (as_bytes s) = byte_of_char ` set s"
  by (simp add: as_bytes_def)

section \<open>Little- and big-endian integers\<close>

primrec le_bytes :: "nat \<Rightarrow> nat \<Rightarrow> bytes" where
  "le_bytes 0 n = []"
| "le_bytes (Suc w) n = word_of_nat (n mod 256) # le_bytes w (n div 256)"

primrec le_value :: "bytes \<Rightarrow> nat" where
  "le_value [] = 0"
| "le_value (b # bs) = unat b + 256 * le_value bs"

definition u32_to_le_bytes :: "u32 \<Rightarrow> bytes" where
  "u32_to_le_bytes x = le_bytes 4 (unat x)"

definition u64_to_le_bytes :: "u64 \<Rightarrow> bytes" where
  "u64_to_le_bytes x = le_bytes 8 (unat x)"

definition u64_from_le_bytes :: "bytes \<Rightarrow> u64" where
  "u64_from_le_bytes bs = word_of_nat (le_value bs)"

definition u64_to_be_bytes :: "u64 \<Rightarrow> bytes" where
  "u64_to_be_bytes x = rev (le_bytes 8 (unat x))"

definition u64_from_be_bytes :: "bytes \<Rightarrow> u64" where
  "u64_from_be_bytes bs = word_of_nat (le_value (rev bs))"

lemma length_le_bytes [simp, code_len]: "length (le_bytes w n) = w"
  by (induction w arbitrary: n) simp_all

lemma length_u32_to_le_bytes [simp, code_len]: "length (u32_to_le_bytes x) = 4"
  by (simp add: u32_to_le_bytes_def)

lemma length_u64_to_le_bytes [simp, code_len]: "length (u64_to_le_bytes x) = 8"
  by (simp add: u64_to_le_bytes_def)

lemma length_u64_to_be_bytes [simp, code_len]: "length (u64_to_be_bytes x) = 8"
  by (simp add: u64_to_be_bytes_def)

lemma le_value_le_bytes: "n < 256 ^ w \<Longrightarrow> le_value (le_bytes w n) = n"
proof (induction w arbitrary: n)
  case 0
  then show ?case by simp
next
  case (Suc w)
  have "n div 256 < 256 ^ w"
    using Suc.prems by (simp add: less_mult_imp_div_less mult.commute)
  then have "le_value (le_bytes w (n div 256)) = n div 256" by (rule Suc.IH)
  then show ?case by (simp add: unat_of_nat)
qed

lemma le_value_u64 [simp]: "le_value (le_bytes 8 (unat (x :: u64))) = unat x"
  using unsigned_less [of x, where 'a = nat] by (simp add: le_value_le_bytes)

lemma le_value_u32 [simp]: "le_value (le_bytes 4 (unat (x :: u32))) = unat x"
  using unsigned_less [of x, where 'a = nat] by (simp add: le_value_le_bytes)

lemma u32_to_le_bytes_inject [simp, code_inj]: "u32_to_le_bytes x = u32_to_le_bytes y \<longleftrightarrow> x = y"
  by (metis le_value_u32 u32_to_le_bytes_def word_unat_eq_iff)

lemma u64_to_le_bytes_inject [simp, code_inj]: "u64_to_le_bytes x = u64_to_le_bytes y \<longleftrightarrow> x = y"
  by (metis le_value_u64 u64_to_le_bytes_def word_unat_eq_iff)

lemma u64_from_to_le_bytes [simp]: "u64_from_le_bytes (u64_to_le_bytes x) = x"
  by (simp add: u64_from_le_bytes_def u64_to_le_bytes_def)

lemma u64_from_to_be_bytes [simp]: "u64_from_be_bytes (u64_to_be_bytes x) = x"
  by (simp add: u64_from_be_bytes_def u64_to_be_bytes_def)

end
