(* ===== verification/Vault_Error.thy ===== *)
theory Vault_Error
  imports Codec
begin

text \<open>
  \<open>vault-core/src/error.rs\<close>: the error type of vault-core and its FFI error codes.

  The text of an error is a \<open>format!\<close> string for people. The model keeps one
  constructor of \<open>msg\<close> per \<open>format!\<close> site, with the values the site interpolates, and
  \<open>Text\<close> for a message handed in by a caller; no branch of vault-core reads the text.
\<close>

datatype msg =
    Text string
  \<comment> \<open>chunk_format.rs\<close>
  | NulInRepoUid | NulInChunkName
  | RetiredVersion u8 | UnknownVersion u8 | EmptyChunk
  \<comment> \<open>encryption.rs\<close>
  | HkdfExpandFailed | ContentKeyLength nat | CipherInitFailed
  | CannotEmitVersion u8 | XChaChaEncryptionFailed
  | NotXChaChaLayout u8 | ChunkTooShort nat nat | AuthenticationFailedAad | AuthenticationFailed
  | AesKeyLength nat | AesEncryptionFailed | AesMissingNonce | AesDecryptionFailed
  | Argon2ParamsInvalid | KeyDerivationFailed
  \<comment> \<open>pack.rs\<close>
  | PackOffsetOverflows u64 | PackEndOverflows u64 u32 | PackSliceOutOfBounds nat nat nat string
  \<comment> \<open>storage/file.rs\<close>
  | CreateStorageDirFailed string string | CreateDirFailed string string
  | FileWriteFailed string string | FileNotFound string | FileReadFailed string string
  | FileDeleteFailed string string | ReadDirFailed string string | ReadEntryFailed string
  \<comment> \<open>storage/s3.rs\<close>
  | InvalidUrl string | UrlWithoutHost | HmacFailed string | RequestFailed string string
  | ObjectNotFound string string | StatusFailed string nat string
  | BodyReadFailed string | ObjectRefused string string string | ListReadFailed string

datatype VaultError =
    Chunking msg
  | Encryption msg
  | Decryption msg
  | Key msg
  | Storage msg
  | Network msg
  | Config msg
  | Io msg
  | InvalidArgument msg
  | NotSupported msg
  | Internal msg

type_synonym 'a VaultResult = "VaultError + 'a"

fun to_error_code :: "VaultError \<Rightarrow> int" where
  "to_error_code (Chunking _) = 1"
| "to_error_code (Encryption _) = 2"
| "to_error_code (Decryption _) = 3"
| "to_error_code (Key _) = 4"
| "to_error_code (Storage _) = 5"
| "to_error_code (Network _) = 6"
| "to_error_code (Config _) = 7"
| "to_error_code (Io _) = 8"
| "to_error_code (InvalidArgument _) = 9"
| "to_error_code (NotSupported _) = 10"
| "to_error_code (Internal _) = 99"

definition from_error_code :: "int \<Rightarrow> msg \<Rightarrow> VaultError" where
  "from_error_code code message =
     (if code = 1 then Chunking message
      else if code = 2 then Encryption message
      else if code = 3 then Decryption message
      else if code = 4 then Key message
      else if code = 5 then Storage message
      else if code = 6 then Network message
      else if code = 7 then Config message
      else if code = 8 then Io message
      else if code = 9 then InvalidArgument message
      else if code = 10 then NotSupported message
      else Internal message)"

fun error_message :: "VaultError \<Rightarrow> msg" where
  "error_message (Chunking m) = m"
| "error_message (Encryption m) = m"
| "error_message (Decryption m) = m"
| "error_message (Key m) = m"
| "error_message (Storage m) = m"
| "error_message (Network m) = m"
| "error_message (Config m) = m"
| "error_message (Io m) = m"
| "error_message (InvalidArgument m) = m"
| "error_message (NotSupported m) = m"
| "error_message (Internal m) = m"

lemma from_to_error_code: "from_error_code (to_error_code e) (error_message e) = e"
  by (cases e) (simp_all add: from_error_code_def)

lemma to_error_code_nonzero [simp]: "to_error_code e \<noteq> 0"
  by (cases e) simp_all

lemma to_from_error_code:
  "to_error_code (from_error_code c m) = (if c \<in> {1..10} then c else 99)"
  unfolding from_error_code_def by (simp split: if_split) presburger

end
