(* ===== verification/Chunking.thy ===== *)
theory Chunking
  imports Vault_Error
begin

text \<open>
  \<open>vault-core/src/chunking.rs\<close>: gear-based FastCDC boundaries, keyed and unkeyed chunk
  names, the in-memory \<open>ChunkEngine\<close> and the incremental \<open>StreamChunker\<close>.

  BLAKE3, SHA-256 and HMAC-SHA256 come from third-party crates: they are the fields of the
  parameter \<open>hashes\<close>. The Gear table \<open>[u64; 256]\<close> is indexed by a byte only, so it is a
  function from bytes. The two loops (\<open>chunk_data\<close>, \<open>emit_chunks\<close>) do not terminate on
  every configuration the types admit; they are \<open>partial_function (option)\<close>s whose
  result \<open>None\<close> is a loop that never returns.
\<close>

record hashes =
  blake3_keyed :: "bytes \<Rightarrow> bytes \<Rightarrow> bytes"
  sha256 :: "bytes \<Rightarrow> bytes"
  hmac_sha256 :: "bytes \<Rightarrow> bytes \<Rightarrow> bytes"

type_synonym gear_table = "u8 \<Rightarrow> u64"

section \<open>Gear table and masks\<close>

definition UNKEYED_GEAR_KEY :: bytes where
  "UNKEYED_GEAR_KEY = as_bytes ''gitcellar/unkeyed-cdc/gear/v1!!!''"

definition derive_gear_table :: "hashes \<Rightarrow> bytes \<Rightarrow> gear_table" where
  "derive_gear_table H key =
     (\<lambda>i. let msg = as_bytes ''gear-table'' @ le_bytes 4 (unat i);
              hash = blake3_keyed H key msg
          in u64_from_le_bytes (take 8 hash))"

definition top_bits_mask :: "nat \<Rightarrow> u64" where
  "top_bits_mask n =
     (if n = 0 then 0 else if 64 \<le> n then NOT 0 else push_bit (64 - n) (NOT 0))"

fun bit_length :: "nat \<Rightarrow> nat" where
  "bit_length n = (if n = 0 then 0 else Suc (bit_length (n div 2)))"

declare bit_length.simps [simp del]

definition leading_zeros64 :: "nat \<Rightarrow> nat" where
  "leading_zeros64 n = 64 - bit_length n"

section \<open>Boundary search\<close>

text \<open>When the first loop of the search ends without a hit, \<open>i = normal\<close> (\<open>min <= normal\<close> by
  the clamp), so the second loop starts there.\<close>

text \<open>One \<open>while\<close> loop of the search: \<open>Inl i\<close> is the \<open>return i\<close> in its body, \<open>Inr fp\<close> the
  fingerprint when the loop ends.\<close>

function gear_scan :: "gear_table \<Rightarrow> bytes \<Rightarrow> u64 \<Rightarrow> nat \<Rightarrow> u64 \<Rightarrow> nat \<Rightarrow> nat + u64" where
  "gear_scan gear data msk hi fp i =
     (if i < hi then
        let fp' = push_bit 1 fp + gear (data ! i)
        in if fp' AND msk = 0 then Inl i else gear_scan gear data msk hi fp' (Suc i)
      else Inr fp)"
  by pat_completeness auto
termination by (relation "measure (\<lambda>(gear, data, msk, hi, fp, i). hi - i)") auto

declare gear_scan.simps [simp del]

definition fastcdc_boundary :: "gear_table \<Rightarrow> bytes \<Rightarrow> nat \<Rightarrow> nat \<Rightarrow> nat \<Rightarrow> panic + nat" where
  "fastcdc_boundary gear data mn avg mx =
     (let len = length data in
      if len \<le> mn then Inr len
      else let cap = min mx len in
      if cap < mn then Inl ClampMinAboveMax
      else let normal = (if avg < mn then mn else if cap < avg then cap else avg);
               bits = 63 - leading_zeros64 (max avg 2);
               mask_s = top_bits_mask (bits + 1);
               mask_l = top_bits_mask (bits - 1)
           in case gear_scan gear data mask_s normal 0 mn of
                Inl i \<Rightarrow> Inr i
              | Inr fp \<Rightarrow> (case gear_scan gear data mask_l cap fp normal of
                    Inl i \<Rightarrow> Inr i
                  | Inr _ \<Rightarrow> Inr cap))"

section \<open>Keying, configuration, chunks\<close>

record ChunkKeying =
  keying_gear :: gear_table
  id_key :: bytes

definition keying_derive :: "hashes \<Rightarrow> bytes \<Rightarrow> bytes \<Rightarrow> ChunkKeying" where
  "keying_derive H boundary_key_repo id_key_repo =
     \<lparr>keying_gear = derive_gear_table H boundary_key_repo, id_key = id_key_repo\<rparr>"

definition keying_name :: "hashes \<Rightarrow> ChunkKeying \<Rightarrow> bytes \<Rightarrow> string" where
  "keying_name H k data = hex_encode (hmac_sha256 H (id_key k) data)"

text \<open>A chunk name as its 32 raw bytes: exactly 64 hex digits, else \<open>None\<close>.\<close>

definition decode_name :: "string \<Rightarrow> bytes option" where
  "decode_name nm =
     (if length nm \<noteq> 64 then None
      else case hex_decode nm of None \<Rightarrow> None
           | Some bs \<Rightarrow> if length bs = 32 then Some bs else None)"

text \<open>\<open>Mac::verify_slice\<close> compares the whole tag.\<close>

definition keying_verify_name :: "hashes \<Rightarrow> ChunkKeying \<Rightarrow> string \<Rightarrow> bytes \<Rightarrow> bool" where
  "keying_verify_name H k nm plaintext =
     (case decode_name nm of None \<Rightarrow> False
      | Some expected \<Rightarrow> hmac_sha256 H (id_key k) plaintext = expected)"

record ChunkConfig =
  min_size :: nat
  avg_size :: nat
  max_size :: nat

definition default_config :: ChunkConfig where
  "default_config = \<lparr>min_size = 512 * 1024, avg_size = 1024 * 1024, max_size = 2 * 1024 * 1024\<rparr>"

definition config_new :: "nat \<Rightarrow> nat \<Rightarrow> nat \<Rightarrow> panic + ChunkConfig" where
  "config_new mn avg mx =
     (if \<not> mn \<le> avg then Inl (AssertionFailed ''min_size must be <= avg_size'')
      else if \<not> avg \<le> mx then Inl (AssertionFailed ''avg_size must be <= max_size'')
      else Inr \<lparr>min_size = mn, avg_size = avg, max_size = mx\<rparr>)"

definition e1_keyed :: ChunkConfig where
  "e1_keyed = \<lparr>min_size = 16 * 1024, avg_size = 64 * 1024, max_size = 256 * 1024\<rparr>"

record Chunk =
  ck_hash :: string
  ck_data :: bytes
  ck_size :: nat
  ck_offset :: u64

record ChunkMetadata =
  md_hash :: string
  md_size :: nat
  md_offset :: u64

definition metadata_from :: "Chunk \<Rightarrow> ChunkMetadata" where
  "metadata_from c = \<lparr>md_hash = ck_hash c, md_size = ck_size c, md_offset = ck_offset c\<rparr>"

section \<open>The in-memory engine\<close>

record ChunkEngine =
  eng_config :: ChunkConfig
  eng_gear :: gear_table
  eng_keying :: "ChunkKeying option"

definition engine_new :: "hashes \<Rightarrow> ChunkConfig \<Rightarrow> ChunkEngine" where
  "engine_new H config =
     \<lparr>eng_config = config, eng_gear = derive_gear_table H UNKEYED_GEAR_KEY, eng_keying = None\<rparr>"

definition with_defaults :: "hashes \<Rightarrow> ChunkEngine" where
  "with_defaults H = engine_new H default_config"

definition engine_new_keyed :: "ChunkConfig \<Rightarrow> ChunkKeying \<Rightarrow> ChunkEngine" where
  "engine_new_keyed config k =
     \<lparr>eng_config = config, eng_gear = keying_gear k, eng_keying = Some k\<rparr>"

definition compute_hash :: "hashes \<Rightarrow> bytes \<Rightarrow> string" where
  "compute_hash H data = hex_encode (sha256 H data)"

definition name_with :: "hashes \<Rightarrow> ChunkKeying option \<Rightarrow> bytes \<Rightarrow> string" where
  "name_with H keying data =
     (case keying of Some k \<Rightarrow> keying_name H k data | None \<Rightarrow> compute_hash H data)"

definition engine_name :: "hashes \<Rightarrow> ChunkEngine \<Rightarrow> bytes \<Rightarrow> string" where
  "engine_name H e data = name_with H (eng_keying e) data"

definition find_chunk_boundary :: "ChunkEngine \<Rightarrow> bytes \<Rightarrow> panic + nat" where
  "find_chunk_boundary e data =
     fastcdc_boundary (eng_gear e) data (min_size (eng_config e)) (avg_size (eng_config e))
       (max_size (eng_config e))"

definition mk_chunk :: "(bytes \<Rightarrow> string) \<Rightarrow> bytes \<Rightarrow> u64 \<Rightarrow> Chunk" where
  "mk_chunk nm cdata off =
     \<lparr>ck_hash = nm cdata, ck_data = cdata, ck_size = length cdata, ck_offset = off\<rparr>"

partial_function (option) chunk_loop ::
    "(bytes \<Rightarrow> panic + nat) \<Rightarrow> (bytes \<Rightarrow> string) \<Rightarrow> bytes \<Rightarrow> nat \<Rightarrow> Chunk list
     \<Rightarrow> (panic + Chunk list) option" where
  "chunk_loop cutf nm data offset chunks =
     (if offset < length data then
        (case cutf (drop offset data) of
           Inl p \<Rightarrow> Some (Inl p)
         | Inr chunk_size \<Rightarrow>
             chunk_loop cutf nm data (offset + chunk_size)
               (chunks @ [mk_chunk nm (slice data offset (min (offset + chunk_size) (length data)))
                                    (word_of_nat offset)]))
      else Some (Inr chunks))"

definition chunk_data :: "hashes \<Rightarrow> ChunkEngine \<Rightarrow> bytes \<Rightarrow> (panic + Chunk list) option" where
  "chunk_data H e data =
     (if data = [] then Some (Inr [])
      else chunk_loop (find_chunk_boundary e) (engine_name H e) data 0 [])"

text \<open>The sum of the sizes, which wraps, is reserved; a reservation above \<open>isize::MAX\<close> panics.\<close>

definition reassemble_chunks :: "Chunk list \<Rightarrow> panic + bytes" where
  "reassemble_chunks chunks =
     (if chunks = [] then Inr []
      else let total_size = sum_list (map ck_size chunks) mod (usize_max + 1)
           in if total_size > isize_max then Inl CapacityOverflow
              else Inr (concat (map ck_data chunks)))"

text \<open>The constant-time comparison folds every byte's difference before deciding.\<close>

definition fold_differences :: "bytes \<Rightarrow> bytes \<Rightarrow> u8" where
  "fold_differences expected actual =
     foldl (\<lambda>acc (a, b). acc OR (a XOR b)) 0 (zip expected actual)"

definition verify_name :: "hashes \<Rightarrow> ChunkEngine \<Rightarrow> string \<Rightarrow> bytes \<Rightarrow> bool" where
  "verify_name H e nm plaintext =
     (case eng_keying e of
        Some k \<Rightarrow> keying_verify_name H k nm plaintext
      | None \<Rightarrow> (case decode_name nm of None \<Rightarrow> False
          | Some expected \<Rightarrow> fold_differences expected (sha256 H plaintext) = 0))"

definition verify_chunk :: "hashes \<Rightarrow> ChunkEngine \<Rightarrow> Chunk \<Rightarrow> bool" where
  "verify_chunk H e c = verify_name H e (ck_hash c) (ck_data c)"

definition verify_all :: "hashes \<Rightarrow> ChunkEngine \<Rightarrow> Chunk list \<Rightarrow> bool" where
  "verify_all H e chunks = list_all (verify_chunk H e) chunks"

definition get_metadata :: "Chunk list \<Rightarrow> ChunkMetadata list" where
  "get_metadata chunks = map metadata_from chunks"

section \<open>The streaming chunker\<close>

record StreamChunker =
  sc_config :: ChunkConfig
  sc_gear :: gear_table
  sc_keying :: "ChunkKeying option"
  sc_buffer :: bytes
  sc_offset :: u64
  sc_chunks :: "Chunk list"

definition stream_new :: "hashes \<Rightarrow> ChunkConfig \<Rightarrow> StreamChunker" where
  "stream_new H config =
     \<lparr>sc_config = config, sc_gear = derive_gear_table H UNKEYED_GEAR_KEY, sc_keying = None,
      sc_buffer = [], sc_offset = 0, sc_chunks = []\<rparr>"

definition stream_new_keyed :: "ChunkConfig \<Rightarrow> ChunkKeying \<Rightarrow> StreamChunker" where
  "stream_new_keyed config k =
     \<lparr>sc_config = config, sc_gear = keying_gear k, sc_keying = Some k,
      sc_buffer = [], sc_offset = 0, sc_chunks = []\<rparr>"

definition find_boundary :: "StreamChunker \<Rightarrow> bytes \<Rightarrow> panic + nat" where
  "find_boundary s buffer =
     fastcdc_boundary (sc_gear s) buffer (min_size (sc_config s)) (avg_size (sc_config s))
       (max_size (sc_config s))"

text \<open>The loop of \<open>emit_chunks\<close> over the mutable fields \<open>buffer\<close>, \<open>offset\<close>, \<open>chunks\<close>.\<close>

partial_function (option) emit_loop ::
    "(bytes \<Rightarrow> panic + nat) \<Rightarrow> (bytes \<Rightarrow> string) \<Rightarrow> nat \<Rightarrow> nat \<Rightarrow> bytes \<Rightarrow> u64 \<Rightarrow> Chunk list
     \<Rightarrow> (panic + bytes \<times> u64 \<times> Chunk list) option" where
  "emit_loop cutf nm mn mx buffer offset chunks =
     (if length buffer \<le> mn then Some (Inr (buffer, offset, chunks))
      else (case cutf buffer of
              Inl p \<Rightarrow> Some (Inl p)
            | Inr boundary \<Rightarrow>
                (if length buffer \<le> boundary \<and> length buffer < mx
                 then Some (Inr (buffer, offset, chunks))
                 else let chunk_size = min boundary (length buffer);
                          cdata = take chunk_size buffer
                      in emit_loop cutf nm mn mx (drop chunk_size buffer)
                           (offset + word_of_nat (length cdata))
                           (chunks @ [mk_chunk nm cdata offset]))))"

definition emit_chunks :: "hashes \<Rightarrow> StreamChunker \<Rightarrow> (panic + StreamChunker) option" where
  "emit_chunks H s =
     (case emit_loop (find_boundary s) (name_with H (sc_keying s)) (min_size (sc_config s))
             (max_size (sc_config s)) (sc_buffer s) (sc_offset s) (sc_chunks s) of
        None \<Rightarrow> None
      | Some (Inl p) \<Rightarrow> Some (Inl p)
      | Some (Inr (b, off, cs)) \<Rightarrow>
          Some (Inr (s\<lparr>sc_buffer := b, sc_offset := off, sc_chunks := cs\<rparr>)))"

definition feed :: "hashes \<Rightarrow> StreamChunker \<Rightarrow> bytes \<Rightarrow> (panic + StreamChunker) option" where
  "feed H s data = emit_chunks H (s\<lparr>sc_buffer := sc_buffer s @ data\<rparr>)"

definition finalize :: "hashes \<Rightarrow> StreamChunker \<Rightarrow> Chunk list" where
  "finalize H s =
     (if sc_buffer s \<noteq> []
      then sc_chunks s @ [mk_chunk (name_with H (sc_keying s)) (sc_buffer s) (sc_offset s)]
      else sc_chunks s)"

fun feed_all :: "hashes \<Rightarrow> StreamChunker \<Rightarrow> bytes list \<Rightarrow> (panic + StreamChunker) option" where
  "feed_all H s [] = Some (Inr s)"
| "feed_all H s (d # ds) =
     (case feed H s d of
        None \<Rightarrow> None
      | Some (Inl p) \<Rightarrow> Some (Inl p)
      | Some (Inr s') \<Rightarrow> feed_all H s' ds)"

end
