(* ===== verification/Chunking_Laws.thy ===== *)
theory Chunking_Laws
  imports Chunking
begin

text \<open>
  Correctness of the chunker. The boundary search is compared with a reference, the first
  position in \<open>[min, cap)\<close> whose rolling fingerprint passes the mask for that position.
  The locale \<open>cdc_boundary\<close> is the interface between the search and the two loops: what the
  batch engine and the stream chunker may rely on, whatever the hash. Inside it, both loops
  are shown to terminate and to cut the stream into the same pieces; the interpretation
  \<open>fastcdc\<close> discharges its laws for the code's search.
\<close>

section \<open>Reference boundary\<close>

definition roll :: "gear_table \<Rightarrow> bytes \<Rightarrow> nat \<Rightarrow> nat \<Rightarrow> u64" where
  "roll gear data mn i = foldl (\<lambda>fp b. push_bit 1 fp + gear b) 0 (slice data mn i)"

definition mask_at :: "nat \<Rightarrow> nat \<Rightarrow> u64" where
  "mask_at avg i =
     (let bits = 63 - leading_zeros64 (max avg 2)
      in if i < avg then top_bits_mask (bits + 1) else top_bits_mask (bits - 1))"

definition hit :: "gear_table \<Rightarrow> bytes \<Rightarrow> nat \<Rightarrow> nat \<Rightarrow> nat \<Rightarrow> bool" where
  "hit gear data mn avg i \<longleftrightarrow> roll gear data mn (Suc i) AND mask_at avg i = 0"

definition first_hit :: "gear_table \<Rightarrow> bytes \<Rightarrow> nat \<Rightarrow> nat \<Rightarrow> nat \<Rightarrow> nat" where
  "first_hit gear data mn avg mx =
     (if length data \<le> mn then length data
      else case find (hit gear data mn avg) [mn..<min mx (length data)] of
             None \<Rightarrow> min mx (length data)
           | Some i \<Rightarrow> i)"

lemma find_append: "find P (xs @ ys) = (case find P xs of None \<Rightarrow> find P ys | Some x \<Rightarrow> Some x)"
  by (induction xs) auto

lemma find_cong_set: "(\<And>x. x \<in> set xs \<Longrightarrow> P x = Q x) \<Longrightarrow> find P xs = find Q xs"
  by (induction xs) auto

lemma find_SomeD: "find P xs = Some x \<Longrightarrow> x \<in> set xs \<and> P x"
  by (induction xs) (auto split: if_splits)

lemma find_NoneD: "find P xs = None \<Longrightarrow> x \<in> set xs \<Longrightarrow> \<not> P x"
  by (auto simp: find_None_iff)

lemma slice_Suc: "mn \<le> i \<Longrightarrow> i < length xs \<Longrightarrow> slice xs mn (Suc i) = slice xs mn i @ [xs ! i]"
  by (simp add: slice_def Suc_diff_le take_Suc_conv_app_nth)

lemma roll_start [simp]: "roll gear data mn mn = 0"
  by (simp add: roll_def slice_def)

lemma roll_Suc:
  "mn \<le> i \<Longrightarrow> i < length data \<Longrightarrow>
   roll gear data mn (Suc i) = push_bit 1 (roll gear data mn i) + gear (data ! i)"
  by (simp add: roll_def slice_Suc)

lemma roll_append: "i \<le> length data \<Longrightarrow> roll gear (data @ ys) mn i = roll gear data mn i"
  by (simp add: roll_def slice_append_left)

lemma gear_scan_find:
  "mn \<le> i \<Longrightarrow> hi \<le> length data \<Longrightarrow> fp = roll gear data mn i \<Longrightarrow>
   gear_scan gear data msk hi fp i =
     (case find (\<lambda>j. roll gear data mn (Suc j) AND msk = 0) [i..<hi] of
        Some j \<Rightarrow> Inl j | None \<Rightarrow> Inr (roll gear data mn (max i hi)))"
proof (induction gear data msk hi fp i rule: gear_scan.induct)
  case (1 gear data msk hi fp i)
  show ?case
  proof (cases "i < hi")
    case False
    then show ?thesis using "1.prems" by (subst gear_scan.simps) (simp add: max_def)
  next
    case True
    let ?fp = "push_bit 1 fp + gear (data ! i)"
    have fp: "?fp = roll gear data mn (Suc i)"
      using "1.prems" True by (simp add: roll_Suc)
    have upt: "[i..<hi] = i # [Suc i..<hi]" using True by (rule upt_conv_Cons)
    show ?thesis
    proof (cases "?fp AND msk = 0")
      case hit: True
      then show ?thesis
        using True fp by (simp add: gear_scan.simps [of gear data msk hi fp i] upt)
    next
      case miss: False
      have "gear_scan gear data msk hi ?fp (Suc i) =
        (case find (\<lambda>j. roll gear data mn (Suc j) AND msk = 0) [Suc i..<hi] of
          Some j \<Rightarrow> Inl j | None \<Rightarrow> Inr (roll gear data mn (max (Suc i) hi)))"
        using "1.IH" [OF True refl miss] "1.prems" fp by simp
      then show ?thesis
        using True miss fp
        by (simp add: gear_scan.simps [of gear data msk hi fp i] upt max_def split: option.splits)
    qed
  qed
qed

lemma fastcdc_boundary_first_hit:
  assumes "mn \<le> mx"
  shows "fastcdc_boundary gear data mn avg mx = Inr (first_hit gear data mn avg mx)"
proof (cases "length data \<le> mn")
  case True
  then show ?thesis by (simp add: fastcdc_boundary_def first_hit_def Let_def)
next
  case False
  define cap where "cap = min mx (length data)"
  define normal where "normal = (if avg < mn then mn else if cap < avg then cap else avg)"
  define bits where "bits = 63 - leading_zeros64 (max avg 2)"
  have cap: "mn \<le> cap" "cap \<le> length data"
    using assms False by (simp_all add: cap_def)
  have nrm: "mn \<le> normal" "normal \<le> cap"
    using cap by (auto simp: normal_def)
  let ?P = "\<lambda>m j. roll gear data mn (Suc j) AND top_bits_mask m = 0"
  have lo: "find (?P (bits + 1)) [mn..<normal] = find (hit gear data mn avg) [mn..<normal]"
  proof (rule find_cong_set)
    fix j assume "j \<in> set [mn..<normal]"
    then have "j < avg" by (auto simp: normal_def split: if_splits)
    then show "?P (bits + 1) j = hit gear data mn avg j"
      by (simp add: hit_def mask_at_def bits_def Let_def)
  qed
  have hi: "find (?P (bits - 1)) [normal..<cap] = find (hit gear data mn avg) [normal..<cap]"
  proof (rule find_cong_set)
    fix j assume "j \<in> set [normal..<cap]"
    then have "\<not> j < avg" using cap by (auto simp: normal_def split: if_splits)
    then show "?P (bits - 1) j = hit gear data mn avg j"
      by (simp add: hit_def mask_at_def bits_def Let_def)
  qed
  have split: "[mn..<cap] = [mn..<normal] @ [normal..<cap]"
    using nrm by (metis le_add_diff_inverse upt_add_eq_append)
  have "fastcdc_boundary gear data mn avg mx =
      (case gear_scan gear data (top_bits_mask (bits + 1)) normal 0 mn of
         Inl i \<Rightarrow> Inr i
       | Inr fp \<Rightarrow> (case gear_scan gear data (top_bits_mask (bits - 1)) cap fp normal of
             Inl i \<Rightarrow> Inr i | Inr _ \<Rightarrow> Inr cap))"
    using False cap(1)
    by (simp add: fastcdc_boundary_def Let_def split: sum.split flip: cap_def normal_def bits_def)
  also have "\<dots> = Inr (case find (hit gear data mn avg) [mn..<cap] of None \<Rightarrow> cap | Some i \<Rightarrow> i)"
    using nrm cap lo hi
    by (simp add: gear_scan_find [where mn = mn] split find_append max_absorb2 split: option.splits)
  finally show ?thesis using False by (simp add: first_hit_def cap_def split: option.split)
qed

lemma find_upt_before:
  assumes "find P [a..<b] = Some i" and "a \<le> j" and "j < i"
  shows "\<not> P j"
proof
  assume "P j"
  have "i < b" using find_SomeD [OF assms(1)] by simp
  then have "[a..<b] = [a..<j] @ j # [Suc j..<b]"
    using assms(2,3) by (metis le_add_diff_inverse less_imp_le_nat less_trans upt_add_eq_append upt_conv_Cons)
  with assms(1) have "i = j \<or> find P [a..<j] = Some i"
    using \<open>P j\<close> by (simp add: find_append split: option.splits)
  with assms(3) show False by (auto dest: find_SomeD)
qed

lemma first_hit_first:
  assumes "mn < length data" and "mn \<le> i" and "i < first_hit gear data mn avg mx"
  shows "\<not> hit gear data mn avg i"
proof (cases "find (hit gear data mn avg) [mn..<min mx (length data)]")
  case None
  then have "i \<in> set [mn..<min mx (length data)]" using assms by (simp add: first_hit_def)
  with None show ?thesis by (rule find_NoneD)
next
  case (Some n)
  then have "n = first_hit gear data mn avg mx" using assms by (simp add: first_hit_def)
  with Some assms show ?thesis using find_upt_before [of _ mn _ n i] by blast
qed

lemma first_hit_bounds:
  assumes "mn < length data" "mn \<le> mx"
  shows "mn \<le> first_hit gear data mn avg mx \<and> first_hit gear data mn avg mx \<le> min mx (length data)"
  using assms by (auto simp: first_hit_def split: option.splits dest!: find_SomeD)

lemma hit_append: "i < length data \<Longrightarrow> hit gear (data @ ys) mn avg i = hit gear data mn avg i"
  by (simp add: hit_def roll_append)

lemma first_hit_stable:
  assumes "mn \<le> mx" and "first_hit gear data mn avg mx < length data \<or> mx \<le> length data"
    and "mn < length data"
  shows "first_hit gear (data @ ys) mn avg mx = first_hit gear data mn avg mx"
proof -
  define cap where "cap = min mx (length data)"
  define cap' where "cap' = min mx (length data + length ys)"
  have caps: "mn \<le> cap" "cap \<le> cap'" using assms by (auto simp: cap_def cap'_def)
  have eq: "find (hit gear (data @ ys) mn avg) [mn..<cap] = find (hit gear data mn avg) [mn..<cap]"
    by (rule find_cong_set) (simp add: hit_append cap_def)
  have split: "[mn..<cap'] = [mn..<cap] @ [cap..<cap']"
    using caps by (metis le_add_diff_inverse upt_add_eq_append)
  show ?thesis
  proof (cases "find (hit gear data mn avg) [mn..<cap]")
    case (Some i)
    then show ?thesis using assms(3) eq split
      by (simp add: first_hit_def find_append flip: cap_def cap'_def)
  next
    case None
    then have "first_hit gear data mn avg mx = cap"
      using assms(3) by (simp add: first_hit_def flip: cap_def)
    with assms(2) have "mx \<le> length data" by (auto simp: cap_def)
    then have "cap' = cap" by (simp add: cap_def cap'_def)
    then show ?thesis using None assms(3) eq by (simp add: first_hit_def flip: cap_def cap'_def)
  qed
qed

section \<open>The pieces of a stream\<close>

text \<open>The cut points of a whole stream under a boundary function that always succeeds.\<close>

function pieces :: "(bytes \<Rightarrow> nat) \<Rightarrow> bytes \<Rightarrow> bytes list" where
  "pieces bnd xs =
     (if xs = [] \<or> bnd xs = 0 then [] else take (bnd xs) xs # pieces bnd (drop (bnd xs) xs))"
  by pat_completeness auto
termination by (relation "measure (\<lambda>(bnd, xs). length xs)") auto

declare pieces.simps [simp del]

primrec lay :: "(bytes \<Rightarrow> string) \<Rightarrow> nat \<Rightarrow> bytes list \<Rightarrow> Chunk list" where
  "lay nm off [] = []"
| "lay nm off (p # ps) = mk_chunk nm p (word_of_nat off) # lay nm (off + length p) ps"

lemma lay_append: "lay nm off (ps @ qs) = lay nm off ps @ lay nm (off + length (concat ps)) qs"
  by (induction ps arbitrary: off) (simp_all add: add.assoc)

lemma lay_data [simp]: "map ck_data (lay nm off ps) = ps"
  by (induction ps arbitrary: off) (simp_all add: mk_chunk_def)

lemma lay_size [simp]: "map ck_size (lay nm off ps) = map length ps"
  by (induction ps arbitrary: off) (simp_all add: mk_chunk_def)

lemma lay_hash: "c \<in> set (lay nm off ps) \<Longrightarrow> ck_hash c = nm (ck_data c) \<and> ck_size c = length (ck_data c)"
  by (induction ps arbitrary: off) (auto simp: mk_chunk_def)

lemma lay_offset:
  "i < length ps \<Longrightarrow> ck_offset (lay nm off ps ! i) = word_of_nat (off + length (concat (take i ps)))"
proof (induction ps arbitrary: off i)
  case Nil
  then show ?case by simp
next
  case (Cons p ps)
  then show ?case by (cases i) (simp_all add: mk_chunk_def add.assoc)
qed

section \<open>The interface between the boundary search and the loops\<close>

locale cdc_boundary =
  fixes ok :: "'c \<Rightarrow> bool"
    and mn mx :: "'c \<Rightarrow> nat"
    and cutf :: "'c \<Rightarrow> bytes \<Rightarrow> panic + nat"
    and bnd :: "'c \<Rightarrow> bytes \<Rightarrow> nat"
  assumes cut_ok: "ok c \<Longrightarrow> cutf c xs = Inr (bnd c xs)"
    and bnd_pos: "ok c \<Longrightarrow> xs \<noteq> [] \<Longrightarrow> 0 < bnd c xs"
    and bnd_le: "ok c \<Longrightarrow> bnd c xs \<le> length xs"
    and bnd_max: "ok c \<Longrightarrow> bnd c xs \<le> mx c"
    and bnd_min: "ok c \<Longrightarrow> bnd c xs < length xs \<Longrightarrow> mn c \<le> bnd c xs"
    and bnd_short: "ok c \<Longrightarrow> length xs \<le> mn c \<Longrightarrow> bnd c xs = length xs"
    and bnd_stable: "ok c \<Longrightarrow> mn c < length xs \<Longrightarrow> bnd c xs < length xs \<or> mx c \<le> length xs
      \<Longrightarrow> bnd c (xs @ ys) = bnd c xs"
begin

lemma pieces_Nil [simp]: "pieces (bnd c) [] = []"
  by (simp add: pieces.simps)

lemma pieces_step:
  "ok c \<Longrightarrow> xs \<noteq> [] \<Longrightarrow>
   pieces (bnd c) xs = take (bnd c xs) xs # pieces (bnd c) (drop (bnd c xs) xs)"
  using bnd_pos [of c xs] by (subst pieces.simps) simp

lemma pieces_whole:
  "ok c \<Longrightarrow> xs \<noteq> [] \<Longrightarrow> bnd c xs = length xs \<Longrightarrow> pieces (bnd c) xs = [xs]"
  by (simp add: pieces_step)

lemma concat_pieces: "ok c \<Longrightarrow> concat (pieces (bnd c) xs) = xs"
proof (induction xs rule: length_induct)
  case (1 xs)
  show ?case
  proof (cases "xs = []")
    case False
    then have "length (drop (bnd c xs) xs) < length xs"
      using bnd_pos [OF "1.prems" False] by simp
    then show ?thesis using "1" False by (simp add: pieces_step)
  qed simp
qed

lemma pieces_sizes:
  "ok c \<Longrightarrow> p \<in> set (pieces (bnd c) xs) \<Longrightarrow> p \<noteq> [] \<and> length p \<le> mx c"
proof (induction xs rule: length_induct)
  case (1 xs)
  then have ne: "xs \<noteq> []" by auto
  have pos: "0 < bnd c xs" by (rule bnd_pos [OF "1.prems"(1) ne])
  then have less: "length (drop (bnd c xs) xs) < length xs" using ne by simp
  have "p = take (bnd c xs) xs \<or> p \<in> set (pieces (bnd c) (drop (bnd c xs) xs))"
    using "1.prems" ne by (simp add: pieces_step)
  then show ?case
    using "1.IH" [rule_format, OF less "1.prems"(1)] ne pos bnd_max [OF "1.prems"(1), of xs] by auto
qed

lemma pieces_min:
  "ok c \<Longrightarrow> p \<in> set (butlast (pieces (bnd c) xs)) \<Longrightarrow> mn c \<le> length p"
proof (induction xs rule: length_induct)
  case (1 xs)
  then have ne: "xs \<noteq> []" by auto
  let ?r = "drop (bnd c xs) xs"
  have less: "length ?r < length xs" using bnd_pos [OF "1.prems"(1) ne] ne by simp
  have "?r \<noteq> []" using "1.prems" ne by (auto simp: pieces_step)
  then have lt: "bnd c xs < length xs" by simp
  have "p = take (bnd c xs) xs \<or> p \<in> set (butlast (pieces (bnd c) ?r))"
    using "1.prems" ne by (auto simp: pieces_step split: if_splits)
  then show ?case
    using "1.IH" [rule_format, OF less "1.prems"(1)] bnd_min [OF "1.prems"(1) lt] lt by auto
qed

lemma chunk_loop_pieces:
  "ok c \<Longrightarrow> off \<le> length xs \<Longrightarrow>
   chunk_loop (cutf c) nm xs off cs = Some (Inr (cs @ lay nm off (pieces (bnd c) (drop off xs))))"
proof (induction "length xs - off" arbitrary: off cs rule: less_induct)
  case less
  show ?case
  proof (cases "off < length xs")
    case False
    then show ?thesis using less.prems by (simp add: chunk_loop.simps)
  next
    case True
    let ?r = "drop off xs" and ?n = "bnd c (drop off xs)"
    have pos: "0 < ?n" and le: "off + ?n \<le> length xs"
      using bnd_pos [OF less.prems(1), of ?r] bnd_le [OF less.prems(1), of ?r] True by auto
    have sl: "slice xs off (off + ?n) = take ?n ?r"
      by (simp add: slice_def)
    have "chunk_loop (cutf c) nm xs (off + ?n) (cs @ [mk_chunk nm (take ?n ?r) (word_of_nat off)]) =
      Some (Inr ((cs @ [mk_chunk nm (take ?n ?r) (word_of_nat off)])
        @ lay nm (off + ?n) (pieces (bnd c) (drop (off + ?n) xs))))"
      using True pos le less.prems by (intro less.hyps) auto
    then show ?thesis
      using True less.prems le
      by (subst chunk_loop.simps)
        (simp add: cut_ok sl pieces_step min_absorb1 ac_simps)
  qed
qed

text \<open>A buffer in which the stream chunker is waiting for more data.\<close>

lemma emit_loop_pieces:
  assumes "ok c"
  shows "\<exists>ps rest. emit_loop (cutf c) nm (mn c) (mx c) buf (word_of_nat off) cs =
      Some (Inr (rest, word_of_nat (off + length (concat ps)), cs @ lay nm off ps))
    \<and> buf = concat ps @ rest \<and> bnd c rest = length rest
    \<and> (\<forall>ys. pieces (bnd c) (buf @ ys) = ps @ pieces (bnd c) (rest @ ys))"
proof (induction buf arbitrary: off cs rule: length_induct)
  case (1 buf)
  let ?n = "bnd c buf"
  show ?case
  proof (cases "length buf \<le> mn c \<or> length buf \<le> ?n \<and> length buf < mx c")
    case True
    then have "?n = length buf"
      using bnd_short [OF assms, of buf] bnd_le [OF assms, of buf] by auto
    moreover have "emit_loop (cutf c) nm (mn c) (mx c) buf (word_of_nat off) cs =
        Some (Inr (buf, word_of_nat off, cs))"
      using True by (subst emit_loop.simps) (auto simp: cut_ok [OF assms])
    ultimately show ?thesis by (intro exI [of _ "[]"] exI [of _ buf]) simp
  next
    case False
    then have big: "mn c < length buf" and ne: "buf \<noteq> []" by auto
    have pos: "0 < ?n" and le: "?n \<le> length buf"
      using bnd_pos [OF assms ne] bnd_le [OF assms] by auto
    have st: "bnd c (buf @ ys) = ?n" for ys
      using False big by (intro bnd_stable [OF assms]) auto
    let ?p = "take ?n buf" and ?d = "drop ?n buf"
    have lenp: "length ?p = ?n" using le by simp
    have "length ?d < length buf" using pos ne by simp
    from "1.IH" [rule_format, OF this, of "off + ?n" "cs @ [mk_chunk nm ?p (word_of_nat off)]"]
    obtain ps rest where IH: "emit_loop (cutf c) nm (mn c) (mx c) ?d (word_of_nat (off + ?n))
          (cs @ [mk_chunk nm ?p (word_of_nat off)]) =
        Some (Inr (rest, word_of_nat (off + ?n + length (concat ps)),
          (cs @ [mk_chunk nm ?p (word_of_nat off)]) @ lay nm (off + ?n) ps))"
      and d: "?d = concat ps @ rest" and w: "bnd c rest = length rest"
      and pcs: "\<forall>ys. pieces (bnd c) (?d @ ys) = ps @ pieces (bnd c) (rest @ ys)" by blast
    have "emit_loop (cutf c) nm (mn c) (mx c) buf (word_of_nat off) cs =
        emit_loop (cutf c) nm (mn c) (mx c) ?d (word_of_nat (off + ?n))
          (cs @ [mk_chunk nm ?p (word_of_nat off)])"
      using False le by (subst emit_loop.simps) (auto simp: cut_ok [OF assms] Let_def min_absorb1)
    with IH lenp have "emit_loop (cutf c) nm (mn c) (mx c) buf (word_of_nat off) cs =
        Some (Inr (rest, word_of_nat (off + length (concat (?p # ps))), cs @ lay nm off (?p # ps)))"
      by (simp add: add.assoc)
    moreover have "buf = concat (?p # ps) @ rest"
      using d by (metis append.assoc append_take_drop_id concat.simps(2))
    moreover have "pieces (bnd c) (buf @ ys) = (?p # ps) @ pieces (bnd c) (rest @ ys)" for ys
      using pieces_step [OF assms, of "buf @ ys"] ne st le pcs by simp
    ultimately show ?thesis using w by blast
  qed
qed

end

section \<open>The code's search provides the interface\<close>

definition valid_config :: "ChunkConfig \<Rightarrow> bool" where
  "valid_config cfg \<longleftrightarrow> 0 < min_size cfg \<and> min_size cfg \<le> max_size cfg"

definition cdc_ok :: "gear_table \<times> ChunkConfig \<Rightarrow> bool" where
  "cdc_ok c \<longleftrightarrow> valid_config (snd c)"

definition cdc_cut :: "gear_table \<times> ChunkConfig \<Rightarrow> bytes \<Rightarrow> panic + nat" where
  "cdc_cut c xs =
     fastcdc_boundary (fst c) xs (min_size (snd c)) (avg_size (snd c)) (max_size (snd c))"

definition cdc_bnd :: "gear_table \<times> ChunkConfig \<Rightarrow> bytes \<Rightarrow> nat" where
  "cdc_bnd c xs = first_hit (fst c) xs (min_size (snd c)) (avg_size (snd c)) (max_size (snd c))"

lemmas cdc_defs = cdc_ok_def cdc_cut_def cdc_bnd_def valid_config_def

lemma cdc_bnd_range:
  assumes "cdc_ok c"
  shows "cdc_bnd c xs \<le> length xs \<and> cdc_bnd c xs \<le> max_size (snd c)
    \<and> (cdc_bnd c xs < length xs \<longrightarrow> min_size (snd c) \<le> cdc_bnd c xs)
    \<and> (xs \<noteq> [] \<longrightarrow> 0 < cdc_bnd c xs)"
proof (cases "min_size (snd c) < length xs")
  case True
  then show ?thesis
    using assms first_hit_bounds [OF True, of "max_size (snd c)" "fst c" "avg_size (snd c)"]
    by (auto simp: cdc_defs)
next
  case False
  then show ?thesis using assms by (auto simp: cdc_defs first_hit_def)
qed

interpretation fastcdc: cdc_boundary cdc_ok "\<lambda>c. min_size (snd c)" "\<lambda>c. max_size (snd c)" cdc_cut cdc_bnd
proof unfold_locales
  fix c :: "gear_table \<times> ChunkConfig" and xs ys :: bytes
  assume ok: "cdc_ok c"
  show "cdc_cut c xs = Inr (cdc_bnd c xs)"
    using ok by (simp add: cdc_defs fastcdc_boundary_first_hit)
  show "xs \<noteq> [] \<Longrightarrow> 0 < cdc_bnd c xs" and "cdc_bnd c xs \<le> length xs"
    and "cdc_bnd c xs \<le> max_size (snd c)"
    and "cdc_bnd c xs < length xs \<Longrightarrow> min_size (snd c) \<le> cdc_bnd c xs"
    using cdc_bnd_range [OF ok, of xs] by auto
  show "length xs \<le> min_size (snd c) \<Longrightarrow> cdc_bnd c xs = length xs"
    by (simp add: cdc_bnd_def first_hit_def)
  show "min_size (snd c) < length xs \<Longrightarrow> cdc_bnd c xs < length xs \<or> max_size (snd c) \<le> length xs
      \<Longrightarrow> cdc_bnd c (xs @ ys) = cdc_bnd c xs"
    using ok unfolding cdc_defs by (intro first_hit_stable) auto
qed

lemma find_chunk_boundary_cdc: "find_chunk_boundary e = cdc_cut (eng_gear e, eng_config e)"
  by (simp add: fun_eq_iff find_chunk_boundary_def cdc_cut_def)

lemma find_boundary_cdc: "find_boundary s = cdc_cut (sc_gear s, sc_config s)"
  by (simp add: fun_eq_iff find_boundary_def cdc_cut_def)

lemma chunk_data_pieces:
  assumes "valid_config (eng_config e)"
  shows "chunk_data H e xs =
    Some (Inr (lay (engine_name H e) 0 (pieces (cdc_bnd (eng_gear e, eng_config e)) xs)))"
proof -
  have "cdc_ok (eng_gear e, eng_config e)" using assms by (simp add: cdc_ok_def)
  from fastcdc.chunk_loop_pieces [OF this, of 0 xs "engine_name H e" "[]"] show ?thesis
    by (simp add: chunk_data_def find_chunk_boundary_cdc)
qed

section \<open>The stream chunker cuts like the batch engine\<close>

definition stream_inv :: "hashes \<Rightarrow> StreamChunker \<Rightarrow> bytes \<Rightarrow> bool" where
  "stream_inv H s fed \<longleftrightarrow>
     (let bnd = cdc_bnd (sc_gear s, sc_config s) in
      \<exists>ps. sc_chunks s = lay (name_with H (sc_keying s)) 0 ps
         \<and> fed = concat ps @ sc_buffer s
         \<and> sc_offset s = word_of_nat (length (concat ps))
         \<and> bnd (sc_buffer s) = length (sc_buffer s)
         \<and> (\<forall>ys. pieces bnd (fed @ ys) = ps @ pieces bnd (sc_buffer s @ ys)))"

definition same_setup :: "StreamChunker \<Rightarrow> StreamChunker \<Rightarrow> bool" where
  "same_setup s t \<longleftrightarrow> sc_config t = sc_config s \<and> sc_gear t = sc_gear s \<and> sc_keying t = sc_keying s"

lemma stream_inv_fresh:
  "sc_buffer s = [] \<Longrightarrow> sc_offset s = 0 \<Longrightarrow> sc_chunks s = [] \<Longrightarrow> stream_inv H s []"
  unfolding stream_inv_def Let_def
  by (intro exI [of _ "[]"]) (simp add: cdc_bnd_def first_hit_def)

lemma feed_stream_inv:
  assumes "valid_config (sc_config s)" and "stream_inv H s fed"
  shows "\<exists>t. feed H s d = Some (Inr t) \<and> same_setup s t \<and> stream_inv H t (fed @ d)"
proof -
  let ?c = "(sc_gear s, sc_config s)" and ?nm = "name_with H (sc_keying s)"
  have ok: "cdc_ok ?c" using assms(1) by (simp add: cdc_ok_def)
  from assms(2) obtain ps where inv: "sc_chunks s = lay ?nm 0 ps" "fed = concat ps @ sc_buffer s"
    "sc_offset s = word_of_nat (length (concat ps))"
    "\<forall>ys. pieces (cdc_bnd ?c) (fed @ ys) = ps @ pieces (cdc_bnd ?c) (sc_buffer s @ ys)"
    by (auto simp: stream_inv_def Let_def)
  from fastcdc.emit_loop_pieces [OF ok, of ?nm "sc_buffer s @ d" "length (concat ps)" "lay ?nm 0 ps"]
  obtain qs rest where em0: "emit_loop (cdc_cut ?c) ?nm (min_size (sc_config s)) (max_size (sc_config s))
        (sc_buffer s @ d) (word_of_nat (length (concat ps))) (lay ?nm 0 ps) =
      Some (Inr (rest, word_of_nat (length (concat ps) + length (concat qs)),
        lay ?nm 0 ps @ lay ?nm (length (concat ps)) qs))"
    and buf: "sc_buffer s @ d = concat qs @ rest" and w: "cdc_bnd ?c rest = length rest"
    and pcs: "\<forall>ys. pieces (cdc_bnd ?c) ((sc_buffer s @ d) @ ys) = qs @ pieces (cdc_bnd ?c) (rest @ ys)"
    unfolding snd_conv by blast
  have em: "emit_loop (cdc_cut ?c) ?nm (min_size (sc_config s)) (max_size (sc_config s))
        (sc_buffer s @ d) (sc_offset s) (sc_chunks s) =
      Some (Inr (rest, word_of_nat (length (concat (ps @ qs))), lay ?nm 0 (ps @ qs)))"
    using em0 inv by (simp add: lay_append)
  let ?t = "s\<lparr>sc_buffer := rest, sc_offset := word_of_nat (length (concat (ps @ qs))),
      sc_chunks := lay ?nm 0 (ps @ qs)\<rparr>"
  have "feed H s d = Some (Inr ?t)"
    using em by (simp add: feed_def emit_chunks_def find_boundary_cdc)
  moreover have "pieces (cdc_bnd ?c) ((fed @ d) @ ys) = (ps @ qs) @ pieces (cdc_bnd ?c) (rest @ ys)" for ys
    using inv(4) [rule_format, of "d @ ys"] pcs [rule_format, of ys] by simp
  then have "stream_inv H ?t (fed @ d)"
    unfolding stream_inv_def Let_def using inv(2) buf w
    by (intro exI [of _ "ps @ qs"]) simp
  ultimately show ?thesis by (auto simp: same_setup_def)
qed

lemma feed_all_stream_inv:
  "valid_config (sc_config s) \<Longrightarrow> stream_inv H s fed \<Longrightarrow>
   \<exists>t. feed_all H s ds = Some (Inr t) \<and> same_setup s t \<and> stream_inv H t (fed @ concat ds)"
proof (induction ds arbitrary: s fed)
  case Nil
  then show ?case by (simp add: same_setup_def)
next
  case (Cons d ds)
  from feed_stream_inv [OF Cons.prems] obtain t where
    t: "feed H s d = Some (Inr t)" "same_setup s t" "stream_inv H t (fed @ d)" by blast
  then have "valid_config (sc_config t)" using Cons.prems by (simp add: same_setup_def)
  from Cons.IH [OF this t(3)] t show ?case by (auto simp: same_setup_def)
qed

lemma finalize_pieces:
  assumes "valid_config (sc_config s)" and "stream_inv H s fed"
  shows "finalize H s = lay (name_with H (sc_keying s)) 0 (pieces (cdc_bnd (sc_gear s, sc_config s)) fed)"
proof -
  let ?c = "(sc_gear s, sc_config s)" and ?nm = "name_with H (sc_keying s)"
  have ok: "cdc_ok ?c" using assms(1) by (simp add: cdc_ok_def)
  from assms(2) obtain ps where inv: "sc_chunks s = lay ?nm 0 ps"
    "sc_offset s = word_of_nat (length (concat ps))" "cdc_bnd ?c (sc_buffer s) = length (sc_buffer s)"
    "pieces (cdc_bnd ?c) fed = ps @ pieces (cdc_bnd ?c) (sc_buffer s)"
    by (auto simp: stream_inv_def Let_def dest: spec [of _ "[]"])
  show ?thesis
  proof (cases "sc_buffer s = []")
    case True
    then show ?thesis using inv by (simp add: finalize_def)
  next
    case False
    then have "pieces (cdc_bnd ?c) (sc_buffer s) = [sc_buffer s]"
      using inv(3) by (rule fastcdc.pieces_whole [OF ok])
    then show ?thesis using inv False by (simp add: finalize_def lay_append)
  qed
qed

lemma stream_like_batch:
  assumes "valid_config (eng_config e)"
    and "sc_config s = eng_config e" "sc_gear s = eng_gear e" "sc_keying s = eng_keying e"
    and "sc_buffer s = []" "sc_offset s = 0" "sc_chunks s = []"
  shows "\<exists>t. feed_all H s ds = Some (Inr t) \<and> chunk_data H e (concat ds) = Some (Inr (finalize H t))"
proof -
  have v: "valid_config (sc_config s)" using assms by simp
  from feed_all_stream_inv [OF v stream_inv_fresh [OF assms(5-7)], of H ds] obtain t where
    t: "feed_all H s ds = Some (Inr t)" "same_setup s t" "stream_inv H t (concat ds)" by auto
  have nm: "name_with H (eng_keying e) = engine_name H e" by (simp add: fun_eq_iff engine_name_def)
  from t(2) v have "valid_config (sc_config t)" by (simp add: same_setup_def)
  from finalize_pieces [OF this t(3)] have "finalize H t =
      lay (engine_name H e) 0 (pieces (cdc_bnd (eng_gear e, eng_config e)) (concat ds))"
    using t(2) assms by (simp add: same_setup_def nm)
  with t(1) chunk_data_pieces [OF assms(1)] show ?thesis by auto
qed

section \<open>Names\<close>

lemma xor_eq_zero_iff: "(a :: u8) XOR b = 0 \<longleftrightarrow> a = b"
  by (auto simp: bit_eq_iff bit_simps)

lemma or_eq_zero_iff: "(a :: u8) OR b = 0 \<longleftrightarrow> a = 0 \<and> b = 0"
  by (auto simp: bit_eq_iff bit_simps)

lemma fold_differences_acc:
  "foldl (\<lambda>acc (a, b). acc OR (a XOR b)) acc ps = (0 :: u8) \<longleftrightarrow> acc = 0 \<and> (\<forall>(a, b) \<in> set ps. a = b)"
  by (induction ps arbitrary: acc) (auto simp: or_eq_zero_iff xor_eq_zero_iff)

lemma fold_differences_eq:
  "length xs = length ys \<Longrightarrow> fold_differences xs ys = 0 \<longleftrightarrow> xs = ys"
  unfolding fold_differences_def fold_differences_acc
  by (induction xs ys rule: list_induct2) auto

lemma decode_name_eq_Some:
  "decode_name nm = Some bs \<longleftrightarrow> hex_decode nm = Some bs \<and> length bs = 32"
  by (auto simp: decode_name_def dest: length_hex_decode split: option.splits if_splits)

definition digest_of :: "hashes \<Rightarrow> ChunkKeying option \<Rightarrow> bytes \<Rightarrow> bytes" where
  "digest_of H keying pt =
     (case keying of Some k \<Rightarrow> hmac_sha256 H (id_key k) pt | None \<Rightarrow> sha256 H pt)"

definition hashes_32 :: "hashes \<Rightarrow> bool" where
  "hashes_32 H \<longleftrightarrow> (\<forall>pt. length (sha256 H pt) = 32) \<and> (\<forall>k pt. length (hmac_sha256 H k pt) = 32)"

lemma name_with_digest: "name_with H keying pt = hex_encode (digest_of H keying pt)"
  by (simp add: name_with_def digest_of_def keying_name_def compute_hash_def split: option.split)

lemma length_digest_of: "hashes_32 H \<Longrightarrow> length (digest_of H keying pt) = 32"
  by (simp add: hashes_32_def digest_of_def split: option.split)

lemma verify_name_digest:
  assumes "hashes_32 H"
  shows "verify_name H e nm pt \<longleftrightarrow> hex_decode nm = Some (digest_of H (eng_keying e) pt)"
proof (cases "eng_keying e")
  case None
  have len: "length (sha256 H pt) = 32" using assms by (simp add: hashes_32_def)
  show ?thesis
  proof (cases "decode_name nm")
    case d: None
    then have "hex_decode nm \<noteq> Some (sha256 H pt)"
      using len by (metis decode_name_eq_Some option.distinct(1))
    then show ?thesis using None d by (simp add: verify_name_def digest_of_def)
  next
    case (Some bs)
    then show ?thesis using None len decode_name_eq_Some [of nm bs]
      by (auto simp: verify_name_def digest_of_def fold_differences_eq)
  qed
next
  case (Some k)
  have "length (hmac_sha256 H (id_key k) pt) = 32" using assms by (simp add: hashes_32_def)
  then show ?thesis using Some
    by (auto simp: verify_name_def keying_verify_name_def digest_of_def decode_name_eq_Some
        split: option.split) (metis decode_name_eq_Some option.distinct(1))
qed

section \<open>Loops that do not return\<close>

lemma chunk_loop_stuck:
  assumes "\<And>xs. cutf xs = Inr 0" and "off < length data"
  shows "chunk_loop cutf nm data off cs = None"
proof (rule ccontr)
  assume "chunk_loop cutf nm data off cs \<noteq> None"
  then obtain r where r: "chunk_loop cutf nm data off cs = Some r" by auto
  have "\<not> ((\<forall>xs. cutf xs = Inr 0) \<and> off < length data)"
  proof (rule chunk_loop.raw_induct
      [where P = "\<lambda>cutf nm data off cs r. \<not> ((\<forall>xs. cutf xs = Inr 0) \<and> off < length data)", OF _ r])
    fix f :: "(bytes \<Rightarrow> panic + nat) \<Rightarrow> (bytes \<Rightarrow> string) \<Rightarrow> bytes \<Rightarrow> nat \<Rightarrow> Chunk list
      \<Rightarrow> (panic + Chunk list) option"
    fix cutf nm data off cs r
    assume IH: "\<And>cutf nm data off cs r. f cutf nm data off cs = Some r \<Longrightarrow>
        \<not> ((\<forall>xs. cutf xs = Inr 0) \<and> off < length data)"
      and eq: "(if off < length data then
          (case cutf (drop off data) of Inl p \<Rightarrow> Some (Inl p)
           | Inr n \<Rightarrow> f cutf nm data (off + n)
               (cs @ [mk_chunk nm (slice data off (min (off + n) (length data))) (word_of_nat off)]))
          else Some (Inr cs)) = Some r"
    show "\<not> ((\<forall>xs. cutf xs = Inr 0) \<and> off < length data)"
      using eq IH [of cutf nm data off _ r] by auto
  qed
  with assms show False by blast
qed

section \<open>Properties\<close>

text \<open>Hash functions for the witnesses: 32 bytes each, distinct enough to cut and to name.\<close>

definition demo_hashes :: hashes where
  "demo_hashes = \<lparr>blake3_keyed = (\<lambda>k m. take 32 (drop 10 m @ replicate 32 0)),
     sha256 = (\<lambda>m. take 32 (m @ replicate 32 0)),
     hmac_sha256 = (\<lambda>k m. take 32 (m @ k @ replicate 32 0))\<rparr>"

text \<open>C1: fed with the data in any segmentation, the stream chunker returns, and its chunks
  (boundaries, names, sizes and offsets) are exactly those of the batch engine on the
  concatenated data; keyed and unkeyed, for every configuration with
  \<open>0 < min_size <= max_size\<close>.\<close>

theorem stream_equals_batch:
  assumes "valid_config cfg"
  shows "(\<exists>t. feed_all H (stream_new H cfg) segs = Some (Inr t)
        \<and> chunk_data H (engine_new H cfg) (concat segs) = Some (Inr (finalize H t)))
    \<and> (\<exists>t. feed_all H (stream_new_keyed cfg k) segs = Some (Inr t)
        \<and> chunk_data H (engine_new_keyed cfg k) (concat segs) = Some (Inr (finalize H t)))"
  using assms
  by (intro conjI stream_like_batch)
    (simp_all add: stream_new_def engine_new_def stream_new_keyed_def engine_new_keyed_def)

definition demo_config :: ChunkConfig where
  "demo_config = \<lparr>min_size = 2, avg_size = 3, max_size = 4\<rparr>"

theorem stream_equals_batch_witness:
  "valid_config demo_config
   \<and> (\<exists>t. feed_all demo_hashes (stream_new demo_hashes demo_config) [[1, 2, 3], [], [4, 5, 6, 7]] = Some (Inr t)
        \<and> chunk_data demo_hashes (engine_new demo_hashes demo_config) [1, 2, 3, 4, 5, 6, 7]
          = Some (Inr (finalize demo_hashes t)))"
proof -
  have v: "valid_config demo_config" by (simp add: valid_config_def demo_config_def)
  from stream_equals_batch [OF v, of demo_hashes "[[1, 2, 3], [], [4, 5, 6, 7]]"] v show ?thesis
    by simp
qed

text \<open>C2: for a configuration with \<open>0 < min_size <= max_size\<close> the batch engine returns on any slice; its
  chunks reassemble to the input without a panic, each is named by the engine and records its own
  length and its offset (as a \<open>u64\<close>), none is empty or longer than \<open>max_size\<close>, and only the
  last may be shorter than \<open>min_size\<close>.\<close>

theorem chunk_data_lossless:
  assumes "valid_config (eng_config e)" and "length xs \<le> isize_max"
  shows "\<exists>cs. chunk_data H e xs = Some (Inr cs)
    \<and> reassemble_chunks cs = Inr xs
    \<and> (\<forall>c \<in> set cs. ck_hash c = engine_name H e (ck_data c) \<and> ck_size c = length (ck_data c)
        \<and> 0 < ck_size c \<and> ck_size c \<le> max_size (eng_config e))
    \<and> (\<forall>c \<in> set (butlast cs). min_size (eng_config e) \<le> ck_size c)
    \<and> (\<forall>i < length cs. ck_offset (cs ! i) = word_of_nat (sum_list (map ck_size (take i cs))))"
proof -
  let ?c = "(eng_gear e, eng_config e)"
  let ?ps = "pieces (cdc_bnd ?c) xs" and ?nm = "engine_name H e"
  let ?cs = "lay ?nm 0 ?ps"
  have ok: "cdc_ok ?c" using assms(1) by (simp add: cdc_ok_def)
  have dat: "map ck_data ?cs = ?ps" and siz: "map ck_size ?cs = map length ?ps" by simp_all
  have bl: "map ck_size (butlast ?cs) = map length (butlast ?ps)"
    by (metis map_butlast siz)
  have "sum_list (map ck_size ?cs) = length xs" and whole: "concat (map ck_data ?cs) = xs"
    using fastcdc.concat_pieces [OF ok, of xs] by (simp_all add: dat siz flip: length_concat)
  moreover from whole have "xs = []" if "?cs = []" using that by (metis concat.simps(1) list.map(1))
  ultimately have "reassemble_chunks ?cs = Inr xs"
    using whole assms(2) by (auto simp: reassemble_chunks_def usize_max_def isize_max_def Let_def)
  moreover have "ck_hash c = ?nm (ck_data c) \<and> ck_size c = length (ck_data c)
      \<and> 0 < ck_size c \<and> ck_size c \<le> max_size (eng_config e)" if "c \<in> set ?cs" for c
  proof -
    have "ck_data c \<in> set ?ps" using that dat by (metis image_eqI set_map)
    from fastcdc.pieces_sizes [OF ok this] lay_hash [OF that] show ?thesis by auto
  qed
  moreover have "min_size (eng_config e) \<le> ck_size c" if "c \<in> set (butlast ?cs)" for c
  proof -
    have "ck_size c \<in> set (map length (butlast ?ps))" using that bl by (metis image_eqI set_map)
    then show ?thesis using fastcdc.pieces_min [OF ok] by auto
  qed
  moreover have "ck_offset (?cs ! i) = word_of_nat (sum_list (map ck_size (take i ?cs)))"
    if "i < length ?cs" for i
  proof -
    have "i < length ?ps" using that dat by (metis length_map)
    moreover have "sum_list (map ck_size (take i ?cs)) = length (concat (take i ?ps))"
      by (metis length_concat siz take_map)
    ultimately show ?thesis by (simp add: lay_offset)
  qed
  ultimately show ?thesis using chunk_data_pieces [OF assms(1)] by blast
qed

theorem chunk_data_lossless_witness:
  "\<exists>cs. chunk_data demo_hashes (engine_new demo_hashes e1_keyed) [7, 8, 9] = Some (Inr cs)
    \<and> reassemble_chunks cs = Inr [7, 8, 9]"
proof -
  have "valid_config (eng_config (engine_new demo_hashes e1_keyed))"
    by (simp add: valid_config_def engine_new_def e1_keyed_def)
  from chunk_data_lossless [OF this, of "[7, 8, 9]" demo_hashes] show ?thesis by (auto simp: isize_max_def)
qed

text \<open>Sizes that are not those of the data can make the reassembly panic.\<close>

lemma forged_size_panics:
  "reassemble_chunks [\<lparr>ck_hash = h, ck_data = d, ck_size = 2 ^ 63, ck_offset = 0\<rparr>] = Inl CapacityOverflow"
  by (simp add: reassemble_chunks_def usize_max_def isize_max_def)

text \<open>the two-loop boundary search with its normalised masks finds the first position in
  \<open>[min, min max len)\<close> whose rolling fingerprint (of the bytes from \<open>min\<close> on) is zero under
  the mask of that position, strict below \<open>avg\<close> and loose from \<open>avg\<close> on, and cuts at
  \<open>min max len\<close> when there is none; it never panics when \<open>min <= max\<close>.\<close>

theorem fastcdc_boundary_spec:
  assumes "mn \<le> mx"
  shows "\<exists>n. fastcdc_boundary gear xs mn avg mx = Inr n
    \<and> (length xs \<le> mn \<longrightarrow> n = length xs)
    \<and> (mn < length xs \<longrightarrow> mn \<le> n \<and> n \<le> min mx (length xs)
        \<and> (\<forall>i. mn \<le> i \<and> i < n \<longrightarrow> \<not> hit gear xs mn avg i)
        \<and> (n < min mx (length xs) \<longrightarrow> hit gear xs mn avg n))"
proof -
  have "\<not> hit gear xs mn avg i"
    if "mn < length xs" "mn \<le> i" "i < first_hit gear xs mn avg mx" for i
    using that by (rule first_hit_first)
  moreover have "hit gear xs mn avg (first_hit gear xs mn avg mx)"
    if "mn < length xs" "first_hit gear xs mn avg mx < min mx (length xs)"
    using that by (auto simp: first_hit_def split: option.splits dest!: find_SomeD)
  ultimately show ?thesis
    using assms fastcdc_boundary_first_hit [OF assms, of gear xs avg]
      first_hit_bounds [of mn xs mx gear avg]
    by (auto simp: first_hit_def)
qed

theorem fastcdc_boundary_spec_witness:
  "\<exists>n. fastcdc_boundary (\<lambda>b. 2 ^ 62) [1, 2, 3, 4] 1 2 3 = Inr n \<and> 1 \<le> n \<and> n \<le> 3"
proof -
  have "(1 :: nat) \<le> 3" by simp
  from fastcdc_boundary_spec [OF this, of "\<lambda>b. 2 ^ 62" "[1, 2, 3, 4]" 2] show ?thesis by auto
qed

text \<open>a name verifies exactly when it is a hex rendering (either case) of the engine's
  32-byte digest of the plaintext, so every chunk the engine cuts verifies under it and
  \<open>verify_all\<close> accepts the whole list; the constant-time fold of byte differences decides
  equality.\<close>

theorem chunk_names_verify:
  assumes "hashes_32 H"
  shows "(verify_name H e nm pt \<longleftrightarrow> hex_decode nm = Some (digest_of H (eng_keying e) pt))
    \<and> (valid_config (eng_config e) \<longrightarrow>
        (\<exists>cs. chunk_data H e xs = Some (Inr cs) \<and> verify_all H e cs))"
proof -
  have "verify_chunk H e c" if "c \<in> set (lay (engine_name H e) 0 ps)" for c ps
    using lay_hash [OF that]
    by (simp add: verify_chunk_def verify_name_digest [OF assms] engine_name_def name_with_digest)
  then show ?thesis
    using verify_name_digest [OF assms] chunk_data_pieces
    by (fastforce simp: verify_all_def list_all_iff)
qed

theorem chunk_names_verify_witness:
  "\<exists>cs. chunk_data demo_hashes (engine_new demo_hashes demo_config) [1, 2, 3, 4, 5] = Some (Inr cs)
     \<and> verify_all demo_hashes (engine_new demo_hashes demo_config) cs"
proof -
  have "hashes_32 demo_hashes" by (auto simp: hashes_32_def demo_hashes_def min_def)
  from chunk_names_verify [OF this, of "engine_new demo_hashes demo_config"] show ?thesis
    by (simp add: valid_config_def engine_new_def demo_config_def)
qed

text \<open>C31: \<open>ChunkConfig::new(0, 0, 0)\<close> is accepted, and with it the batch engine never returns on
  any non-empty input: the boundary is 0 and the loop makes no progress.\<close>

theorem zero_config_never_returns:
  "config_new 0 0 0 = Inr \<lparr>min_size = 0, avg_size = 0, max_size = 0\<rparr>
   \<and> chunk_data H (engine_new H \<lparr>min_size = 0, avg_size = 0, max_size = 0\<rparr>) (x # xs) = None"
proof -
  let ?e = "engine_new H \<lparr>min_size = 0, avg_size = 0, max_size = 0\<rparr>"
  have "find_chunk_boundary ?e ys = Inr 0" for ys
    by (simp add: find_chunk_boundary_def engine_new_def fastcdc_boundary_first_hit first_hit_def)
  then have "chunk_data H ?e (x # xs) = None"
    unfolding chunk_data_def by (simp add: chunk_loop_stuck)
  then show ?thesis by (simp add: config_new_def)
qed

end
