(* ===== verification/Packing.thy ===== *)
theory Packing
  imports Vault_Error
begin

text \<open>
  \<open>vault-core/src/pack.rs\<close>: the geometric size ladder, padding, packing a batch of encrypted
  chunks into blobs, and slicing a chunk back out of a downloaded pack.

  The random generator and the shuffle come from the \<open>rand\<close> crate: they are the fields of
  the parameter \<open>rng_ops\<close>, over a generator state that every draw returns updated. A
  \<open>usize\<close> is 64 bits.
\<close>

record 'r rng_ops =
  fill_bytes :: "'r \<Rightarrow> nat \<Rightarrow> bytes \<times> 'r"
  shuffle :: "'r \<Rightarrow> (string \<times> bytes) list \<Rightarrow> (string \<times> bytes) list \<times> 'r"

section \<open>The size ladder\<close>

definition DEFAULT_TARGET_PACK_SIZE :: nat where
  "DEFAULT_TARGET_PACK_SIZE = 4 * 1024 * 1024"

definition PAD_LADDER_FLOOR :: nat where
  "PAD_LADDER_FLOOR = 256 * 1024"

record PadLadder =
  pl_floor :: nat
  growth_num :: nat
  growth_den :: nat

definition DEFAULT_LADDER :: PadLadder where
  "DEFAULT_LADDER = \<lparr>pl_floor = PAD_LADDER_FLOOR, growth_num = 5, growth_den = 4\<rparr>"

text \<open>One iteration: the product is computed in \<open>u128\<close>, where it cannot overflow, and clamped
  to \<open>usize::MAX\<close>; a ratio at or below one moves by one byte instead.\<close>

definition next_step :: "PadLadder \<Rightarrow> nat \<Rightarrow> nat" where
  "next_step l step =
     (let nxt = min (step * growth_num l div max (growth_den l) 1) usize_max
      in if step < nxt then nxt else step + 1)"

function step_loop :: "PadLadder \<Rightarrow> nat \<Rightarrow> nat \<Rightarrow> nat" where
  "step_loop l len step = (if step < len then step_loop l len (next_step l step) else step)"
  by pat_completeness auto
termination
  by (relation "measure (\<lambda>(l, len, step). len - step)") (auto simp: next_step_def Let_def)

declare step_loop.simps [simp del]

definition step_for :: "PadLadder \<Rightarrow> nat \<Rightarrow> nat" where
  "step_for l len = step_loop l len (max (pl_floor l) 1)"

definition pad_pack :: "'r rng_ops \<Rightarrow> PadLadder \<Rightarrow> bytes \<Rightarrow> 'r \<Rightarrow> bytes \<times> 'r" where
  "pad_pack R l bs r =
     (let content = length bs; step = step_for l content
      in if content < step
         then let (filler, r') = fill_bytes R r (step - content) in (bs @ filler, r')
         else (bs, r))"

section \<open>Packs\<close>

definition PACK_ID_HEX_LEN :: nat where
  "PACK_ID_HEX_LEN = 64"

record PackLocation =
  loc_pack_id :: string
  loc_offset :: u64
  loc_length :: u32

record BuiltPack =
  bp_id :: string
  bp_bytes :: bytes

definition pack_size :: "BuiltPack \<Rightarrow> nat" where
  "pack_size p = length (bp_bytes p)"

record PackSet =
  packs :: "BuiltPack list"
  index :: "(string \<times> PackLocation) list"

definition random_pack_id :: "'r rng_ops \<Rightarrow> 'r \<Rightarrow> string \<times> 'r" where
  "random_pack_id R r = (let (raw, r') = fill_bytes R r 32 in (hex_encode raw, r'))"

text \<open>The mutable variables of \<open>pack_chunks\<close>.\<close>

record 'r pack_state =
  ps_packs :: "BuiltPack list"
  ps_index :: "(string \<times> PackLocation) list"
  ps_seen :: "string set"
  cur_id :: "string option"
  cur_bytes :: bytes
  ps_rng :: 'r

text \<open>Sealing the open pack: pad it, give it its id, and leave no pack open.\<close>

definition seal_open_pack :: "'r rng_ops \<Rightarrow> 'r pack_state \<Rightarrow> panic + 'r pack_state" where
  "seal_open_pack R st =
     (let (bs, r') = pad_pack R DEFAULT_LADDER (cur_bytes st) (ps_rng st)
      in case cur_id st of
           None \<Rightarrow> Inl (ExpectFailed ''open pack has an id'')
         | Some pid \<Rightarrow> Inr (st\<lparr>ps_packs := ps_packs st @ [\<lparr>bp_id = pid, bp_bytes = bs\<rparr>],
                              cur_id := None, cur_bytes := [], ps_rng := r'\<rparr>))"

text \<open>Appending a blob to the open pack, opening a fresh one if none is open.\<close>

definition append_blob :: "'r rng_ops \<Rightarrow> string \<Rightarrow> bytes \<Rightarrow> 'r pack_state \<Rightarrow> 'r pack_state" where
  "append_blob R nm blob st =
     (let (pid, r') = (case cur_id st of Some p \<Rightarrow> (p, ps_rng st)
                                       | None \<Rightarrow> random_pack_id R (ps_rng st));
          loc = \<lparr>loc_pack_id = pid, loc_offset = word_of_nat (length (cur_bytes st)),
                 loc_length = word_of_nat (length blob)\<rparr>
      in st\<lparr>cur_id := Some pid, cur_bytes := cur_bytes st @ blob,
            ps_index := ps_index st @ [(nm, loc)], ps_rng := r'\<rparr>)"

definition pack_step ::
    "'r rng_ops \<Rightarrow> nat \<Rightarrow> 'r pack_state \<Rightarrow> string \<times> bytes \<Rightarrow> panic + 'r pack_state" where
  "pack_step R target st c =
     (let (nm, blob) = c in
      if nm \<in> ps_seen st then Inr st
      else let st1 = st\<lparr>ps_seen := insert nm (ps_seen st)\<rparr> in
        try_bind (if cur_bytes st1 \<noteq> [] \<and> target < length (cur_bytes st1) + length blob
                  then seal_open_pack R st1 else Inr st1)
          (\<lambda>st2. Inr (append_blob R nm blob st2)))"

fun pack_loop ::
    "'r rng_ops \<Rightarrow> nat \<Rightarrow> 'r pack_state \<Rightarrow> (string \<times> bytes) list \<Rightarrow> panic + 'r pack_state" where
  "pack_loop R target st [] = Inr st"
| "pack_loop R target st (c # cs) =
     try_bind (pack_step R target st c) (\<lambda>st'. pack_loop R target st' cs)"

definition flush_open_pack :: "'r rng_ops \<Rightarrow> 'r pack_state \<Rightarrow> 'r pack_state" where
  "flush_open_pack R st =
     (case cur_id st of
        None \<Rightarrow> st
      | Some pid \<Rightarrow>
          if cur_bytes st \<noteq> []
          then let (bs, r') = pad_pack R DEFAULT_LADDER (cur_bytes st) (ps_rng st)
               in st\<lparr>ps_packs := ps_packs st @ [\<lparr>bp_id = pid, bp_bytes = bs\<rparr>],
                     cur_id := None, ps_rng := r'\<rparr>
          else st\<lparr>cur_id := None\<rparr>)"

definition pack_init :: "'r \<Rightarrow> 'r pack_state" where
  "pack_init r = \<lparr>ps_packs = [], ps_index = [], ps_seen = {}, cur_id = None, cur_bytes = [], ps_rng = r\<rparr>"

definition pack_chunks ::
    "'r rng_ops \<Rightarrow> (string \<times> bytes) list \<Rightarrow> nat \<Rightarrow> 'r \<Rightarrow> panic + PackSet \<times> 'r" where
  "pack_chunks R chunks target_pack_size r =
     (let target = max target_pack_size 1;
          (shuffled, r1) = shuffle R r chunks
      in try_bind (pack_loop R target (pack_init r1) shuffled)
           (\<lambda>st. let st' = flush_open_pack R st
                 in Inr (\<lparr>packs = ps_packs st', index = ps_index st'\<rparr>, ps_rng st')))"

section \<open>Reading back\<close>

definition slice_chunk :: "bytes \<Rightarrow> PackLocation \<Rightarrow> bytes VaultResult" where
  "slice_chunk pack_bytes loc =
     (if usize_max < unat (loc_offset loc)
      then Inl (Decryption (PackOffsetOverflows (loc_offset loc)))
      else let start = unat (loc_offset loc); stop = start + unat (loc_length loc) in
        if usize_max < stop
        then Inl (Decryption (PackEndOverflows (loc_offset loc) (loc_length loc)))
        else if length pack_bytes < stop
        then Inl (Decryption (PackSliceOutOfBounds start stop (length pack_bytes) (loc_pack_id loc)))
        else Inr (slice pack_bytes start stop))"

end
