(* ===== verification/Packing_Laws.thy ===== *)
theory Packing_Laws
  imports Packing "HOL-Library.Multiset"
begin

text \<open>
  Correctness of packing: the ladder is a closure operator with bounded overhead, packing
  never panics, every indexed chunk is found again by \<open>slice_chunk\<close> in a pack of its id, and
  the size of a stored pack is a ladder step of what it holds.
\<close>

section \<open>The ladder\<close>

lemma next_step_greater: "step < next_step l step"
  by (simp add: next_step_def Let_def)

lemma step_loop_ge: "len \<le> step_loop l len step \<and> step \<le> step_loop l len step"
proof (induction l len step rule: step_loop.induct)
  case (1 l len step)
  then show ?case
    using next_step_greater [of step l] by (subst (1 2) step_loop.simps) auto
qed

lemma step_loop_base: "len \<le> step \<Longrightarrow> step_loop l len step = step"
  by (subst step_loop.simps) simp

text \<open>Every step is reached from the start by \<open>next_step\<close>, and the loop finds the least one.\<close>

lemma step_loop_least:
  "step \<le> s \<Longrightarrow> len \<le> s \<Longrightarrow> step_loop l s step = s \<Longrightarrow> step_loop l len step \<le> s"
proof (induction l len step rule: step_loop.induct)
  case (1 l len step)
  show ?case
  proof (cases "step < len")
    case False
    then show ?thesis using "1.prems" by (simp add: step_loop_base)
  next
    case True
    then have "step < s" using "1.prems" by simp
    then have eq: "step_loop l s (next_step l step) = s"
      using "1.prems"(3) by (subst (asm) step_loop.simps) simp
    then have "next_step l step \<le> s" using step_loop_ge [of s l "next_step l step"] by metis
    then have "step_loop l len (next_step l step) \<le> s" using "1.IH" True "1.prems" eq by blast
    then show ?thesis using True by (subst step_loop.simps) simp
  qed
qed

lemma step_loop_idem: "step_loop l (step_loop l len step) step = step_loop l len step"
proof (induction l len step rule: step_loop.induct)
  case (1 l len step)
  show ?case
  proof (cases "step < len")
    case False
    then show ?thesis by (simp add: step_loop_base)
  next
    case True
    let ?n = "next_step l step"
    have e: "step_loop l len step = step_loop l len ?n"
      using True by (subst step_loop.simps) simp
    have "step < step_loop l len ?n"
      using step_loop_ge [of len l ?n] next_step_greater [of step l] by linarith
    then have "step_loop l (step_loop l len ?n) step = step_loop l (step_loop l len ?n) ?n"
      by (subst step_loop.simps) simp
    with "1.IH" [OF True] e show ?thesis by simp
  qed
qed

lemma step_for_ge: "len \<le> step_for l len"
  using step_loop_ge by (simp add: step_for_def)

lemma step_for_floor: "max (pl_floor l) 1 \<le> step_for l len"
  using step_loop_ge by (simp add: step_for_def)

lemma step_for_idem: "step_for l (step_for l len) = step_for l len"
  by (simp add: step_for_def step_loop_idem)

lemma step_for_least: "step_for l s = s \<Longrightarrow> len \<le> s \<Longrightarrow> step_for l len \<le> s"
  unfolding step_for_def
  by (rule step_loop_least) (use step_for_floor [of l s] in \<open>auto simp: step_for_def\<close>)

lemma step_for_mono: "len \<le> len' \<Longrightarrow> step_for l len \<le> step_for l len'"
  by (rule step_for_least [OF step_for_idem]) (rule order_trans [OF _ step_for_ge])

text \<open>Overhead: the loop's last step came from one below the content.\<close>

lemma next_step_overhead:
  assumes "growth_num l = 5" "growth_den l = 4" "4 \<le> step" "step < usize_max"
  shows "4 * next_step l step \<le> 5 * step"
  using assms by (auto simp: next_step_def Let_def min_def)

lemma step_loop_overhead:
  "growth_num l = 5 \<Longrightarrow> growth_den l = 4 \<Longrightarrow> 4 \<le> step \<Longrightarrow> step < len \<Longrightarrow> len \<le> usize_max
   \<Longrightarrow> 4 * step_loop l len step < 5 * len"
proof (induction l len step rule: step_loop.induct)
  case (1 l len step)
  let ?n = "next_step l step"
  have n: "4 * ?n \<le> 5 * step" "step < ?n"
    using "1.prems" next_step_overhead [of l step] next_step_greater [of step l] by auto
  have e: "step_loop l len step = step_loop l len ?n"
    using "1.prems" by (subst step_loop.simps) simp
  show ?case
  proof (cases "?n < len")
    case True
    then show ?thesis using "1.IH" "1.prems" n e by simp
  next
    case False
    then show ?thesis using n e "1.prems" by (simp add: step_loop_base)
  qed
qed

lemma default_overhead:
  "PAD_LADDER_FLOOR < len \<Longrightarrow> len \<le> usize_max \<Longrightarrow> 4 * step_for DEFAULT_LADDER len < 5 * len"
  unfolding step_for_def
  by (rule step_loop_overhead) (simp_all add: DEFAULT_LADDER_def PAD_LADDER_FLOOR_def)

lemma default_floor: "len \<le> PAD_LADDER_FLOOR \<Longrightarrow> step_for DEFAULT_LADDER len = PAD_LADDER_FLOOR"
  by (simp add: step_for_def DEFAULT_LADDER_def PAD_LADDER_FLOOR_def step_loop_base)

section \<open>The random generator\<close>

definition rng_ok :: "'r rng_ops \<Rightarrow> bool" where
  "rng_ok R \<longleftrightarrow> (\<forall>r n. length (fst (fill_bytes R r n)) = n)
     \<and> (\<forall>r xs. mset (fst (shuffle R r xs)) = mset xs)"

lemma pad_pack_extends:
  assumes "rng_ok R" and "pad_pack R l bs r = (out, r')"
  shows "\<exists>filler. out = bs @ filler" and "length out = step_for l (length bs)"
proof -
  obtain filler r1 where f: "fill_bytes R r (step_for l (length bs) - length bs) = (filler, r1)"
    by fastforce
  then have len: "length filler = step_for l (length bs) - length bs"
    using assms(1) by (metis fst_conv rng_ok_def)
  have out: "out = (if length bs < step_for l (length bs) then bs @ filler else bs)"
    using assms(2) f by (simp add: pad_pack_def Let_def split: if_splits)
  then show "\<exists>filler. out = bs @ filler" by auto
  show "length out = step_for l (length bs)"
    using out len step_for_ge [of "length bs" l] by auto
qed

section \<open>The packing invariant\<close>

text \<open>Where a location points: at a blob inside a finished pack, or inside the open one.\<close>

definition holds_blob :: "bytes \<Rightarrow> PackLocation \<Rightarrow> bytes \<Rightarrow> bool" where
  "holds_blob bs loc blob \<longleftrightarrow>
     unat (loc_length loc) = length blob
     \<and> unat (loc_offset loc) + length blob \<le> length bs
     \<and> unat (loc_offset loc) + length blob \<le> usize_max
     \<and> slice bs (unat (loc_offset loc)) (unat (loc_offset loc) + length blob) = blob"

definition located :: "'r pack_state \<Rightarrow> PackLocation \<Rightarrow> bytes \<Rightarrow> bool" where
  "located st loc blob \<longleftrightarrow>
     (\<exists>p \<in> set (ps_packs st). bp_id p = loc_pack_id loc \<and> holds_blob (bp_bytes p) loc blob)
     \<or> cur_id st = Some (loc_pack_id loc) \<and> holds_blob (cur_bytes st) loc blob"

definition pack_fits :: "nat \<Rightarrow> (string \<times> bytes) list \<Rightarrow> nat \<Rightarrow> bool" where
  "pack_fits target cs content \<longleftrightarrow> content \<le> target \<or> (\<exists>c \<in> set cs. content = length (snd c))"

definition index_inv :: "'r pack_state \<Rightarrow> (string \<times> bytes) list \<Rightarrow> bool" where
  "index_inv st cs \<longleftrightarrow>
     ps_seen st = fst ` set cs
     \<and> distinct (map fst (ps_index st)) \<and> fst ` set (ps_index st) = fst ` set cs
     \<and> (\<forall>e \<in> set (ps_index st). \<exists>blob. (fst e, blob) \<in> set cs \<and> located st (snd e) blob)"

definition open_inv :: "nat \<Rightarrow> 'r pack_state \<Rightarrow> (string \<times> bytes) list \<Rightarrow> bool" where
  "open_inv target st cs \<longleftrightarrow>
     (cur_bytes st \<noteq> [] \<longrightarrow> cur_id st \<noteq> None)
     \<and> length (cur_bytes st) \<le> sum_list (map (length \<circ> snd) cs)
     \<and> pack_fits target cs (length (cur_bytes st))"

definition sizes_inv :: "nat \<Rightarrow> BuiltPack list \<Rightarrow> (string \<times> bytes) list \<Rightarrow> bool" where
  "sizes_inv target ps cs \<longleftrightarrow>
     (\<forall>p \<in> set ps. \<exists>n. 0 < n \<and> pack_fits target cs n
        \<and> pack_size p = step_for DEFAULT_LADDER n)"

definition pack_inv :: "nat \<Rightarrow> 'r pack_state \<Rightarrow> (string \<times> bytes) list \<Rightarrow> bool" where
  "pack_inv target st cs \<longleftrightarrow>
     index_inv st cs \<and> open_inv target st cs \<and> sizes_inv target (ps_packs st) cs"

lemma holds_blob_append: "holds_blob bs loc blob \<Longrightarrow> holds_blob (bs @ ys) loc blob"
  by (simp add: holds_blob_def slice_append_left)

lemma pack_fits_0 [simp]: "pack_fits target cs 0"
  by (simp add: pack_fits_def)

lemma pack_fits_snoc: "pack_fits target cs n \<Longrightarrow> pack_fits target (cs @ [c]) n"
  by (auto simp: pack_fits_def)

lemma sizes_inv_snoc: "sizes_inv target ps cs \<Longrightarrow> sizes_inv target ps (cs @ [c])"
  unfolding sizes_inv_def using pack_fits_snoc by blast

lemma index_inv_cong:
  assumes "index_inv st cs" and "ps_seen st' = ps_seen st" "ps_index st' = ps_index st"
    and "\<And>loc blob. located st loc blob \<Longrightarrow> located st' loc blob"
  shows "index_inv st' cs"
  using assms unfolding index_inv_def by metis

lemma pack_inv_init: "pack_inv target (pack_init r) []"
  by (simp add: pack_inv_def index_inv_def open_inv_def sizes_inv_def pack_init_def)

text \<open>Finishing the open pack, at a seal or at the end.\<close>

lemma finish_pack_inv:
  assumes "rng_ok R" and "pack_inv target st cs" and "cur_bytes st \<noteq> []"
    and "cur_id st = Some pid" and "pad_pack R DEFAULT_LADDER (cur_bytes st) (ps_rng st) = (out, r')"
    and "st' = st\<lparr>ps_packs := ps_packs st @ [\<lparr>bp_id = pid, bp_bytes = out\<rparr>],
      cur_id := None, cur_bytes := bs, ps_rng := r''\<rparr>"
  shows "index_inv st' cs \<and> sizes_inv target (ps_packs st') cs"
proof
  from pad_pack_extends [OF assms(1,5)] obtain filler where
    out: "out = cur_bytes st @ filler" "length out = step_for DEFAULT_LADDER (length (cur_bytes st))"
    by blast
  have loc: "located st' loc blob" if l: "located st loc blob" for loc blob
  proof (cases "cur_id st = Some (loc_pack_id loc) \<and> holds_blob (cur_bytes st) loc blob")
    case True
    then have "loc_pack_id loc = pid" "holds_blob out loc blob"
      using assms(4) out(1) by (simp_all add: holds_blob_append)
    then show ?thesis by (simp add: located_def assms(6))
  next
    case False
    with l obtain p where "p \<in> set (ps_packs st)" "bp_id p = loc_pack_id loc"
      "holds_blob (bp_bytes p) loc blob" unfolding located_def by blast
    then show ?thesis unfolding located_def assms(6) by auto
  qed
  show "index_inv st' cs"
    by (rule index_inv_cong [OF _ _ _ loc]) (use assms(2) in \<open>simp_all add: pack_inv_def assms(6)\<close>)
  have "sizes_inv target [\<lparr>bp_id = pid, bp_bytes = out\<rparr>] cs"
    unfolding sizes_inv_def using assms(2,3) out(2)
    by (intro ballI exI [of _ "length (cur_bytes st)"])
      (simp add: pack_inv_def open_inv_def pack_size_def)
  moreover have "sizes_inv target (ps_packs st) cs" using assms(2) by (simp add: pack_inv_def)
  ultimately show "sizes_inv target (ps_packs st') cs"
    by (simp add: assms(6) sizes_inv_def)
qed

lemma seal_open_pack_inv:
  assumes "rng_ok R" and "pack_inv target st cs" and "cur_bytes st \<noteq> []"
  shows "\<exists>st'. seal_open_pack R st = Inr st' \<and> pack_inv target st' cs \<and> cur_bytes st' = []
    \<and> ps_seen st' = ps_seen st"
proof -
  obtain out r' where pad: "pad_pack R DEFAULT_LADDER (cur_bytes st) (ps_rng st) = (out, r')" by fastforce
  from assms obtain pid where pid: "cur_id st = Some pid" by (auto simp: pack_inv_def open_inv_def)
  let ?st = "st\<lparr>ps_packs := ps_packs st @ [\<lparr>bp_id = pid, bp_bytes = out\<rparr>], cur_id := None,
      cur_bytes := [], ps_rng := r'\<rparr>"
  have "seal_open_pack R st = Inr ?st" using pad pid by (simp add: seal_open_pack_def)
  moreover have "pack_inv target ?st cs"
    using finish_pack_inv [OF assms pid pad refl] by (simp add: pack_inv_def open_inv_def)
  ultimately show ?thesis by auto
qed

lemma append_blob_inv:
  assumes st: "st = base\<lparr>ps_seen := insert nm (ps_seen base)\<rparr>" and inv: "pack_inv target base cs"
    and new: "nm \<notin> ps_seen base"
    and room: "cur_bytes st = [] \<or> length (cur_bytes st) + length blob \<le> target"
    and small: "length blob < 2 ^ 32" "sum_list (map (length \<circ> snd) cs) + length blob < 2 ^ 64"
  shows "pack_inv target (append_blob R nm blob st) (cs @ [(nm, blob)])"
proof -
  obtain pid r' where pid: "(case cur_id st of Some p \<Rightarrow> (p, ps_rng st)
      | None \<Rightarrow> random_pack_id R (ps_rng st)) = (pid, r')" by fastforce
  define loc where "loc = \<lparr>loc_pack_id = pid, loc_offset = word_of_nat (length (cur_bytes st)),
      loc_length = word_of_nat (length blob)\<rparr>"
  define st' where "st' = append_blob R nm blob st"
  have st': "st' = st\<lparr>cur_id := Some pid, cur_bytes := cur_bytes st @ blob,
      ps_index := ps_index st @ [(nm, loc)], ps_rng := r'\<rparr>"
    using pid by (simp add: st'_def append_blob_def loc_def)
  have idx: "index_inv base cs" and opn: "open_inv target base cs"
    and siz: "sizes_inv target (ps_packs base) cs" using inv by (auto simp: pack_inv_def)
  have cur: "length (cur_bytes st) + length blob < 2 ^ 64" using opn small(2) st by (simp add: open_inv_def)
  have here: "located st' loc blob"
    using cur small(1)
    by (simp add: located_def st' loc_def holds_blob_def slice_def unat_of_nat usize_max_def)
  have same: "cur_id st = Some p \<Longrightarrow> p = pid" for p using pid by simp
  have keep: "located st' l b" if "located base l b" for l b
    using that holds_blob_append [of "cur_bytes st" l b blob] same
    by (auto simp: located_def st' st)
  have "index_inv st' (cs @ [(nm, blob)])"
    unfolding index_inv_def
  proof (intro conjI ballI)
    show "ps_seen st' = fst ` set (cs @ [(nm, blob)])" using idx st by (simp add: st' index_inv_def)
    show "distinct (map fst (ps_index st'))" using idx st new by (simp add: st' index_inv_def)
    show "fst ` set (ps_index st') = fst ` set (cs @ [(nm, blob)])"
      using idx st by (simp add: st' index_inv_def)
    fix e assume "e \<in> set (ps_index st')"
    then consider "e \<in> set (ps_index base)" | "e = (nm, loc)" using st by (auto simp: st')
    then show "\<exists>b. (fst e, b) \<in> set (cs @ [(nm, blob)]) \<and> located st' (snd e) b"
    proof cases
      case 1
      then obtain b where "(fst e, b) \<in> set cs" "located base (snd e) b"
        using idx unfolding index_inv_def by blast
      then show ?thesis using keep by auto
    next
      case 2
      then show ?thesis using here by auto
    qed
  qed
  moreover have "open_inv target st' (cs @ [(nm, blob)])"
    using opn room st by (auto simp: open_inv_def st' pack_fits_def)
  moreover have "sizes_inv target (ps_packs st') (cs @ [(nm, blob)])"
    using siz st by (simp add: st' sizes_inv_snoc)
  ultimately show ?thesis by (simp add: pack_inv_def st'_def)
qed

section \<open>The whole batch\<close>

definition batch_ok :: "(string \<times> bytes) list \<Rightarrow> bool" where
  "batch_ok cs \<longleftrightarrow> (\<forall>c \<in> set cs. length (snd c) < 2 ^ 32)
     \<and> sum_list (map (length \<circ> snd) cs) < 2 ^ 64"

lemma pack_inv_dup:
  assumes "pack_inv target st cs" and "nm \<in> ps_seen st"
  shows "pack_inv target st (cs @ [(nm, blob)])"
proof -
  have "index_inv st (cs @ [(nm, blob)])"
    using assms unfolding pack_inv_def index_inv_def by auto
  moreover have "open_inv target st (cs @ [(nm, blob)])"
    using assms by (auto simp: pack_inv_def open_inv_def pack_fits_snoc)
  ultimately show ?thesis using assms by (simp add: pack_inv_def sizes_inv_snoc)
qed

lemma pack_step_inv:
  assumes "rng_ok R" and inv: "pack_inv target st cs"
    and small: "length (snd c) < 2 ^ 32" "sum_list (map (length \<circ> snd) (cs @ [c])) < 2 ^ 64"
  shows "\<exists>st'. pack_step R target st c = Inr st' \<and> pack_inv target st' (cs @ [c])"
proof -
  obtain nm blob where c: "c = (nm, blob)" by fastforce
  show ?thesis
  proof (cases "nm \<in> ps_seen st")
    case True
    then show ?thesis using pack_inv_dup [OF inv True] by (simp add: pack_step_def c)
  next
    case new: False
    let ?st1 = "st\<lparr>ps_seen := insert nm (ps_seen st)\<rparr>"
    show ?thesis
    proof (cases "cur_bytes st \<noteq> [] \<and> target < length (cur_bytes st) + length blob")
      case False
      then have "pack_inv target (append_blob R nm blob ?st1) (cs @ [(nm, blob)])"
        using small by (intro append_blob_inv [OF refl inv new]) (auto simp: c)
      then show ?thesis using new False by (auto simp: pack_step_def c Let_def)
    next
      case True
      with seal_open_pack_inv [OF assms(1) inv] obtain s where
        s: "seal_open_pack R st = Inr s" "pack_inv target s cs" "cur_bytes s = []"
          "ps_seen s = ps_seen st" by blast
      have "seal_open_pack R ?st1 = Inr (s\<lparr>ps_seen := insert nm (ps_seen st)\<rparr>)"
        using s(1) by (auto simp: seal_open_pack_def split: prod.splits option.splits)
      moreover have "pack_inv target (append_blob R nm blob (s\<lparr>ps_seen := insert nm (ps_seen st)\<rparr>))
          (cs @ [(nm, blob)])"
        using small new s by (intro append_blob_inv [OF _ s(2)]) (auto simp: c)
      ultimately show ?thesis using new True by (auto simp: pack_step_def c Let_def)
    qed
  qed
qed

lemma pack_loop_inv:
  "rng_ok R \<Longrightarrow> pack_inv target st cs \<Longrightarrow> batch_ok (cs @ ds) \<Longrightarrow>
   \<exists>st'. pack_loop R target st ds = Inr st' \<and> pack_inv target st' (cs @ ds)"
proof (induction ds arbitrary: st cs)
  case Nil
  then show ?case by simp
next
  case (Cons d ds)
  have "length (snd d) < 2 ^ 32" "sum_list (map (length \<circ> snd) (cs @ [d])) < 2 ^ 64"
    using Cons.prems(3) by (auto simp: batch_ok_def)
  from pack_step_inv [OF Cons.prems(1,2) this] obtain st' where
    st': "pack_step R target st d = Inr st'" "pack_inv target st' (cs @ [d])" by blast
  from Cons.IH [OF Cons.prems(1) st'(2)] Cons.prems(3) st'(1) show ?case by simp
qed

lemma flush_open_pack_inv:
  assumes "rng_ok R" and inv: "pack_inv target st cs" and ne: "\<forall>c \<in> set cs. snd c \<noteq> []"
  shows "index_inv (flush_open_pack R st) cs \<and> sizes_inv target (ps_packs (flush_open_pack R st)) cs
    \<and> cur_id (flush_open_pack R st) = None"
proof (cases "cur_id st")
  case None
  then show ?thesis using inv by (simp add: flush_open_pack_def pack_inv_def)
next
  case (Some pid)
  show ?thesis
  proof (cases "cur_bytes st = []")
    case False
    obtain out r' where pad: "pad_pack R DEFAULT_LADDER (cur_bytes st) (ps_rng st) = (out, r')"
      by fastforce
    let ?st = "st\<lparr>ps_packs := ps_packs st @ [\<lparr>bp_id = pid, bp_bytes = out\<rparr>], cur_id := None, ps_rng := r'\<rparr>"
    have "?st = st\<lparr>ps_packs := ps_packs st @ [\<lparr>bp_id = pid, bp_bytes = out\<rparr>], cur_id := None,
        cur_bytes := cur_bytes st, ps_rng := r'\<rparr>" by simp
    from finish_pack_inv [OF assms(1) inv False Some pad this] show ?thesis
      using Some False pad by (simp add: flush_open_pack_def)
  next
    case True
    let ?st = "st\<lparr>cur_id := None\<rparr>"
    have idx: "index_inv st cs" using inv by (simp add: pack_inv_def)
    have "index_inv ?st cs"
      unfolding index_inv_def
    proof (intro conjI ballI)
      fix e assume "e \<in> set (ps_index ?st)"
      then obtain b where b: "(fst e, b) \<in> set cs" "located st (snd e) b"
        using idx unfolding index_inv_def by auto
      with ne have "b \<noteq> []" by fastforce
      with b(2) True have "located ?st (snd e) b" by (auto simp: located_def holds_blob_def)
      with b(1) show "\<exists>b. (fst e, b) \<in> set cs \<and> located ?st (snd e) b" by blast
    qed (use idx in \<open>simp_all add: index_inv_def\<close>)
    then show ?thesis using Some True inv by (simp add: flush_open_pack_def pack_inv_def)
  qed
qed

lemma slice_chunk_holds: "holds_blob bs loc blob \<Longrightarrow> slice_chunk bs loc = Inr blob"
  by (auto simp: slice_chunk_def holds_blob_def Let_def)

lemma pack_chunks_inv:
  assumes "rng_ok R" and "batch_ok chunks"
  obtains st r1 sh where "shuffle R r chunks = (sh, r1)" and "mset sh = mset chunks"
    and "pack_loop R (max target 1) (pack_init r1) sh = Inr st"
    and "pack_inv (max target 1) st sh"
    and "pack_chunks R chunks target r = Inr (\<lparr>packs = ps_packs (flush_open_pack R st),
       index = ps_index (flush_open_pack R st)\<rparr>, ps_rng (flush_open_pack R st))"
proof -
  obtain sh r1 where sh: "shuffle R r chunks = (sh, r1)" by fastforce
  then have m: "mset sh = mset chunks" using assms(1) by (metis fst_conv rng_ok_def)
  have "sum_list (map (length \<circ> snd) sh) = sum_list (map (length \<circ> snd) chunks)"
    using m by (metis mset_map sum_mset_sum_list)
  then have "batch_ok ([] @ sh)"
    using assms(2) mset_eq_setD [OF m] by (simp add: batch_ok_def)
  from pack_loop_inv [OF assms(1) pack_inv_init this] obtain st where
    "pack_loop R (max target 1) (pack_init r1) sh = Inr st" "pack_inv (max target 1) st sh" by auto
  with sh m that show thesis by (simp add: pack_chunks_def Let_def)
qed

lemma packed_chunks_slice:
  assumes "rng_ok R" and "batch_ok chunks" and "\<forall>c \<in> set chunks. snd c \<noteq> []"
  shows "\<exists>out r'. pack_chunks R chunks target r = Inr (out, r')
    \<and> distinct (map fst (index out)) \<and> fst ` set (index out) = fst ` set chunks
    \<and> (\<forall>e \<in> set (index out). \<exists>p \<in> set (packs out). \<exists>blob. (fst e, blob) \<in> set chunks
          \<and> bp_id p = loc_pack_id (snd e) \<and> slice_chunk (bp_bytes p) (snd e) = Inr blob)"
proof -
  obtain st r1 sh where sh: "mset sh = mset chunks" and inv: "pack_inv (max target 1) st sh"
    and res: "pack_chunks R chunks target r = Inr (\<lparr>packs = ps_packs (flush_open_pack R st),
       index = ps_index (flush_open_pack R st)\<rparr>, ps_rng (flush_open_pack R st))"
    using pack_chunks_inv [OF assms(1,2)] by metis
  have sets: "set sh = set chunks" using sh by (rule mset_eq_setD)
  let ?f = "flush_open_pack R st"
  have idx: "index_inv ?f sh" and none: "cur_id ?f = None"
    using flush_open_pack_inv [OF assms(1) inv] assms(3) sets by auto
  have "\<exists>p \<in> set (ps_packs ?f). \<exists>blob. (fst e, blob) \<in> set chunks
      \<and> bp_id p = loc_pack_id (snd e) \<and> slice_chunk (bp_bytes p) (snd e) = Inr blob"
    if e: "e \<in> set (ps_index ?f)" for e
  proof -
    from idx e sets obtain b where b: "(fst e, b) \<in> set chunks" "located ?f (snd e) b"
      unfolding index_inv_def by blast
    with none show ?thesis unfolding located_def by (auto dest: slice_chunk_holds)
  qed
  then show ?thesis using res idx sets by (auto simp: index_inv_def)
qed

section \<open>Properties\<close>

text \<open>C8: packing a batch of non-empty blobs (each under 4 GiB, 2^64 bytes together) never
  panics; the index names every chunk of the batch exactly once, and each entry points into
  a produced pack of that id from which \<open>slice_chunk\<close> recovers a blob of that name, byte for
  byte, whatever the shuffle, the ids and the filler.\<close>

theorem pack_then_slice:
  assumes "rng_ok R" and "batch_ok chunks" and "\<forall>c \<in> set chunks. snd c \<noteq> []"
  shows "\<exists>out r'. pack_chunks R chunks target r = Inr (out, r')
    \<and> distinct (map fst (index out)) \<and> fst ` set (index out) = fst ` set chunks
    \<and> (\<forall>e \<in> set (index out). \<exists>p \<in> set (packs out). \<exists>blob. (fst e, blob) \<in> set chunks
          \<and> bp_id p = loc_pack_id (snd e) \<and> slice_chunk (bp_bytes p) (snd e) = Inr blob)"
  using assms by (rule packed_chunks_slice)

text \<open>whatever the batch, every produced pack is exactly as long as the ladder step of its
  content, and the content is non-empty and either within the target or one blob that alone
  exceeds it.\<close>

theorem pack_sizes_on_ladder:
  assumes "rng_ok R" and "batch_ok chunks" and "\<forall>c \<in> set chunks. snd c \<noteq> []"
  shows "\<exists>out r'. pack_chunks R chunks target r = Inr (out, r')
    \<and> (\<forall>p \<in> set (packs out). \<exists>n. 0 < n \<and> pack_size p = step_for DEFAULT_LADDER n
          \<and> (n \<le> max target 1 \<or> (\<exists>c \<in> set chunks. n = length (snd c))))"
proof -
  obtain st r1 sh where sh: "mset sh = mset chunks" and inv: "pack_inv (max target 1) st sh"
    and res: "pack_chunks R chunks target r = Inr (\<lparr>packs = ps_packs (flush_open_pack R st),
       index = ps_index (flush_open_pack R st)\<rparr>, ps_rng (flush_open_pack R st))"
    using pack_chunks_inv [OF assms(1,2)] by metis
  have sets: "set sh = set chunks" using sh by (rule mset_eq_setD)
  have "sizes_inv (max target 1) (ps_packs (flush_open_pack R st)) sh"
    using flush_open_pack_inv [OF assms(1) inv] assms(3) sets by auto
  then have "\<exists>n. 0 < n \<and> pack_size p = step_for DEFAULT_LADDER n
      \<and> (n \<le> max target 1 \<or> (\<exists>c \<in> set chunks. n = length (snd c)))"
    if "p \<in> set (ps_packs (flush_open_pack R st))" for p
    using that sets unfolding sizes_inv_def pack_fits_def by metis
  then show ?thesis using res by auto
qed

text \<open>the ladder is a closure on sizes: the step is at or above the content and the floor,
  it is monotone in the content, padding a padded size changes nothing, and no ladder step
  between the content and its step is skipped.\<close>

theorem ladder_closure:
  "len \<le> step_for l len \<and> max (pl_floor l) 1 \<le> step_for l len
   \<and> step_for l (step_for l len) = step_for l len
   \<and> (len \<le> len' \<longrightarrow> step_for l len \<le> step_for l len')
   \<and> (step_for l s = s \<and> len \<le> s \<longrightarrow> step_for l len \<le> s)"
  using step_for_ge step_for_floor step_for_idem step_for_mono step_for_least by blast

text \<open>on the production ladder every content up to 256 KiB is stored as exactly 256 KiB, and
  above that the stored size is less than 5/4 of the content.\<close>

theorem default_ladder_overhead:
  "(len \<le> 262144 \<longrightarrow> step_for DEFAULT_LADDER len = 262144)
   \<and> (262144 < len \<and> len \<le> usize_max \<longrightarrow> 4 * step_for DEFAULT_LADDER len < 5 * len)"
  using default_floor [of len] default_overhead [of len] by (simp add: PAD_LADDER_FLOOR_def)

text \<open>slicing is total and exact: it returns the \<open>length\<close> bytes at \<open>offset\<close> when they lie
  inside the pack and a decryption error in every other case.\<close>

theorem slice_chunk_exact:
  assumes "length pack_bytes \<le> usize_max"
  shows "((\<exists>m. slice_chunk pack_bytes loc = Inl (Decryption m))
      \<longleftrightarrow> length pack_bytes < unat (loc_offset loc) + unat (loc_length loc))
    \<and> (\<forall>out. slice_chunk pack_bytes loc = Inr out \<longrightarrow> length out = unat (loc_length loc)
        \<and> out = take (unat (loc_length loc)) (drop (unat (loc_offset loc)) pack_bytes))"
  using assms by (auto simp: slice_chunk_def slice_def Let_def)

theorem slice_chunk_exact_witness:
  "slice_chunk [1, 2, 3] \<lparr>loc_pack_id = ''p'', loc_offset = 1, loc_length = 2\<rparr> = Inr [2, 3]
   \<and> (\<exists>m. slice_chunk [1, 2, 3] \<lparr>loc_pack_id = ''p'', loc_offset = 1, loc_length = 3\<rparr> = Inl (Decryption m))"
proof
  have h: "length [1, 2, 3 :: u8] \<le> usize_max" by (simp add: usize_max_def)
  show "slice_chunk [1, 2, 3] \<lparr>loc_pack_id = ''p'', loc_offset = 1, loc_length = 2\<rparr> = Inr [2, 3]"
    by (simp add: slice_chunk_def slice_def usize_max_def)
  show "\<exists>m. slice_chunk [1, 2, 3] \<lparr>loc_pack_id = ''p'', loc_offset = 1, loc_length = 3\<rparr> = Inl (Decryption m)"
    using conjunct1 [OF slice_chunk_exact [OF h]] by simp
qed

text \<open>A batch whose only chunk is an empty blob yields an index entry and no pack at all,
  so that entry resolves into no pack: the index promise of \<open>PackSet\<close> needs non-empty
  blobs.\<close>

lemma empty_blob_dangles:
  assumes "rng_ok R"
  shows "\<exists>out r'. pack_chunks R [(nm, [])] target r = Inr (out, r')
    \<and> map fst (index out) = [nm] \<and> packs out = []"
proof -
  obtain sh r1 where sh: "shuffle R r [(nm, [])] = (sh, r1)" by fastforce
  then have "mset sh = {#(nm, [])#}" using assms by (metis fst_conv mset.simps rng_ok_def)
  then have "sh = [(nm, [])]" by simp
  then show ?thesis
    using sh
    by (simp add: pack_chunks_def pack_step_def pack_init_def append_blob_def flush_open_pack_def
        Let_def split: prod.split)
qed

text \<open>A generator for the witnesses: zero filler and ids, the identity shuffle.\<close>

definition demo_rng :: "unit rng_ops" where
  "demo_rng = \<lparr>fill_bytes = (\<lambda>r n. (replicate n 0, r)), shuffle = (\<lambda>r xs. (xs, r))\<rparr>"

lemma demo_rng_ok: "rng_ok demo_rng"
  by (simp add: rng_ok_def demo_rng_def)

definition demo_batch :: "(string \<times> bytes) list" where
  "demo_batch = [(''a'', [1, 2]), (''b'', [3]), (''a'', [4])]"

lemma demo_batch_ok: "batch_ok demo_batch" "\<forall>c \<in> set demo_batch. snd c \<noteq> []"
  by (simp_all add: batch_ok_def demo_batch_def)

theorem pack_then_slice_witness:
  "\<exists>out r'. pack_chunks demo_rng demo_batch 1 () = Inr (out, r')
    \<and> fst ` set (index out) = {''a'', ''b''}"
proof -
  have "fst ` set demo_batch = {''a'', ''b''}" by (auto simp: demo_batch_def)
  with pack_then_slice [OF demo_rng_ok demo_batch_ok, of 1 "()"] show ?thesis
    by (elim exE conjE, intro exI conjI) (assumption, erule trans, assumption)
qed

theorem pack_sizes_on_ladder_witness:
  "\<exists>out r'. pack_chunks demo_rng demo_batch 1 () = Inr (out, r')
    \<and> (\<forall>p \<in> set (packs out). \<exists>n. 0 < n \<and> pack_size p = step_for DEFAULT_LADDER n
          \<and> (n \<le> max 1 1 \<or> (\<exists>c \<in> set demo_batch. n = length (snd c))))"
  by (rule pack_sizes_on_ladder [OF demo_rng_ok demo_batch_ok])

theorem ladder_closure_witness:
  "step_for DEFAULT_LADDER 300000 \<le> step_for DEFAULT_LADDER 300001
   \<and> step_for DEFAULT_LADDER (step_for DEFAULT_LADDER 300000) = step_for DEFAULT_LADDER 300000"
  using ladder_closure [of 300000 DEFAULT_LADDER 300001] by simp

theorem default_ladder_overhead_witness:
  "step_for DEFAULT_LADDER 1 = 262144 \<and> 4 * step_for DEFAULT_LADDER 300000 < 5 * 300000"
  using default_ladder_overhead [of 1] default_ladder_overhead [of 300000]
  by (simp add: usize_max_def)

end
