(* ===== verification/Crypto_Error.thy ===== *)
theory Crypto_Error
  imports Codec
begin

text \<open>
  The error types of passkey-core (\<open>error.rs\<close>) and gitcellar-crypto (\<open>error.rs\<close>), their texts
  and the conversion of the first into the second that the \<open>?\<close> operator applies. An error
  of \<open>std::io\<close>, \<open>serde_json\<close> or \<open>anyhow\<close> is the text it displays.
\<close>

section \<open>Texts\<close>

text \<open>The em dash of the messages, in UTF-8.\<close>

definition em_dash :: string where
  "em_dash = [CHR 0xE2, CHR 0x80, CHR 0x94]"

section \<open>\<open>passkey_core::PasskeyError\<close>\<close>

datatype PasskeyError =
    IdentityNotFound
  | IdentityExists string
  | KeyGeneration string
  | KeyLoad string
  | KeySave string
  | InvalidPublicKey string
  | InvalidSignature
  | InvalidMachineId
  | ChallengeExpired
  | InvalidChallenge
  | InvalidToken
  | TokenExpired
  | InvalidRecoveryCode string
  | CredentialStore string
  | NoActiveUser
  | UserNotFound string
  | Io string
  | OpenPgp string
  | Other string

type_synonym 'a PasskeyResult = "PasskeyError + 'a"

fun passkey_error_text :: "PasskeyError \<Rightarrow> string" where
  "passkey_error_text IdentityNotFound = ''Identity not found''"
| "passkey_error_text (IdentityExists p) = ''Identity already exists at '' @ p"
| "passkey_error_text (KeyGeneration m) = ''Failed to generate key: '' @ m"
| "passkey_error_text (KeyLoad m) = ''Failed to load key: '' @ m"
| "passkey_error_text (KeySave m) = ''Failed to save key: '' @ m"
| "passkey_error_text (InvalidPublicKey m) = ''Invalid public key: '' @ m"
| "passkey_error_text InvalidSignature = ''Invalid signature''"
| "passkey_error_text InvalidMachineId = ''Invalid machine ID format''"
| "passkey_error_text ChallengeExpired = ''Challenge expired''"
| "passkey_error_text InvalidChallenge = ''Challenge is not a well-formed nonce''"
| "passkey_error_text InvalidToken = ''Invalid token''"
| "passkey_error_text TokenExpired = ''Token expired''"
| "passkey_error_text (InvalidRecoveryCode m) = ''Invalid recovery code: '' @ m"
| "passkey_error_text (CredentialStore m) = ''Credential store error: '' @ m"
| "passkey_error_text NoActiveUser = ''No active user''"
| "passkey_error_text (UserNotFound u) = ''User not found: '' @ u"
| "passkey_error_text (Io e) = ''IO error: '' @ e"
| "passkey_error_text (OpenPgp m) = ''OpenPGP error: '' @ m"
| "passkey_error_text (Other m) = m"

section \<open>\<open>gitcellar_crypto::CryptoError\<close>\<close>

datatype CryptoError =
    IdentityNotFound
  | IdentityExists string
  | KeyGeneration string
  | KeyLoad string
  | KeySave string
  | Encryption string
  | Decryption string
  | NoEncryptionKey
  | NoSigningKey
  | InvalidPassword
  | BundleFormat string
  | InvalidRecoveryCode string
  | CloudBackup string
  | Io string
  | OpenPgp string
  | Serialization string
  | Broadcast string
  | Other string

type_synonym 'a CryptoResult = "CryptoError + 'a"

fun crypto_error_text :: "CryptoError \<Rightarrow> string" where
  "crypto_error_text CryptoError.IdentityNotFound =
     ''Identity not found. Run `gitcellar init` to create one.''"
| "crypto_error_text (CryptoError.IdentityExists p) =
     ''Identity already exists at '' @ p @ ''. Use --force to overwrite.''"
| "crypto_error_text (CryptoError.KeyGeneration m) = ''Failed to generate key: '' @ m"
| "crypto_error_text (CryptoError.KeyLoad m) = ''Failed to load key: '' @ m"
| "crypto_error_text (CryptoError.KeySave m) = ''Failed to save key: '' @ m"
| "crypto_error_text (Encryption m) = ''Encryption failed: '' @ m"
| "crypto_error_text (Decryption m) = ''Decryption failed: '' @ m"
| "crypto_error_text NoEncryptionKey = ''No encryption-capable key found in identity''"
| "crypto_error_text NoSigningKey = ''No signing-capable key found in identity''"
| "crypto_error_text InvalidPassword = ''Invalid password''"
| "crypto_error_text (BundleFormat m) = ''Invalid bundle format: '' @ m"
| "crypto_error_text (CryptoError.InvalidRecoveryCode m) = ''Invalid recovery code: '' @ m"
| "crypto_error_text (CloudBackup m) = ''Cloud backup error: '' @ m"
| "crypto_error_text (CryptoError.Io e) = ''IO error: '' @ e"
| "crypto_error_text (CryptoError.OpenPgp m) = ''OpenPGP error: '' @ m"
| "crypto_error_text (Serialization e) = ''Serialization error: '' @ e"
| "crypto_error_text (Broadcast m) = ''Broadcast error: '' @ m"
| "crypto_error_text (CryptoError.Other m) = m"

fun from_passkey_error :: "PasskeyError \<Rightarrow> CryptoError" where
  "from_passkey_error PasskeyError.IdentityNotFound = CryptoError.IdentityNotFound"
| "from_passkey_error (PasskeyError.IdentityExists p) = CryptoError.IdentityExists p"
| "from_passkey_error (PasskeyError.KeyGeneration m) = CryptoError.KeyGeneration m"
| "from_passkey_error (PasskeyError.KeyLoad m) = CryptoError.KeyLoad m"
| "from_passkey_error (PasskeyError.KeySave m) = CryptoError.KeySave m"
| "from_passkey_error (PasskeyError.InvalidRecoveryCode m) = CryptoError.InvalidRecoveryCode m"
| "from_passkey_error NoActiveUser = CryptoError.IdentityNotFound"
| "from_passkey_error (UserNotFound u) = CryptoError.IdentityNotFound"
| "from_passkey_error (PasskeyError.Io e) = CryptoError.Io e"
| "from_passkey_error (PasskeyError.OpenPgp m) = CryptoError.OpenPgp m"
| "from_passkey_error (PasskeyError.Other m) = CryptoError.Other m"
| "from_passkey_error (InvalidPublicKey m) = CryptoError.KeyLoad m"
| "from_passkey_error InvalidSignature = CryptoError.Other ''Invalid signature''"
| "from_passkey_error InvalidMachineId = CryptoError.Other ''Invalid machine ID''"
| "from_passkey_error ChallengeExpired = CryptoError.Other ''Challenge expired''"
| "from_passkey_error InvalidChallenge =
     CryptoError.Other ''Challenge is not a well-formed nonce''"
| "from_passkey_error InvalidToken = CryptoError.Other ''Invalid token''"
| "from_passkey_error TokenExpired = CryptoError.Other ''Token expired''"
| "from_passkey_error (CredentialStore m) = CryptoError.Other (''Credential store: '' @ m)"

end
