(* ===== verification/Signed_Canonical.thy ===== *)
theory Signed_Canonical
  imports Codec
begin

text \<open>
  \<open>gitcellar-crypto/src/canonical.rs\<close>: the length-prefix field encoder
  \<open><decimal byte-length>:<bytes>\n\<close> shared by every signed canonical of the crate.

  \<open>prefix_code\<close> is the interface of a self-delimiting encoding; \<open>signed_statement\<close> that of a
  signed object, a domain tag followed by encoded fields. The canonicals of the component
  theories are interpretations of the second, so injectivity and domain separation are proved
  once, here.
\<close>

section \<open>The field encoder\<close>

definition lp_push :: "bytes \<Rightarrow> string \<Rightarrow> bytes" where
  "lp_push out s =
     out @ as_bytes (nat_to_string (length s)) @ [byte_of_char (CHR '':'')] @ as_bytes s
     @ [byte_of_char (CHR 0x0A)]"

definition lp :: "string \<Rightarrow> bytes" where
  "lp s = lp_push [] s"

definition lp_fields :: "string list \<Rightarrow> bytes" where
  "lp_fields fs = concat (map lp fs)"

lemma lp_push_lp: "lp_push out s = out @ lp s"
  by (simp add: lp_def lp_push_def)

lemma lp_cancel:
  assumes "lp s @ r = lp t @ r'"
  shows "s = t \<and> r = r'"
proof -
  let ?c = "byte_of_char (CHR '':'')"
  have no: "?c \<notin> set (as_bytes (nat_to_string n))" for n
    using nat_to_string_no_colon [of n] by (auto simp: set_as_bytes)
  let ?rest = "\<lambda>x y. as_bytes x @ byte_of_char (CHR 0x0A) # y"
  have "as_bytes (nat_to_string (length s)) @ ?c # ?rest s r
      = as_bytes (nat_to_string (length t)) @ ?c # ?rest t r'"
    using assms by (simp add: lp_def lp_push_def)
  from separator_split [OF this no no] have len: "length s = length t" and "?rest s r = ?rest t r'"
    by simp_all
  then show ?thesis by (simp add: append_eq_append_conv)
qed

section \<open>Self-delimiting encodings\<close>

locale prefix_code =
  fixes enc :: "'a \<Rightarrow> bytes"
  assumes cancel: "enc x @ r = enc y @ s \<Longrightarrow> x = y \<and> r = s"
    and nonempty: "enc x \<noteq> []"
begin

lemma enc_inject: "enc x = enc y \<longleftrightarrow> x = y"
  using cancel [of x "[]" y "[]"] by auto

lemma concat_cancel:
  "length xs = length ys \<Longrightarrow> concat (map enc xs) @ r = concat (map enc ys) @ s \<Longrightarrow> xs = ys \<and> r = s"
proof (induction xs ys rule: list_induct2)
  case Nil
  then show ?case by simp
next
  case (Cons x xs y ys)
  then have "enc x @ concat (map enc xs) @ r = enc y @ concat (map enc ys) @ s" by simp
  from cancel [OF this] Cons.IH show ?case by simp
qed

lemma concat_inject: "concat (map enc xs) = concat (map enc ys) \<longleftrightarrow> xs = ys"
proof
  show "concat (map enc xs) = concat (map enc ys) \<Longrightarrow> xs = ys"
  proof (induction xs arbitrary: ys)
    case Nil
    then show ?case using nonempty by (cases ys) auto
  next
    case (Cons x xs)
    then obtain y zs where ys: "ys = y # zs" using nonempty by (cases ys) auto
    with Cons.prems have "enc x @ concat (map enc xs) = enc y @ concat (map enc zs)" by simp
    from cancel [OF this] Cons.IH ys show ?case by simp
  qed
qed simp

end

interpretation lp: prefix_code lp
  by unfold_locales (rule lp_cancel, assumption, simp add: lp_def lp_push_def)

lemma lp_fields_inject [simp, code_inj]: "lp_fields fs = lp_fields gs \<longleftrightarrow> fs = gs"
  by (simp add: lp_fields_def lp.concat_inject)

lemma lp_fields_simps [simp]:
  "lp_fields [] = []"
  "lp_fields (f # fs) = lp f @ lp_fields fs"
  by (simp_all add: lp_fields_def)

section \<open>Signed statements\<close>

locale signed_statement =
  fixes tag :: string
    and fields :: "'a \<Rightarrow> string list"
    and canonical :: "'a \<Rightarrow> bytes"
  assumes canonical_fields: "canonical x = lp_fields (tag # fields x)"
begin

lemma canonical_eq_iff: "canonical x = canonical y \<longleftrightarrow> fields x = fields y"
  by (simp add: canonical_fields del: lp_fields_simps)

text \<open>Bytes that another tag heads are never these bytes.\<close>

lemma other_tag: "t \<noteq> tag \<Longrightarrow> canonical x \<noteq> lp_fields (t # fs)"
  by (simp add: canonical_fields del: lp_fields_simps)

lemma tag_first: "\<exists>rest. canonical x = lp tag @ rest"
  by (simp add: canonical_fields)

text \<open>
  A key that signs statements \<open>S\<close> of this kind and, besides, anything headed by other tags
  has signed the bytes of \<open>x\<close> only if it signed a statement with the fields of \<open>x\<close>.
\<close>

lemma authored_fields:
  assumes "canonical x \<in> A"
    and "\<And>m. m \<in> A \<Longrightarrow> (\<exists>y \<in> S. m = canonical y) \<or> (\<exists>t fs. t \<noteq> tag \<and> m = lp_fields (t # fs))"
  shows "\<exists>y \<in> S. fields x = fields y"
proof -
  from assms(2) [OF assms(1)] obtain y where "y \<in> S" "canonical x = canonical y"
    using other_tag by blast
  then show ?thesis using canonical_eq_iff by blast
qed

end

section \<open>Signed objects\<close>

text \<open>A signature scheme as its clients use it: \<open>pairs k p\<close> says that \<open>p\<close> is the public side of
  \<open>k\<close> (and that the library behind the scheme keeps its contract).\<close>

locale signature_scheme =
  fixes pairs :: "'k \<Rightarrow> 'p \<Rightarrow> bool"
    and sign :: "'k \<Rightarrow> bytes \<Rightarrow> 'e + bytes"
    and accepts :: "'p \<Rightarrow> bytes \<Rightarrow> bytes \<Rightarrow> bool"
  assumes sign_accepts: "pairs k p \<Longrightarrow> sign k m = Inr s \<Longrightarrow> accepts p m s"

locale signed_object = signed_statement tag fields canonical + signature_scheme pairs sign accepts
  for tag :: string
    and fields :: "'a \<Rightarrow> string list"
    and canonical :: "'a \<Rightarrow> bytes"
    and pairs :: "'k \<Rightarrow> 'p \<Rightarrow> bool"
    and sign :: "'k \<Rightarrow> bytes \<Rightarrow> 'e + bytes"
    and accepts :: "'p \<Rightarrow> bytes \<Rightarrow> bytes \<Rightarrow> bool"
begin

text \<open>A verifier that rebuilds the statement needs only its fields.\<close>

lemma rebuilt_accepts:
  assumes "pairs k p" and "sign k (canonical x) = Inr s" and "fields y = fields x"
  shows "accepts p (canonical y) s"
  using sign_accepts [OF assms(1,2)] assms(3) by (simp add: canonical_fields)

lemma accepted_field_binding:
  assumes "accepts p (canonical x) s"
    and "\<And>m. accepts p m s \<Longrightarrow> (\<exists>y \<in> S. m = canonical y) \<or> (\<exists>t fs. t \<noteq> tag \<and> m = lp_fields (t # fs))"
  shows "\<exists>y \<in> S. fields x = fields y"
  by (rule authored_fields [where A = "{m. accepts p m s}"]) (use assms in auto)

end

end
