(* ===== verification/Text.thy ===== *)
theory Text
  imports Codec
begin

text \<open>
  The string operations of the Rust standard library that the sources use, on UTF-8 text.
  ASCII behaviour is defined; what depends on the Unicode tables of \<open>std\<close> (white space and
  case of non-ASCII characters) is the parameter \<open>unicode\<close>, applied to one character given
  by its UTF-8 bytes (or to the whole string where \<open>std\<close> looks at context).
\<close>

record unicode =
  uni_ws :: "string \<Rightarrow> bool"
  uni_upper :: "string \<Rightarrow> string"
  uni_alphanumeric :: "string \<Rightarrow> bool"
  uni_lowercase_str :: "string \<Rightarrow> string"

definition code_of :: "char \<Rightarrow> nat" where
  "code_of c = of_char c"

definition is_ascii :: "char \<Rightarrow> bool" where
  "is_ascii c \<longleftrightarrow> code_of c < 128"

definition is_continuation :: "char \<Rightarrow> bool" where
  "is_continuation c \<longleftrightarrow> 128 \<le> code_of c \<and> code_of c < 192"

text \<open>\<open>chars()\<close>: each character as its bytes, a new one at every byte that continues none.\<close>

function utf8_chars :: "string \<Rightarrow> string list" where
  "utf8_chars [] = []"
| "utf8_chars (c # cs) =
     (c # takeWhile is_continuation cs) # utf8_chars (dropWhile is_continuation cs)"
  by pat_completeness auto
termination by (relation "measure length") (auto simp: le_imp_less_Suc length_dropWhile_le)

definition ascii_char :: "string \<Rightarrow> bool" where
  "ascii_char ch \<longleftrightarrow> (case ch of [c] \<Rightarrow> is_ascii c | _ \<Rightarrow> False)"

definition ascii_ws :: "char \<Rightarrow> bool" where
  "ascii_ws c \<longleftrightarrow> code_of c = 32 \<or> 9 \<le> code_of c \<and> code_of c \<le> 13"

definition is_whitespace :: "unicode \<Rightarrow> string \<Rightarrow> bool" where
  "is_whitespace U ch = (if ascii_char ch then ascii_ws (hd ch) else uni_ws U ch)"

definition ascii_upper :: "char \<Rightarrow> char" where
  "ascii_upper c = (if 97 \<le> code_of c \<and> code_of c \<le> 122 then char_of (code_of c - 32) else c)"

definition ascii_lower :: "char \<Rightarrow> char" where
  "ascii_lower c = (if 65 \<le> code_of c \<and> code_of c \<le> 90 then char_of (code_of c + 32) else c)"

definition to_uppercase_char :: "unicode \<Rightarrow> string \<Rightarrow> string" where
  "to_uppercase_char U ch = (if ascii_char ch then [ascii_upper (hd ch)] else uni_upper U ch)"

definition to_ascii_lowercase :: "string \<Rightarrow> string" where
  "to_ascii_lowercase s = map ascii_lower s"

definition eq_ignore_ascii_case :: "string \<Rightarrow> string \<Rightarrow> bool" where
  "eq_ignore_ascii_case a b \<longleftrightarrow> map ascii_lower a = map ascii_lower b"

definition to_lowercase :: "unicode \<Rightarrow> string \<Rightarrow> string" where
  "to_lowercase U s = (if list_all is_ascii s then map ascii_lower s else uni_lowercase_str U s)"

definition is_ascii_alphanumeric :: "char \<Rightarrow> bool" where
  "is_ascii_alphanumeric c \<longleftrightarrow>
     48 \<le> code_of c \<and> code_of c \<le> 57 \<or> 65 \<le> code_of c \<and> code_of c \<le> 90
     \<or> 97 \<le> code_of c \<and> code_of c \<le> 122"

definition is_alphanumeric :: "unicode \<Rightarrow> string \<Rightarrow> bool" where
  "is_alphanumeric U ch =
     (if ascii_char ch then is_ascii_alphanumeric (hd ch) else uni_alphanumeric U ch)"

definition trim :: "unicode \<Rightarrow> string \<Rightarrow> string" where
  "trim U s =
     concat (rev (dropWhile (is_whitespace U) (rev (dropWhile (is_whitespace U) (utf8_chars s)))))"

text \<open>\<open>s.split(c)\<close> for an ASCII separator: always at least one part.\<close>

fun split_on :: "char \<Rightarrow> string \<Rightarrow> string list" where
  "split_on d [] = [[]]"
| "split_on d (c # cs) =
     (if c = d then [] # split_on d cs
      else (case split_on d cs of [] \<Rightarrow> [[c]] | p # ps \<Rightarrow> (c # p) # ps))"

text \<open>\<open>split_whitespace\<close> and \<open>join\<close>.\<close>

fun split_at :: "('a \<Rightarrow> bool) \<Rightarrow> 'a list \<Rightarrow> 'a list list" where
  "split_at p [] = [[]]"
| "split_at p (c # cs) =
     (if p c then [] # split_at p cs
      else (case split_at p cs of [] \<Rightarrow> [[c]] | w # ws \<Rightarrow> (c # w) # ws))"

definition split_whitespace :: "unicode \<Rightarrow> string \<Rightarrow> string list" where
  "split_whitespace U s =
     map concat (filter (\<lambda>w. w \<noteq> []) (split_at (is_whitespace U) (utf8_chars s)))"

fun join :: "string \<Rightarrow> string list \<Rightarrow> string" where
  "join sep [] = []"
| "join sep [w] = w"
| "join sep (w # ws) = w @ sep @ join sep ws"

text \<open>\<open>s.contains(pat)\<close>.\<close>

fun contains_str :: "string \<Rightarrow> string \<Rightarrow> bool" where
  "contains_str pat [] \<longleftrightarrow> pat = []"
| "contains_str pat (c # cs) \<longleftrightarrow> take (length pat) (c # cs) = pat \<or> contains_str pat cs"

text \<open>\<open>s.strip_prefix(pre)\<close> and \<open>s.starts_with(pre)\<close>.\<close>

definition strip_prefix :: "string \<Rightarrow> string \<Rightarrow> string option" where
  "strip_prefix pre s = (if take (length pre) s = pre then Some (drop (length pre) s) else None)"

definition starts_with :: "string \<Rightarrow> string \<Rightarrow> bool" where
  "starts_with pre s \<longleftrightarrow> take (length pre) s = pre"

lemma strip_prefix_eq_Some: "strip_prefix pre s = Some r \<longleftrightarrow> s = pre @ r"
  by (auto simp: strip_prefix_def) (metis append_take_drop_id)

lemma starts_with_iff: "starts_with pre s \<longleftrightarrow> (\<exists>r. s = pre @ r)"
  by (auto simp: starts_with_def) (metis append_take_drop_id)

lemma concat_utf8_chars [simp]: "concat (utf8_chars s) = s"
  by (induction s rule: utf8_chars.induct) simp_all

lemma utf8_chars_ascii: "list_all is_ascii s \<Longrightarrow> utf8_chars s = map (\<lambda>c. [c]) s"
proof (induction s)
  case Nil
  then show ?case by simp
next
  case (Cons c cs)
  then have "takeWhile is_continuation cs = []" "dropWhile is_continuation cs = cs"
    by (cases cs; auto simp: is_ascii_def is_continuation_def)+
  then show ?case using Cons by simp
qed

lemma is_whitespace_ascii [simp]: "is_ascii c \<Longrightarrow> is_whitespace U [c] = ascii_ws c"
  by (simp add: is_whitespace_def ascii_char_def)

lemma trim_plain:
  assumes "list_all (\<lambda>c. is_ascii c \<and> \<not> ascii_ws c) s"
  shows "trim U s = s"
proof -
  have ascii: "list_all is_ascii s" using assms by (simp add: list_all_iff)
  have "\<not> is_whitespace U x" if "x \<in> set (map (\<lambda>c. [c]) s)" for x
    using assms that by (auto simp: list_all_iff)
  then have "dropWhile (is_whitespace U) xs = xs" if "set xs \<subseteq> set (map (\<lambda>c. [c]) s)" for xs
    using that by (cases xs) auto
  then show ?thesis
    by (simp add: trim_def utf8_chars_ascii [OF ascii] rev_map [symmetric])
qed

text \<open>A text that starts at a character boundary and neither starts nor ends with white space is what
  trimming leaves of it between ASCII white space.\<close>

definition solid :: "unicode \<Rightarrow> string \<Rightarrow> bool" where
  "solid U m \<longleftrightarrow> m \<noteq> [] \<and> \<not> is_continuation (hd m) \<and> \<not> is_whitespace U (hd (utf8_chars m))
     \<and> \<not> is_whitespace U (last (utf8_chars m))"

lemma utf8_chars_eq_Nil [simp]: "utf8_chars s = [] \<longleftrightarrow> s = []"
  by (cases s) simp_all

lemma utf8_chars_append:
  "b = [] \<or> \<not> is_continuation (hd b) \<Longrightarrow> utf8_chars (a @ b) = utf8_chars a @ utf8_chars b"
proof (induction a rule: utf8_chars.induct)
  case (2 c cs)
  have "takeWhile is_continuation (cs @ b) = takeWhile is_continuation cs"
    "dropWhile is_continuation (cs @ b) = dropWhile is_continuation cs @ b"
    using "2.prems" by (induction cs) (cases b; auto)+
  with 2 show ?case by simp
qed simp

lemma ascii_not_continuation: "is_ascii c \<Longrightarrow> \<not> is_continuation c"
  by (simp add: is_ascii_def is_continuation_def)

lemma solid_ends:
  assumes "is_ascii x" "is_ascii y" "\<not> ascii_ws x" "\<not> ascii_ws y" and "m = [] \<or> \<not> is_continuation (hd m)"
  shows "solid U (x # m @ [y])"
proof -
  have "utf8_chars (x # m @ [y]) = [x] # utf8_chars (m @ [y])"
    using utf8_chars_append [of "m @ [y]" "[x]"] ascii_not_continuation [OF assms(2)] assms(5) by (cases m) auto
  moreover have "utf8_chars (m @ [y]) = utf8_chars m @ [[y]]"
    using utf8_chars_append [of "[y]" m] ascii_not_continuation [OF assms(2)] by simp
  ultimately show ?thesis using assms ascii_not_continuation [OF assms(1)] by (simp add: solid_def)
qed

lemma dropWhile_stops: "list_all P xs \<Longrightarrow> \<not> P y \<Longrightarrow> dropWhile P (xs @ y # ys) = y # ys"
  by (induction xs) auto

lemma ascii_ws_chars:
  "list_all (\<lambda>c. is_ascii c \<and> ascii_ws c) u \<Longrightarrow>
     list_all (is_whitespace U) (utf8_chars u) \<and> (u = [] \<or> \<not> is_continuation (hd u))"
  using utf8_chars_ascii [of u] ascii_not_continuation by (cases u) (auto simp: list_all_iff)

lemma trim_between:
  assumes "solid U m" and "list_all (\<lambda>c. is_ascii c \<and> ascii_ws c) v" "list_all (\<lambda>c. is_ascii c \<and> ascii_ws c) w"
  shows "trim U (v @ m @ w) = m"
proof -
  let ?ws = "is_whitespace U" and ?cs = "utf8_chars m"
  have hd: "m @ w = [] \<or> \<not> is_continuation (hd (m @ w))" and ne: "?cs \<noteq> []"
    and ends: "\<not> ?ws (hd ?cs)" "\<not> ?ws (last ?cs)"
    using assms(1) by (cases m; simp add: solid_def)+
  have all: "utf8_chars (v @ m @ w) = utf8_chars v @ ?cs @ utf8_chars w"
    using utf8_chars_append [OF hd, of v] utf8_chars_append [of w m] ascii_ws_chars [OF assms(3), of U] by simp
  obtain a as where ca: "?cs = a # as" using ne by (cases ?cs) auto
  have cb: "rev ?cs = last ?cs # rev (butlast ?cs)"
    using arg_cong [OF append_butlast_last_id [OF ne], of rev] by simp
  have "dropWhile ?ws (utf8_chars v @ ?cs @ utf8_chars w) = ?cs @ utf8_chars w"
    using dropWhile_stops [of ?ws "utf8_chars v" a "as @ utf8_chars w"] ends ascii_ws_chars [OF assms(2), of U]
    by (simp add: ca)
  moreover have "dropWhile ?ws (rev (utf8_chars w) @ rev ?cs) = rev ?cs"
    unfolding cb by (rule dropWhile_stops) (use ends ascii_ws_chars [OF assms(3), of U] in \<open>auto simp: list_all_iff\<close>)
  ultimately show ?thesis by (simp add: trim_def all)
qed

lemma split_on_nonempty [simp]: "split_on d s \<noteq> []"
  by (induction s) (auto split: list.splits)

lemma split_on_no_sep: "d \<notin> set s \<Longrightarrow> split_on d s = [s]"
  by (induction s) auto

lemma split_on_append: "d \<notin> set a \<Longrightarrow> split_on d (a @ d # b) = a # split_on d b"
  by (induction a) auto

lemma split_on_two: "split_on d s = [a, b] \<longleftrightarrow> s = a @ d # b \<and> d \<notin> set a \<and> d \<notin> set b"
proof
  assume "split_on d s = [a, b]"
  then show "s = a @ d # b \<and> d \<notin> set a \<and> d \<notin> set b"
  proof (induction s arbitrary: a)
    case Nil
    then show ?case by simp
  next
    case (Cons c cs)
    show ?case
    proof (cases "c = d")
      case True
      with Cons.prems have "a = []" "split_on d cs = [b]" by auto
      moreover have "split_on d cs = [b] \<Longrightarrow> cs = b \<and> d \<notin> set b" for cs b
        by (induction cs arbitrary: b) (auto split: if_splits list.splits)
      ultimately show ?thesis using True by auto
    next
      case False
      with Cons.prems obtain p where "split_on d cs = [p, b]" "a = c # p"
        by (auto split: list.splits)
      with Cons.IH False show ?thesis by auto
    qed
  qed
next
  assume "s = a @ d # b \<and> d \<notin> set a \<and> d \<notin> set b"
  then show "split_on d s = [a, b]" by (simp add: split_on_append split_on_no_sep)
qed

lemma join_split_on: "join [d] (split_on d s) = s"
proof (induction s)
  case Nil
  then show ?case by simp
next
  case (Cons c cs)
  obtain p ps where split: "split_on d cs = p # ps" by (cases "split_on d cs") simp_all
  with Cons.IH show ?case by (cases ps) auto
qed

lemma split_on_join:
  assumes "ws \<noteq> []" and "\<forall>w \<in> set ws. d \<notin> set w"
  shows "split_on d (join [d] ws) = ws"
  using assms
proof (induction ws)
  case Nil
  then show ?case by simp
next
  case (Cons w ws)
  then show ?case by (cases ws) (simp_all add: split_on_no_sep split_on_append)
qed

lemma join_inject:
  assumes "join [d] vs = join [d] ws" and "vs \<noteq> []" "ws \<noteq> []"
    and "\<forall>w \<in> set vs. d \<notin> set w" "\<forall>w \<in> set ws. d \<notin> set w"
  shows "vs = ws"
  by (metis assms split_on_join)

lemma contains_str_append: "contains_str pat (a @ pat @ b)"
proof (induction a)
  case Nil
  have "take (length pat) (pat @ b) = pat" by simp
  then show ?case by (cases "pat @ b") (auto simp del: append_eq_append_conv2)
qed simp

lemma contains_str_iff: "contains_str pat s \<longleftrightarrow> (\<exists>a b. s = a @ pat @ b)"
proof
  assume "contains_str pat s"
  then show "\<exists>a b. s = a @ pat @ b"
  proof (induction s)
    case (Cons c cs)
    show ?case
    proof (cases "take (length pat) (c # cs) = pat")
      case True
      then have "c # cs = [] @ pat @ drop (length pat) (c # cs)" by (metis append_Nil append_take_drop_id)
      then show ?thesis by blast
    next
      case False
      with Cons obtain a b where "c # cs = (c # a) @ pat @ b" by auto
      then show ?thesis by blast
    qed
  qed simp
qed (auto intro: contains_str_append)

lemma contains_str_mono: "contains_str pat s \<Longrightarrow> contains_str pat (a @ s @ b)"
  unfolding contains_str_iff by (metis append.assoc)

lemma contains_str_prefix: "contains_str pat (pat @ b)"
  using contains_str_append [of pat "[]" b] by simp

lemma ascii_upper_idem [simp]: "ascii_upper (ascii_upper c) = ascii_upper c"
  by (auto simp: ascii_upper_def code_of_def)

lemma ascii_lower_idem [simp]: "ascii_lower (ascii_lower c) = ascii_lower c"
  by (auto simp: ascii_lower_def code_of_def)

lemma is_ascii_upper: "is_ascii c \<Longrightarrow> is_ascii (ascii_upper c)"
  by (auto simp: ascii_upper_def code_of_def is_ascii_def)

lemma is_ascii_lower: "is_ascii c \<Longrightarrow> is_ascii (ascii_lower c)"
  by (auto simp: ascii_lower_def code_of_def is_ascii_def)

lemma ascii_ws_upper: "ascii_ws (ascii_upper c) = ascii_ws c"
  by (auto simp: ascii_upper_def code_of_def ascii_ws_def)

text \<open>A concrete \<open>unicode\<close> for the witnesses.\<close>

definition demo_unicode :: unicode where
  "demo_unicode = \<lparr>uni_ws = (\<lambda>c. False), uni_upper = (\<lambda>c. c), uni_alphanumeric = (\<lambda>c. False),
     uni_lowercase_str = (\<lambda>s. s)\<rparr>"

end
