(* ===== verification/Auth_Challenge.thy ===== *)
theory Auth_Challenge
  imports Crypto_Error Signed_Canonical Text
begin

text \<open>
  \<open>passkey-core/src/auth/challenge.rs\<close>: the challenge nonces of challenge-response sign-in
  and the bytes a client signs to answer one. The clock and the random generator are
  arguments: \<open>now\<close> in seconds since the epoch, the drawn bytes.
\<close>

section \<open>Definitions\<close>

datatype ChallengePurpose = Login | RegistrationProof

fun purpose_domain :: "ChallengePurpose \<Rightarrow> string" where
  "purpose_domain Login = ''gc-auth-login-v1''"
| "purpose_domain RegistrationProof = ''gc-auth-registration-pop-v1''"

definition is_well_formed_challenge :: "string \<Rightarrow> bool" where
  "is_well_formed_challenge challenge \<longleftrightarrow> length challenge = 64 \<and> list_all is_lower_hex challenge"

text \<open>The field loop of the function pushes \<open>len\<close>, a colon, the field and a newline itself.\<close>

definition challenge_signing_payload :: "ChallengePurpose \<Rightarrow> string \<Rightarrow> bytes PasskeyResult" where
  "challenge_signing_payload purpose challenge =
     (if \<not> is_well_formed_challenge challenge then Inl InvalidChallenge
      else Inr (foldl (\<lambda>out field.
                 out @ as_bytes (nat_to_string (length field)) @ [byte_of_char (CHR '':'')]
                 @ as_bytes field @ [byte_of_char (CHR 0x0A)])
               [] [purpose_domain purpose, challenge]))"

definition generate_challenge :: "bytes \<Rightarrow> string" where
  "generate_challenge drawn = hex_encode drawn"

definition generate_timestamped_challenge :: "u64 \<Rightarrow> bytes \<Rightarrow> string" where
  "generate_timestamped_challenge now drawn =
     hex_encode (u64_to_be_bytes now) @ '':'' @ hex_encode drawn"

definition saturating_sub64 :: "u64 \<Rightarrow> u64 \<Rightarrow> u64" where
  "saturating_sub64 a b = (if a < b then 0 else a - b)"

definition is_challenge_valid :: "u64 \<Rightarrow> string \<Rightarrow> u64 \<Rightarrow> string + bool" where
  "is_challenge_valid now challenge max_age_secs =
     (case split_on (CHR '':'') challenge of
        [ts, _] \<Rightarrow>
          try_bind (ok_or ''Invalid timestamp hex'' (hex_decode ts)) (\<lambda>timestamp_bytes.
          if length timestamp_bytes \<noteq> 8 then Inl ''Invalid timestamp length''
          else Inr (saturating_sub64 now (u64_from_be_bytes timestamp_bytes) \<le> max_age_secs))
      | _ \<Rightarrow> Inl ''Invalid challenge format'')"

section \<open>The signed payload\<close>

definition challenge_canonical :: "ChallengePurpose \<Rightarrow> string \<Rightarrow> bytes" where
  "challenge_canonical p c = lp_fields [purpose_domain p, c]"

lemma challenge_signing_payload_eq:
  "challenge_signing_payload p c =
     (if is_well_formed_challenge c then Inr (challenge_canonical p c) else Inl InvalidChallenge)"
  by (simp add: challenge_signing_payload_def challenge_canonical_def lp_def lp_push_def)

interpretation login: signed_statement "''gc-auth-login-v1''" "\<lambda>c. [c]" "challenge_canonical Login"
  by unfold_locales (simp add: challenge_canonical_def)

interpretation registration: signed_statement "''gc-auth-registration-pop-v1''" "\<lambda>c. [c]"
    "challenge_canonical RegistrationProof"
  by unfold_locales (simp add: challenge_canonical_def)

lemma challenge_canonical_inject [code_inj]:
  "challenge_canonical p c = challenge_canonical q d \<longleftrightarrow> p = q \<and> c = d"
  by (cases p; cases q) (simp_all add: challenge_canonical_def del: lp_fields_simps)

lemma generate_challenge_well_formed:
  "length drawn = 32 \<Longrightarrow> is_well_formed_challenge (generate_challenge drawn)"
  by (simp add: is_well_formed_challenge_def generate_challenge_def code_len list_all_iff
      hex_encode_lower)

section \<open>Timestamped challenges\<close>

lemma hex_encode_no_colon: "CHR '':'' \<notin> set (hex_encode bs)"
  using hex_encode_lower [of "CHR '':''" bs] by (auto simp: is_lower_hex_def)

lemma saturating_sub64_unat: "unat (saturating_sub64 a b) = unat a - unat b"
  by (simp add: saturating_sub64_def word_less_nat_alt unat_sub_if')

lemma split_timestamped:
  "split_on (CHR '':'') (generate_timestamped_challenge now drawn) =
     [hex_encode (u64_to_be_bytes now), hex_encode drawn]"
  using hex_encode_no_colon
  by (simp add: generate_timestamped_challenge_def split_on_append split_on_no_sep)

lemma timestamped_validity:
  "is_challenge_valid now (generate_timestamped_challenge t drawn) age
     = Inr (unat now - unat t \<le> unat age)"
  by (simp add: is_challenge_valid_def split_timestamped word_le_nat_alt saturating_sub64_unat)

section \<open>Properties\<close>

text \<open>A payload to sign exists for exactly the well-formed nonces, determines the purpose
  and the nonce it was built from, and is the one a verifier rebuilds for every challenge
  \<open>generate_challenge\<close> draws; so a login answer is never a registration proof.\<close>

theorem challenge_payload_binds:
  assumes "challenge_signing_payload p c = Inr b"
  shows "is_well_formed_challenge c
    \<and> (\<forall>q d. challenge_signing_payload q d = Inr b \<longrightarrow> q = p \<and> d = c)
    \<and> (\<forall>drawn. length drawn = 32 \<longrightarrow>
         (\<exists>b'. challenge_signing_payload p (generate_challenge drawn) = Inr b'))"
  using assms
  by (auto simp: challenge_signing_payload_eq challenge_canonical_inject
      generate_challenge_well_formed split: if_splits)

theorem challenge_payload_binds_witness:
  "{(q, d). challenge_signing_payload q d = challenge_signing_payload Login (replicate 64 (CHR ''a''))}
      = {(Login, replicate 64 (CHR ''a''))}
    \<and> (\<exists>b. challenge_signing_payload Login (generate_challenge (replicate 32 7)) = Inr b)"
proof -
  have "challenge_signing_payload Login (replicate 64 (CHR ''a''))
      = Inr (challenge_canonical Login (replicate 64 (CHR ''a'')))"
    by (simp add: challenge_signing_payload_eq is_well_formed_challenge_def is_lower_hex_def list_all_iff)
  note h = this challenge_payload_binds [OF this]
  have "length (replicate 32 (7 :: u8)) = 32" by simp
  with h show ?thesis by (auto simp del: length_replicate)
qed

text \<open>A timestamped challenge is valid for exactly \<open>max_age_secs\<close> seconds after it was
  made, and at every moment before it was made (the subtraction saturates); a nonce of the
  other shape is refused by each of the two checks.\<close>

theorem challenge_expiry:
  "is_challenge_valid now (generate_timestamped_challenge t drawn) age
     = Inr (unat now \<le> unat t + unat age)
   \<and> \<not> is_well_formed_challenge (generate_timestamped_challenge t drawn)
   \<and> is_challenge_valid now (generate_challenge drawn) age = Inl ''Invalid challenge format''"
proof (intro conjI)
  show "is_challenge_valid now (generate_timestamped_challenge t drawn) age
      = Inr (unat now \<le> unat t + unat age)"
    unfolding timestamped_validity by (simp add: le_diff_conv add.commute)
  show "\<not> is_well_formed_challenge (generate_timestamped_challenge t drawn)"
    by (simp add: is_well_formed_challenge_def generate_timestamped_challenge_def is_lower_hex_def)
  show "is_challenge_valid now (generate_challenge drawn) age = Inl ''Invalid challenge format''"
    using hex_encode_no_colon [of drawn]
    by (simp add: is_challenge_valid_def generate_challenge_def split_on_no_sep)
qed

end
