(* ===== verification/Chunk_Format.thy ===== *)
theory Chunk_Format
  imports Vault_Error
begin

text \<open>
  \<open>vault-core/src/chunk_format.rs\<close>: the format-version byte every stored chunk begins
  with, its dispatch, and the per-chunk identity (\<open>ChunkAad\<close>) that is bound into the AEAD
  as associated data. The lemmas show that exactly one version byte is dispatched and that
  the canonical encoding of the identity is injective on the values \<open>check\<close> accepts.
\<close>

section \<open>Version byte registry\<close>

definition V1_XCHACHA20_POLY1305 :: u8 where "V1_XCHACHA20_POLY1305 = 1"
definition V2_KEYED_CDC_NAMING :: u8 where "V2_KEYED_CDC_NAMING = 2"
definition V3_REPO_UID_KEY_VERSION :: u8 where "V3_REPO_UID_KEY_VERSION = 3"
definition V4_AES_256_GCM_SIV :: u8 where "V4_AES_256_GCM_SIV = 4"
definition V5_KEYED_CDC_AES_PER_BYTE :: u8 where "V5_KEYED_CDC_AES_PER_BYTE = 5"
definition V6_HYBRID_WRAP :: u8 where "V6_HYBRID_WRAP = 6"

lemmas version_byte_defs =
  V1_XCHACHA20_POLY1305_def V2_KEYED_CDC_NAMING_def V3_REPO_UID_KEY_VERSION_def
  V4_AES_256_GCM_SIV_def V5_KEYED_CDC_AES_PER_BYTE_def V6_HYBRID_WRAP_def

datatype ChunkFormatVersion = RepoUidKeyVersionV3

fun as_byte :: "ChunkFormatVersion \<Rightarrow> u8" where
  "as_byte RepoUidKeyVersionV3 = V3_REPO_UID_KEY_VERSION"

fun is_xchacha20_poly1305_layout :: "ChunkFormatVersion \<Rightarrow> bool" where
  "is_xchacha20_poly1305_layout RepoUidKeyVersionV3 = True"

definition parse_version :: "u8 \<Rightarrow> ChunkFormatVersion VaultResult" where
  "parse_version byte =
     (if byte = V3_REPO_UID_KEY_VERSION then Inr RepoUidKeyVersionV3
      else if byte = V1_XCHACHA20_POLY1305 \<or> byte = V2_KEYED_CDC_NAMING
        then Inl (Decryption (RetiredVersion byte))
      else Inl (Decryption (UnknownVersion byte)))"

definition version_of :: "bytes \<Rightarrow> ChunkFormatVersion VaultResult" where
  "version_of chunk =
     (case chunk of [] \<Rightarrow> Inl (Decryption EmptyChunk) | first # _ \<Rightarrow> parse_version first)"

section \<open>Per-chunk identity\<close>

record ChunkAad =
  repo_uid :: string
  chunk_name :: string
  key_version :: u32
  stream_offset :: u64
  aad_size :: u64

definition DEFAULT_KEY_VERSION :: u32 where
  "DEFAULT_KEY_VERSION = 1"

definition aad_check :: "ChunkAad \<Rightarrow> unit VaultResult" where
  "aad_check a =
     (if 0 \<in> set (as_bytes (repo_uid a)) then Inl (Encryption NulInRepoUid)
      else if 0 \<in> set (as_bytes (chunk_name a)) then Inl (Encryption NulInChunkName)
      else Inr ())"

definition aad_new :: "string \<Rightarrow> string \<Rightarrow> u32 \<Rightarrow> u64 \<Rightarrow> u64 \<Rightarrow> ChunkAad VaultResult" where
  "aad_new uid name kv off sz =
     (let aad = \<lparr>repo_uid = uid, chunk_name = name, key_version = kv,
                 stream_offset = off, aad_size = sz\<rparr>
      in try_bind (aad_check aad) (\<lambda>_. Inr aad))"

definition aad_content :: "string \<Rightarrow> string \<Rightarrow> u32 \<Rightarrow> u64 \<Rightarrow> ChunkAad VaultResult" where
  "aad_content uid name kv sz = aad_new uid name kv 0 sz"

definition aad_named :: "string \<Rightarrow> string \<Rightarrow> u32 \<Rightarrow> ChunkAad VaultResult" where
  "aad_named uid name kv = aad_new uid name kv 0 0"

definition for_content_chunk :: "string \<Rightarrow> string \<Rightarrow> u64 \<Rightarrow> ChunkAad" where
  "for_content_chunk uid name sz =
     \<lparr>repo_uid = uid, chunk_name = name, key_version = DEFAULT_KEY_VERSION,
      stream_offset = 0, aad_size = sz\<rparr>"

definition for_named_object :: "string \<Rightarrow> string \<Rightarrow> ChunkAad" where
  "for_named_object uid name =
     \<lparr>repo_uid = uid, chunk_name = name, key_version = DEFAULT_KEY_VERSION,
      stream_offset = 0, aad_size = 0\<rparr>"

definition canonical_aad_bytes :: "ChunkAad \<Rightarrow> bytes" where
  "canonical_aad_bytes a =
     as_bytes (repo_uid a) @ [0] @ as_bytes (chunk_name a) @ [0]
     @ u32_to_le_bytes (key_version a)
     @ u64_to_le_bytes (stream_offset a)
     @ u64_to_le_bytes (aad_size a)"

section \<open>Dispatch\<close>

lemma parse_version_eq_Inr [simp]: "parse_version b = Inr v \<longleftrightarrow> b = 3"
  by (cases v) (simp add: parse_version_def version_byte_defs)

lemma parse_version_err: "b \<noteq> 3 \<Longrightarrow> \<exists>m. parse_version b = Inl (Decryption m)"
  by (simp add: parse_version_def version_byte_defs)

lemma parse_version_as_byte [simp]: "parse_version (as_byte v) = Inr v"
  by (cases v) (simp add: version_byte_defs)

lemma version_of_simps [simp]:
  "version_of [] = Inl (Decryption EmptyChunk)"
  "version_of (b # bs) = parse_version b"
  by (simp_all add: version_of_def)

lemma layout_always [simp]: "is_xchacha20_poly1305_layout v"
  by (cases v) simp

section \<open>The canonical encoding is injective on checked identities\<close>

lemma aad_check_eq_Inr:
  "aad_check a = Inr u \<longleftrightarrow> 0 \<notin> set (as_bytes (repo_uid a)) \<and> 0 \<notin> set (as_bytes (chunk_name a))"
  by (simp add: aad_check_def)

lemma aad_check_err: "aad_check a \<noteq> Inr () \<Longrightarrow> \<exists>m. aad_check a = Inl (Encryption m)"
  by (simp add: aad_check_def split: if_splits)

lemma aad_new_eq_Inr:
  "aad_new uid name kv off sz = Inr a \<longleftrightarrow>
     a = \<lparr>repo_uid = uid, chunk_name = name, key_version = kv, stream_offset = off, aad_size = sz\<rparr>
     \<and> aad_check a = Inr ()"
  by (auto simp: aad_new_def try_bind_eq_Inr Let_def)

lemma canonical_tail_inject:
  "u32_to_le_bytes k @ u64_to_le_bytes f @ u64_to_le_bytes s
   = u32_to_le_bytes k' @ u64_to_le_bytes f' @ u64_to_le_bytes s'
   \<longleftrightarrow> k = k' \<and> f = f' \<and> s = s'"
  by (simp add: append_eq_append_conv)

lemma canonical_aad_bytes_inject [code_inj]:
  assumes "aad_check a = Inr ()" and "aad_check b = Inr ()"
  shows "canonical_aad_bytes a = canonical_aad_bytes b \<longleftrightarrow> a = b"
proof
  assume eq: "canonical_aad_bytes a = canonical_aad_bytes b"
  let ?tail = "\<lambda>x. u32_to_le_bytes (key_version x) @ u64_to_le_bytes (stream_offset x)
                  @ u64_to_le_bytes (aad_size x)"
  have nul: "0 \<notin> set (as_bytes (repo_uid a))" "0 \<notin> set (as_bytes (chunk_name a))"
    "0 \<notin> set (as_bytes (repo_uid b))" "0 \<notin> set (as_bytes (chunk_name b))"
    using assms by (simp_all add: aad_check_eq_Inr)
  from eq have 1: "as_bytes (repo_uid a) = as_bytes (repo_uid b)
      \<and> as_bytes (chunk_name a) @ 0 # ?tail a = as_bytes (chunk_name b) @ 0 # ?tail b"
    using separator_split [OF _ nul(1,3)] by (simp add: canonical_aad_bytes_def)
  then have 2: "as_bytes (chunk_name a) = as_bytes (chunk_name b) \<and> ?tail a = ?tail b"
    using separator_split [OF _ nul(2,4)] by blast
  with 1 show "a = b"
    by (cases a, cases b) (simp add: canonical_tail_inject)
qed simp

lemma length_canonical_aad_bytes [code_len]:
  "length (canonical_aad_bytes a) = length (repo_uid a) + 1 + length (chunk_name a) + 1 + 4 + 8 + 8"
  by (simp add: canonical_aad_bytes_def)

end
