(* ===== verification/Chunk_Encryption.thy ===== *)
theory Chunk_Encryption
  imports Chunk_Format Chunking
begin

text \<open>
  \<open>vault-core/src/encryption.rs\<close>: the \<open>EncryptionEngine\<close> trait, the XChaCha20-Poly1305
  chunk engine and the AES-256-GCM passphrase engine.

  The ciphers, HKDF and Argon2id come from third-party crates. A keyed cipher is the record
  \<open>aead\<close> (seal and open under a nonce and associated data, \<open>None\<close> for \<open>Err\<close>), and
  \<open>primitives\<close> collects the constructors. The contract of an AEAD is \<open>aead_ok\<close>: \<open>open\<close>
  accepts exactly what \<open>seal\<close> produces for that nonce and associated data, and the tag adds 16
  bytes. A nonce is the argument the code draws from the random generator.

  The locale \<open>encryption_engine\<close> is the trait as its callers use it; both engines are
  interpretations of it.
\<close>

section \<open>External primitives\<close>

record aead =
  aead_seal :: "bytes \<Rightarrow> bytes \<Rightarrow> bytes \<Rightarrow> bytes option"
  aead_open :: "bytes \<Rightarrow> bytes \<Rightarrow> bytes \<Rightarrow> bytes option"

record primitives =
  xchacha_new :: "bytes \<Rightarrow> aead option"
  aes_gcm_new :: "bytes \<Rightarrow> aead option"
  hkdf_sha256 :: "bytes option \<Rightarrow> bytes \<Rightarrow> bytes \<Rightarrow> nat \<Rightarrow> bytes option"
  argon2id :: "nat \<Rightarrow> nat \<Rightarrow> nat \<Rightarrow> nat \<Rightarrow> bytes \<Rightarrow> bytes \<Rightarrow> bytes option"

text \<open>\<open>aead_seal c nonce aad msg\<close>, \<open>aead_open c nonce aad ct\<close>.\<close>

definition aead_ok :: "aead \<Rightarrow> bool" where
  "aead_ok c \<longleftrightarrow>
     (\<forall>n a m ct. aead_open c n a ct = Some m \<longleftrightarrow> aead_seal c n a m = Some ct)
     \<and> (\<forall>n a m ct. aead_seal c n a m = Some ct \<longrightarrow> length ct = length m + 16)"

section \<open>XChaCha20-Poly1305 chunk engine\<close>

record XChaChaChunkEngine =
  xc_cipher :: aead
  xc_key_id :: string
  emit_version :: u8

definition XC_NONCE_SIZE :: nat where "XC_NONCE_SIZE = 24"
definition XC_TAG_SIZE :: nat where "XC_TAG_SIZE = 16"
definition XC_VERSION_SIZE :: nat where "XC_VERSION_SIZE = 1"
definition XC_KEY_SIZE :: nat where "XC_KEY_SIZE = 32"
definition XC_OVERHEAD :: nat where
  "XC_OVERHEAD = XC_VERSION_SIZE + XC_NONCE_SIZE + XC_TAG_SIZE"

lemmas xc_size_defs =
  XC_NONCE_SIZE_def XC_TAG_SIZE_def XC_VERSION_SIZE_def XC_KEY_SIZE_def XC_OVERHEAD_def

definition CONTENT_KEY_INFO :: bytes where
  "CONTENT_KEY_INFO = as_bytes ''gitcellar/chunk-content/v1''"

definition derive_content_key :: "primitives \<Rightarrow> bytes \<Rightarrow> bytes VaultResult" where
  "derive_content_key P k_repo =
     ok_or (Key HkdfExpandFailed) (hkdf_sha256 P None k_repo CONTENT_KEY_INFO XC_KEY_SIZE)"

definition from_content_key :: "primitives \<Rightarrow> hashes \<Rightarrow> bytes \<Rightarrow> XChaChaChunkEngine VaultResult" where
  "from_content_key P H content_key =
     (if length content_key \<noteq> XC_KEY_SIZE then Inl (Key (ContentKeyLength (length content_key)))
      else try_bind (ok_or (Key CipherInitFailed) (xchacha_new P content_key))
        (\<lambda>cipher. Inr \<lparr>xc_cipher = cipher, xc_key_id = take 16 (compute_hash H content_key),
                       emit_version = V3_REPO_UID_KEY_VERSION\<rparr>))"

definition xchacha_engine_new :: "primitives \<Rightarrow> hashes \<Rightarrow> bytes \<Rightarrow> XChaChaChunkEngine VaultResult" where
  "xchacha_engine_new P H k_repo = try_bind (derive_content_key P k_repo) (from_content_key P H)"

definition with_format_version ::
    "XChaChaChunkEngine \<Rightarrow> ChunkFormatVersion \<Rightarrow> XChaChaChunkEngine VaultResult" where
  "with_format_version e version =
     (if \<not> is_xchacha20_poly1305_layout version
      then Inl (Encryption (CannotEmitVersion (as_byte version)))
      else Inr (e\<lparr>emit_version := as_byte version\<rparr>))"

definition cipher_aad :: "u8 \<Rightarrow> ChunkAad \<Rightarrow> bytes VaultResult" where
  "cipher_aad version_byte aad =
     try_bind (aad_check aad) (\<lambda>_. Inr (version_byte # canonical_aad_bytes aad))"

definition encrypt_with_nonce ::
    "XChaChaChunkEngine \<Rightarrow> bytes \<Rightarrow> bytes \<Rightarrow> ChunkAad \<Rightarrow> bytes VaultResult" where
  "encrypt_with_nonce e plaintext nonce_bytes aad =
     try_bind (cipher_aad (emit_version e) aad) (\<lambda>caad.
     try_bind (ok_or (Encryption XChaChaEncryptionFailed)
                 (aead_seal (xc_cipher e) nonce_bytes caad plaintext)) (\<lambda>ct_and_tag.
     Inr (emit_version e # nonce_bytes @ ct_and_tag)))"

definition encrypt_with_aad ::
    "XChaChaChunkEngine \<Rightarrow> bytes \<Rightarrow> bytes \<Rightarrow> ChunkAad \<Rightarrow> bytes VaultResult" where
  "encrypt_with_aad e drawn_nonce plaintext aad = encrypt_with_nonce e plaintext drawn_nonce aad"

text \<open>The checks before the cipher is used, shared by both decrypt paths.\<close>

definition check_layout :: "bytes \<Rightarrow> unit VaultResult" where
  "check_layout data =
     try_bind (version_of data) (\<lambda>version.
       if \<not> is_xchacha20_poly1305_layout version
       then Inl (Decryption (NotXChaChaLayout (as_byte version)))
       else if length data < XC_OVERHEAD
       then Inl (Decryption (ChunkTooShort (length data) XC_OVERHEAD))
       else Inr ())"

definition decrypt_with_aad :: "XChaChaChunkEngine \<Rightarrow> bytes \<Rightarrow> ChunkAad \<Rightarrow> bytes VaultResult" where
  "decrypt_with_aad e data aad =
     try_bind (check_layout data) (\<lambda>_.
     try_bind (cipher_aad (data ! 0) aad) (\<lambda>caad.
     let nonce = slice data 1 (1 + XC_NONCE_SIZE);
         ct_and_tag = drop (1 + XC_NONCE_SIZE) data
     in ok_or (Decryption AuthenticationFailedAad) (aead_open (xc_cipher e) nonce caad ct_and_tag)))"

text \<open>The raw trait methods bind no identity: the associated data is empty.\<close>

definition xc_encrypt :: "XChaChaChunkEngine \<Rightarrow> bytes \<Rightarrow> bytes \<Rightarrow> bytes VaultResult" where
  "xc_encrypt e drawn_nonce plaintext =
     try_bind (ok_or (Encryption XChaChaEncryptionFailed)
                 (aead_seal (xc_cipher e) drawn_nonce [] plaintext)) (\<lambda>ct_and_tag.
     Inr (emit_version e # drawn_nonce @ ct_and_tag))"

definition xc_decrypt :: "XChaChaChunkEngine \<Rightarrow> bytes \<Rightarrow> bytes VaultResult" where
  "xc_decrypt e data =
     try_bind (check_layout data) (\<lambda>_.
     let nonce = slice data 1 (1 + XC_NONCE_SIZE);
         ct_and_tag = drop (1 + XC_NONCE_SIZE) data
     in ok_or (Decryption AuthenticationFailed) (aead_open (xc_cipher e) nonce [] ct_and_tag))"

definition xc_encrypt_chunk ::
    "XChaChaChunkEngine \<Rightarrow> bytes \<Rightarrow> Chunk \<Rightarrow> ChunkAad \<Rightarrow> bytes VaultResult" where
  "xc_encrypt_chunk e drawn_nonce chunk aad = encrypt_with_aad e drawn_nonce (ck_data chunk) aad"

definition xc_decrypt_chunk :: "XChaChaChunkEngine \<Rightarrow> bytes \<Rightarrow> ChunkAad \<Rightarrow> bytes VaultResult" where
  "xc_decrypt_chunk e encrypted_data aad = decrypt_with_aad e encrypted_data aad"

section \<open>AES-256-GCM engine for passphrase files\<close>

record AesEncryptionEngine =
  aes_cipher :: aead
  aes_key_id :: string

definition AES_NONCE_SIZE :: nat where "AES_NONCE_SIZE = 12"
definition AES_KEY_SIZE :: nat where "AES_KEY_SIZE = 32"

definition aes_engine_new :: "primitives \<Rightarrow> hashes \<Rightarrow> bytes \<Rightarrow> AesEncryptionEngine VaultResult" where
  "aes_engine_new P H key =
     (if length key \<noteq> AES_KEY_SIZE then Inl (Key (AesKeyLength (length key)))
      else try_bind (ok_or (Key CipherInitFailed) (aes_gcm_new P key))
        (\<lambda>cipher. Inr \<lparr>aes_cipher = cipher, aes_key_id = take 16 (compute_hash H key)\<rparr>))"

definition aes_derive_key :: "primitives \<Rightarrow> bytes \<Rightarrow> bytes \<Rightarrow> bytes VaultResult" where
  "aes_derive_key P passphrase salt =
     ok_or (Key KeyDerivationFailed) (argon2id P 65536 3 4 AES_KEY_SIZE passphrase salt)"

definition aes_encrypt :: "AesEncryptionEngine \<Rightarrow> bytes \<Rightarrow> bytes \<Rightarrow> bytes VaultResult" where
  "aes_encrypt e drawn_nonce plaintext =
     try_bind (ok_or (Encryption AesEncryptionFailed)
                 (aead_seal (aes_cipher e) drawn_nonce [] plaintext)) (\<lambda>ciphertext.
     Inr (drawn_nonce @ ciphertext))"

definition aes_decrypt :: "AesEncryptionEngine \<Rightarrow> bytes \<Rightarrow> bytes VaultResult" where
  "aes_decrypt e ciphertext =
     (if length ciphertext < AES_NONCE_SIZE then Inl (Decryption AesMissingNonce)
      else ok_or (Decryption AesDecryptionFailed)
             (aead_open (aes_cipher e) (take AES_NONCE_SIZE ciphertext) [] (drop AES_NONCE_SIZE ciphertext)))"

definition aes_encrypt_chunk ::
    "AesEncryptionEngine \<Rightarrow> bytes \<Rightarrow> Chunk \<Rightarrow> ChunkAad \<Rightarrow> bytes VaultResult" where
  "aes_encrypt_chunk e drawn_nonce chunk aad =
     try_bind (aad_check aad) (\<lambda>_.
     try_bind (ok_or (Encryption AesEncryptionFailed)
                 (aead_seal (aes_cipher e) drawn_nonce (canonical_aad_bytes aad) (ck_data chunk)))
       (\<lambda>ciphertext. Inr (drawn_nonce @ ciphertext)))"

definition aes_decrypt_chunk :: "AesEncryptionEngine \<Rightarrow> bytes \<Rightarrow> ChunkAad \<Rightarrow> bytes VaultResult" where
  "aes_decrypt_chunk e encrypted_data aad =
     (if length encrypted_data < AES_NONCE_SIZE then Inl (Decryption AesMissingNonce)
      else try_bind (aad_check aad) (\<lambda>_.
        ok_or (Decryption AesDecryptionFailed)
          (aead_open (aes_cipher e) (take AES_NONCE_SIZE encrypted_data) (canonical_aad_bytes aad)
            (drop AES_NONCE_SIZE encrypted_data))))"

section \<open>The trait\<close>

text \<open>
  What a caller of \<open>encrypt_chunk\<close> / \<open>decrypt_chunk\<close> may rely on: a sealed chunk opens under
  its own identity; whatever opens is the sealing of the opened plaintext under the identity
  presented, with some nonce; nothing is sealed under an identity that fails \<open>check\<close>; and
  the stored size is the plaintext's plus a constant.
\<close>

locale encryption_engine =
  fixes ok :: "'e \<Rightarrow> bool"
    and nonce_size overhead :: nat
    and seal_chunk :: "'e \<Rightarrow> bytes \<Rightarrow> Chunk \<Rightarrow> ChunkAad \<Rightarrow> bytes VaultResult"
    and open_chunk :: "'e \<Rightarrow> bytes \<Rightarrow> ChunkAad \<Rightarrow> bytes VaultResult"
  assumes open_seal: "ok e \<Longrightarrow> length n = nonce_size \<Longrightarrow> seal_chunk e n c a = Inr blob
      \<Longrightarrow> open_chunk e blob a = Inr (ck_data c)"
    and open_only_sealed: "ok e \<Longrightarrow> open_chunk e blob a = Inr pt \<Longrightarrow> ck_data c = pt
      \<Longrightarrow> \<exists>n. length n = nonce_size \<and> seal_chunk e n c a = Inr blob"
    and seal_checked: "seal_chunk e n c a = Inr blob \<Longrightarrow> aad_check a = Inr ()"
    and seal_length: "ok e \<Longrightarrow> length n = nonce_size \<Longrightarrow> seal_chunk e n c a = Inr blob
      \<Longrightarrow> length blob = length (ck_data c) + overhead"
begin

lemma open_checked:
  assumes "ok e" and "open_chunk e blob a = Inr pt"
  shows "aad_check a = Inr ()"
proof -
  let ?c = "\<lparr>ck_hash = [], ck_data = pt, ck_size = 0, ck_offset = 0\<rparr>"
  have "ck_data ?c = pt" by simp
  from open_only_sealed [OF assms this] show ?thesis by (auto dest: seal_checked)
qed

lemma open_length:
  assumes "ok e" and "open_chunk e blob a = Inr pt"
  shows "length blob = length pt + overhead"
proof -
  let ?c = "\<lparr>ck_hash = [], ck_data = pt, ck_size = 0, ck_offset = 0\<rparr>"
  have "ck_data ?c = pt" by simp
  from open_only_sealed [OF assms this] show ?thesis using assms(1) by (auto dest: seal_length)
qed

text \<open>Sealing a list of chunks, each with its nonce and identity, and opening it again.\<close>

lemma open_all_sealed:
  assumes "ok e"
  shows "list_all2 (\<lambda>(n, c, a) blob. length n = nonce_size \<and> seal_chunk e n c a = Inr blob) xs blobs
    \<Longrightarrow> list_all2 (\<lambda>(n, c, a) blob. open_chunk e blob a = Inr (ck_data c)) xs blobs"
  by (erule list_all2_mono) (auto intro: open_seal [OF assms])

end

end
