(* ===== verification/Pgp_Engine.thy ===== *)
theory Pgp_Engine
  imports Auth_Challenge Chunk_Encryption
begin

text \<open>
  \<open>gitcellar-crypto/src/encryption.rs\<close>: the engine over an OpenPGP identity, which signs
  protocol messages, wraps keys, and derives the repository's chunk keys; and \<open>verify_detached\<close>
  of \<open>broadcast.rs\<close>.

  Sequoia is third-party. A key of a certificate is a \<open>subkey\<close> with the answers of Sequoia's
  key filters; the stream operations are the fields of the parameter \<open>sequoia\<close>, which report the
  stage they fail at and the error text. The callbacks Sequoia makes into this code
  (\<open>helper_decrypt\<close>, \<open>decrypt_check\<close>, \<open>verify_check\<close>) are definitions here. The blocking tasks
  of the parallel helpers are awaited in order, so their result is that of the list in order.
\<close>

section \<open>OpenPGP certificates\<close>

datatype mpi_secret = ECDH bytes | OtherMpi string

datatype secret_key_material = Unencrypted mpi_secret | Encrypted

record subkey =
  sk_id :: nat
  sk_valid :: bool
  sk_supported :: bool
  sk_alive :: bool
  sk_revoked :: bool
  sk_transport :: bool
  sk_storage :: bool
  sk_signing :: bool
  sk_secret :: "secret_key_material option"

record Identity =
  id_keys :: "subkey list"
  id_fingerprint :: string
  id_user :: string

datatype MessageLayer = EncryptionLayer | CompressionLayer | SignatureGroup "bool list"

datatype stream_stage = ArmorWriter | EncryptorBuild | LiteralBuild | WriteAll | Finalize
  | SignerNew | SignerBuild | ParseMessage | WithPolicy | ReadAll

text \<open>
  \<open>parse_cert\<close> is \<open>Cert::from_bytes\<close>; \<open>verifier_builds c sig\<close> tells whether the detached
  verifier for the signature can be built, \<open>structure_of c sig data\<close> the message structure it
  hands to \<open>check\<close> (\<open>None\<close> when reading fails); \<open>into_keypair\<close> opens the secret of a subkey;
  \<open>run_decryptor\<close> takes the two callbacks of the decryption helper.
\<close>

type_synonym pkesk = nat
type_synonym session = nat

record sequoia =
  parse_cert :: "bytes \<Rightarrow> string + bytes"
  verifier_builds :: "bytes \<Rightarrow> bytes \<Rightarrow> bool"
  structure_of :: "bytes \<Rightarrow> bytes \<Rightarrow> bytes \<Rightarrow> MessageLayer list option"
  into_keypair :: "subkey \<Rightarrow> string + nat"
  detached_sign :: "nat \<Rightarrow> bytes \<Rightarrow> (stream_stage \<times> string) + bytes"
  encrypt_stream :: "subkey list \<Rightarrow> bytes \<Rightarrow> (stream_stage \<times> string) + bytes"
  pkesk_decrypt :: "pkesk \<Rightarrow> nat \<Rightarrow> session option"
  run_decryptor :: "(pkesk list \<Rightarrow> (session \<Rightarrow> bool) \<Rightarrow> string + unit) \<Rightarrow>
    (MessageLayer list \<Rightarrow> string + unit) \<Rightarrow> bytes \<Rightarrow> (stream_stage \<times> string) + bytes"
  b64_encode :: "bytes \<Rightarrow> string"
  b64_decode :: "string \<Rightarrow> string + bytes"

section \<open>Detached signatures\<close>

text \<open>\<open>check\<close> of the verification helper: the first good signature of any signature group.\<close>

fun verify_check :: "MessageLayer list \<Rightarrow> string + unit" where
  "verify_check [] = Inl ''no valid signature over the provided data''"
| "verify_check (SignatureGroup results # layers) =
     (if list_ex (\<lambda>ok. ok) results then Inr () else verify_check layers)"
| "verify_check (_ # layers) = verify_check layers"

definition verify_detached :: "sequoia \<Rightarrow> string \<Rightarrow> bytes \<Rightarrow> bytes \<Rightarrow> bool CryptoResult" where
  "verify_detached X armored_public_key dat sig =
     try_bind (map_err (\<lambda>e. CryptoError.OpenPgp (''parse broadcast public key: '' @ e))
                 (parse_cert X (as_bytes armored_public_key))) (\<lambda>cert.
     if \<not> verifier_builds X cert sig then Inr False
     else Inr (case structure_of X cert sig dat of
                 None \<Rightarrow> False
               | Some layers \<Rightarrow> verify_check layers = Inr ()))"

section \<open>The engine\<close>

record EncryptionEngine =
  en_identity :: Identity
  en_key_version :: "u32 option"

definition live_secret :: "(subkey \<Rightarrow> bool) \<Rightarrow> subkey \<Rightarrow> bool" where
  "live_secret usage k \<longleftrightarrow> sk_valid k \<and> sk_supported k \<and> sk_alive k \<and> \<not> sk_revoked k \<and> usage k
     \<and> sk_secret k \<noteq> None"

definition has_encryption_key :: "Identity \<Rightarrow> bool" where
  "has_encryption_key i \<longleftrightarrow> filter (live_secret sk_transport) (id_keys i) \<noteq> []"

definition has_signing_key :: "Identity \<Rightarrow> bool" where
  "has_signing_key i \<longleftrightarrow> filter (live_secret sk_signing) (id_keys i) \<noteq> []"

definition key_id_of :: "Identity \<Rightarrow> string" where
  "key_id_of i =
     (let fp = id_fingerprint i
      in if 16 \<le> length fp then drop (length fp - 16) fp else fp)"

definition pgp_engine_new :: "Identity \<Rightarrow> EncryptionEngine CryptoResult" where
  "pgp_engine_new i =
     (if \<not> has_encryption_key i then Inl NoEncryptionKey
      else Inr \<lparr>en_identity = i, en_key_version = None\<rparr>)"

text \<open>The user ids of a certificate, \<open>None\<close> for one that is not UTF-8.\<close>

definition pgp_from_cert :: "subkey list \<Rightarrow> string \<Rightarrow> string option list \<Rightarrow> EncryptionEngine CryptoResult" where
  "pgp_from_cert keys fp userids =
     (let user_id = (case userids of Some u # _ \<Rightarrow> u | _ \<Rightarrow> ''unknown'')
      in Inr \<lparr>en_identity = \<lparr>id_keys = keys, id_fingerprint = fp, id_user = user_id\<rparr>,
              en_key_version = None\<rparr>)"

definition with_key_version :: "EncryptionEngine \<Rightarrow> u32 \<Rightarrow> EncryptionEngine" where
  "with_key_version E v = E\<lparr>en_key_version := Some v\<rparr>"

definition batch_key_version :: "EncryptionEngine \<Rightarrow> u32 CryptoResult" where
  "batch_key_version E =
     (case en_key_version E of
        Some v \<Rightarrow>
          if v \<ge> 1 then Inr v
          else Inl (CryptoError.Encryption (''invalid repository key version '' @ nat_to_string (unat v)))
      | None \<Rightarrow> Inl (CryptoError.Encryption
          (''this engine has no repository key version; build it with ''
           @ ''EncryptionEngine::with_key_version before batch-sealing chunks'')))"

section \<open>Key wrapping\<close>

definition encrypt_data :: "sequoia \<Rightarrow> EncryptionEngine \<Rightarrow> bytes \<Rightarrow> bytes CryptoResult" where
  "encrypt_data X E dat =
     (let recipients = filter (\<lambda>k. sk_valid k \<and> sk_supported k \<and> sk_alive k \<and> \<not> sk_revoked k
                                   \<and> sk_transport k) (id_keys (en_identity E))
      in if recipients = [] then Inl NoEncryptionKey
         else map_err (\<lambda>(stage, e). CryptoError.Encryption
                ((case stage of ArmorWriter \<Rightarrow> ''Failed to create armor writer: ''
                  | EncryptorBuild \<Rightarrow> ''Failed to create encryptor: ''
                  | LiteralBuild \<Rightarrow> ''Failed to create literal writer: ''
                  | WriteAll \<Rightarrow> ''Failed to write data: ''
                  | _ \<Rightarrow> ''Failed to finalize: '') @ e))
              (encrypt_stream X recipients dat))"

text \<open>\<open>decrypt\<close> of the helper: every session-key packet under every secret decryption subkey,
  revoked and expired ones included, until a session key opens the message. Sequoia's
  \<open>for_transport_encryption().for_storage_encryption()\<close> admits a key with either flag.\<close>

fun try_keys :: "sequoia \<Rightarrow> (session \<Rightarrow> bool) \<Rightarrow> pkesk \<Rightarrow> subkey list \<Rightarrow> string + bool" where
  "try_keys X opens p [] = Inr False"
| "try_keys X opens p (k # ks) =
     try_bind (map_err (\<lambda>e. ''Failed to create keypair: '' @ e) (into_keypair X k)) (\<lambda>keypair.
     case pkesk_decrypt X p keypair of
       Some s \<Rightarrow> if opens s then Inr True else try_keys X opens p ks
     | None \<Rightarrow> try_keys X opens p ks)"

fun helper_decrypt ::
    "sequoia \<Rightarrow> subkey list \<Rightarrow> pkesk list \<Rightarrow> (session \<Rightarrow> bool) \<Rightarrow> string + unit" where
  "helper_decrypt X keys [] opens = Inl ''Failed to decrypt: no matching secret key found''"
| "helper_decrypt X keys (p # ps) opens =
     try_bind (try_keys X opens p
        (filter (\<lambda>k. sk_valid k \<and> sk_supported k \<and> (sk_transport k \<or> sk_storage k)
                     \<and> sk_secret k \<noteq> None) keys))
       (\<lambda>found. if found then Inr () else helper_decrypt X keys ps opens)"

text \<open>\<open>check\<close> of the helper: a signature layer on an encrypt-only payload is refused.\<close>

fun decrypt_check :: "MessageLayer list \<Rightarrow> string + unit" where
  "decrypt_check [] = Inr ()"
| "decrypt_check (EncryptionLayer # layers) = decrypt_check layers"
| "decrypt_check (CompressionLayer # layers) = decrypt_check layers"
| "decrypt_check (SignatureGroup _ # layers) =
     Inl (''unexpected OpenPGP signature layer on an encryption-only key-grant payload; ''
          @ ''this path verifies confidentiality, not signatures'')"

definition decrypt_data :: "sequoia \<Rightarrow> EncryptionEngine \<Rightarrow> bytes \<Rightarrow> bytes CryptoResult" where
  "decrypt_data X E encrypted_data =
     map_err (\<lambda>(stage, e). CryptoError.Decryption
        ((case stage of ParseMessage \<Rightarrow> ''Failed to parse message: ''
          | WithPolicy \<Rightarrow> ''Failed to create decryptor: ''
          | _ \<Rightarrow> ''Failed to read decrypted data: '') @ e))
       (run_decryptor X (helper_decrypt X (id_keys (en_identity E))) decrypt_check encrypted_data)"

section \<open>Signing\<close>

definition sign_data :: "sequoia \<Rightarrow> EncryptionEngine \<Rightarrow> bytes \<Rightarrow> bytes CryptoResult" where
  "sign_data X E dat =
     (let signing_kas = filter (live_secret sk_signing) (id_keys (en_identity E))
      in if 1 < length signing_kas
         then Inl (CryptoError.Other
           (''ambiguous cert: '' @ nat_to_string (length signing_kas)
            @ '' live, unrevoked signing subkeys with secret material (expected exactly 1) ''
            @ em_dash @ '' refusing to sign, as the choice would be ''
            @ ''order-dependent and silently change which key signs across a rotation''))
         else case signing_kas of
           [] \<Rightarrow> Inl NoSigningKey
         | k # _ \<Rightarrow>
             try_bind (map_err (\<lambda>e. CryptoError.Other (''Failed to create keypair: '' @ e))
                         (into_keypair X k)) (\<lambda>signing_keypair.
             map_err (\<lambda>(stage, e). CryptoError.Other
                 ((case stage of SignerNew \<Rightarrow> ''Failed to create signer: ''
                   | SignerBuild \<Rightarrow> ''Failed to create signer: ''
                   | WriteAll \<Rightarrow> ''Failed to write data: ''
                   | _ \<Rightarrow> ''Failed to finalize: '') @ e))
               (detached_sign X signing_keypair dat)))"

definition sign_auth_challenge ::
    "sequoia \<Rightarrow> EncryptionEngine \<Rightarrow> ChallengePurpose \<Rightarrow> string \<Rightarrow> bytes CryptoResult" where
  "sign_auth_challenge X E purpose challenge =
     try_bind (map_err from_passkey_error (challenge_signing_payload purpose challenge))
       (sign_data X E)"

section \<open>Repository keys\<close>

text \<open>The third-party and textual environment of the derivations: primitives, hashes, the text
  of a vault-core message and of an HKDF length error.\<close>

record env =
  ev_prim :: primitives
  ev_hash :: hashes
  ev_msg_text :: "msg \<Rightarrow> string"
  ev_hkdf_error :: string

definition vault_error_text :: "env \<Rightarrow> VaultError \<Rightarrow> string" where
  "vault_error_text V e =
     (case e of
        VaultError.Chunking m \<Rightarrow> ''Chunking error: ''
      | VaultError.Encryption m \<Rightarrow> ''Encryption error: ''
      | VaultError.Decryption m \<Rightarrow> ''Decryption error: ''
      | VaultError.Key m \<Rightarrow> ''Key error: ''
      | VaultError.Storage m \<Rightarrow> ''Storage error: ''
      | VaultError.Network m \<Rightarrow> ''Network error: ''
      | VaultError.Config m \<Rightarrow> ''Configuration error: ''
      | VaultError.Io m \<Rightarrow> ''I/O error: ''
      | VaultError.InvalidArgument m \<Rightarrow> ''Invalid argument: ''
      | VaultError.NotSupported m \<Rightarrow> ''Not supported: ''
      | VaultError.Internal m \<Rightarrow> ''Internal error: '') @ ev_msg_text V (error_message e)"

definition K_REPO_INFO :: bytes where "K_REPO_INFO = as_bytes ''gitcellar/krepo/v2''"
definition E1_ID_KEY_INFO :: bytes where "E1_ID_KEY_INFO = as_bytes ''gitcellar/chunk-name/v1''"
definition E1_BOUNDARY_KEY_INFO :: bytes where
  "E1_BOUNDARY_KEY_INFO = as_bytes ''gitcellar/cdc-boundary/v1''"
definition OBJECT_KEY_PREFIX_INFO :: bytes where
  "OBJECT_KEY_PREFIX_INFO = as_bytes ''gitcellar/object-key-prefix/v1''"

definition derive_k_repo :: "env \<Rightarrow> EncryptionEngine \<Rightarrow> bytes CryptoResult" where
  "derive_k_repo V E =
     (let kas = filter (live_secret sk_transport) (id_keys (en_identity E))
      in if 1 < length kas
         then Inl (CryptoError.Encryption
           (''ambiguous repo cert: '' @ nat_to_string (length kas)
            @ '' live, unrevoked transport-encryption subkeys with secret material (expected exactly 1) ''
            @ em_dash @ '' refusing to derive K_repo, as the ''
            @ ''choice would be order-dependent and diverge between parties''))
         else case kas of
           [] \<Rightarrow> Inl NoEncryptionKey
         | ka # _ \<Rightarrow>
             try_bind (case sk_secret ka of
                 Some (Unencrypted (ECDH scalar)) \<Rightarrow> Inr scalar
               | Some (Unencrypted (OtherMpi other)) \<Rightarrow>
                   Inl (CryptoError.Encryption
                     (''repo encryption subkey secret is not ECDH: '' @ other))
               | Some Encrypted \<Rightarrow>
                   Inl (CryptoError.Encryption
                     ''repo encryption subkey secret is password-encrypted; cannot derive content key'')
               | None \<Rightarrow> Inl NoEncryptionKey) (\<lambda>scalar.
             ok_or (CryptoError.Encryption
                     (''K_repo HKDF-SHA256 expand failed: '' @ ev_hkdf_error V))
               (hkdf_sha256 (ev_prim V) None scalar K_REPO_INFO 32)))"

definition derive_e1_key :: "env \<Rightarrow> bytes \<Rightarrow> bytes \<Rightarrow> bytes CryptoResult" where
  "derive_e1_key V k_repo info =
     ok_or (CryptoError.Encryption (''sub-key HKDF-SHA256 expand failed: '' @ ev_hkdf_error V))
       (hkdf_sha256 (ev_prim V) None k_repo info 32)"

definition chunk_keying :: "env \<Rightarrow> EncryptionEngine \<Rightarrow> ChunkKeying CryptoResult" where
  "chunk_keying V E =
     try_bind (derive_k_repo V E) (\<lambda>k_repo.
     try_bind (derive_e1_key V k_repo E1_ID_KEY_INFO) (\<lambda>id_key.
     try_bind (derive_e1_key V k_repo E1_BOUNDARY_KEY_INFO) (\<lambda>boundary_key.
     Inr (keying_derive (ev_hash V) boundary_key id_key))))"

definition object_key_prefix_hex :: "env \<Rightarrow> bytes \<Rightarrow> string \<Rightarrow> string" where
  "object_key_prefix_hex V prefix_key repo_id =
     hex_encode (hmac_sha256 (ev_hash V) prefix_key (as_bytes repo_id))"

definition derive_object_key_prefix :: "env \<Rightarrow> EncryptionEngine \<Rightarrow> string \<Rightarrow> string CryptoResult" where
  "derive_object_key_prefix V E uid =
     try_bind (derive_k_repo V E) (\<lambda>k_repo.
     try_bind (derive_e1_key V k_repo OBJECT_KEY_PREFIX_INFO) (\<lambda>id_key.
     Inr (object_key_prefix_hex V id_key uid)))"

section \<open>Chunks\<close>

definition chunk_engine :: "env \<Rightarrow> EncryptionEngine \<Rightarrow> XChaChaChunkEngine CryptoResult" where
  "chunk_engine V E =
     try_bind (derive_k_repo V E) (\<lambda>k_repo.
     map_err (\<lambda>e. CryptoError.Encryption (''chunk cipher init failed: '' @ vault_error_text V e))
       (xchacha_engine_new (ev_prim V) (ev_hash V) k_repo))"

definition chunk_engine_e1 :: "env \<Rightarrow> EncryptionEngine \<Rightarrow> XChaChaChunkEngine CryptoResult" where
  "chunk_engine_e1 V E =
     try_bind (derive_k_repo V E) (\<lambda>k_repo.
     map_err (\<lambda>e. CryptoError.Encryption
                 (''keyed-pipeline chunk cipher init failed: '' @ vault_error_text V e))
       (try_bind (xchacha_engine_new (ev_prim V) (ev_hash V) k_repo)
         (\<lambda>e. with_format_version e RepoUidKeyVersionV3)))"

definition content_chunk_aad :: "env \<Rightarrow> string \<Rightarrow> u32 \<Rightarrow> Chunk \<Rightarrow> ChunkAad CryptoResult" where
  "content_chunk_aad V uid kv chunk =
     map_err (\<lambda>e. CryptoError.Encryption (''chunk AAD refused: '' @ vault_error_text V e))
       (aad_content uid (ck_hash chunk) kv (word_of_nat (ck_size chunk)))"

text \<open>Each sealing draws a nonce; the batch helpers draw one per chunk.\<close>

definition encrypt_chunk_e1 :: "env \<Rightarrow> EncryptionEngine \<Rightarrow> bytes \<Rightarrow> Chunk \<Rightarrow> ChunkAad \<Rightarrow> bytes CryptoResult" where
  "encrypt_chunk_e1 V E drawn_nonce chunk aad =
     try_bind (chunk_engine_e1 V E) (\<lambda>engine.
     map_err (\<lambda>e. CryptoError.Encryption
                 (''keyed-pipeline chunk encryption failed: '' @ vault_error_text V e))
       (encrypt_with_aad engine drawn_nonce (ck_data chunk) aad))"

definition encrypt_chunk :: "env \<Rightarrow> EncryptionEngine \<Rightarrow> bytes \<Rightarrow> Chunk \<Rightarrow> ChunkAad \<Rightarrow> bytes CryptoResult" where
  "encrypt_chunk V E drawn_nonce chunk aad =
     try_bind (chunk_engine V E) (\<lambda>engine.
     map_err (\<lambda>e. CryptoError.Encryption
                 (''Chunk encryption failed: '' @ vault_error_text V e))
       (encrypt_with_aad engine drawn_nonce (ck_data chunk) aad))"

definition decrypt_chunk :: "env \<Rightarrow> EncryptionEngine \<Rightarrow> bytes \<Rightarrow> ChunkAad \<Rightarrow> bytes CryptoResult" where
  "decrypt_chunk V E encrypted_data aad =
     try_bind (chunk_engine V E) (\<lambda>engine.
     map_err (\<lambda>e. CryptoError.Decryption
                 (''Chunk decryption failed: '' @ vault_error_text V e))
       (decrypt_with_aad engine encrypted_data aad))"

definition encrypt_chunks_e1_parallel ::
    "env \<Rightarrow> EncryptionEngine \<Rightarrow> string \<Rightarrow> (bytes \<times> Chunk) list \<Rightarrow> bytes list CryptoResult" where
  "encrypt_chunks_e1_parallel V E uid chunks =
     try_bind (batch_key_version E) (\<lambda>kv.
     try_bind (chunk_engine_e1 V E) (\<lambda>engine.
     try_bind (try_map (\<lambda>(n, chunk). try_bind (content_chunk_aad V uid kv chunk)
                                       (\<lambda>aad. Inr (n, ck_data chunk, aad))) chunks) (\<lambda>tasks.
     try_map (\<lambda>(n, dat, aad). map_err (\<lambda>e. CryptoError.Encryption
                 (''keyed-pipeline chunk encryption failed: '' @ vault_error_text V e))
                 (encrypt_with_aad engine n dat aad)) tasks)))"

definition encrypt_chunks_parallel ::
    "env \<Rightarrow> EncryptionEngine \<Rightarrow> string \<Rightarrow> (bytes \<times> Chunk) list \<Rightarrow> bytes list CryptoResult" where
  "encrypt_chunks_parallel V E uid chunks =
     try_bind (batch_key_version E) (\<lambda>kv.
     try_bind (chunk_engine V E) (\<lambda>engine.
     try_bind (try_map (\<lambda>(n, chunk). try_bind (content_chunk_aad V uid kv chunk)
                                       (\<lambda>aad. Inr (n, ck_data chunk, aad))) chunks) (\<lambda>tasks.
     try_map (\<lambda>(n, dat, aad). map_err (\<lambda>e. CryptoError.Encryption
                 (''Chunk encryption failed: '' @ vault_error_text V e))
                 (encrypt_with_aad engine n dat aad)) tasks)))"

definition decrypt_chunks_parallel ::
    "env \<Rightarrow> EncryptionEngine \<Rightarrow> bytes list \<Rightarrow> ChunkAad list \<Rightarrow> bytes list CryptoResult" where
  "decrypt_chunks_parallel V E encrypted_chunks aads =
     (if length encrypted_chunks \<noteq> length aads
      then Inl (CryptoError.Decryption
        (''chunk/AAD count mismatch: '' @ nat_to_string (length encrypted_chunks)
         @ '' chunks but '' @ nat_to_string (length aads) @ '' identities''))
      else try_bind (chunk_engine V E) (\<lambda>engine.
        try_map (\<lambda>(blob, aad). map_err (\<lambda>e. CryptoError.Decryption
                    (''Chunk decryption failed: '' @ vault_error_text V e))
                    (decrypt_with_aad engine blob aad)) (zip encrypted_chunks aads)))"

end
