(* ===== verification/Phrase.thy ===== *)
theory Phrase
  imports Text
begin

text \<open>
  Phrases of words: how \<open>split_whitespace\<close> and \<open>join\<close> undo each other on the ASCII phrases of
  the BIP39 word list. \<open>master.rs\<close> and \<open>recovery/mod.rs\<close> both normalize a phrase by them.
\<close>

lemma split_at_join:
  assumes "ws \<noteq> []" and "p s" and "\<forall>w \<in> set ws. list_all (\<lambda>c. \<not> p c) w"
  shows "split_at p (join [s] ws) = ws"
proof -
  have one: "list_all (\<lambda>c. \<not> p c) w \<Longrightarrow> split_at p w = [w]" for w
    by (induction w) auto
  have cons: "list_all (\<lambda>c. \<not> p c) w \<Longrightarrow> split_at p (w @ s # r) = w # split_at p r" for w r
    by (induction w) (auto simp: assms(2))
  show ?thesis
    using assms(1,3)
  proof (induction ws)
    case Nil
    then show ?case by simp
  next
    case (Cons w ws)
    then show ?case by (cases ws) (auto simp: one cons)
  qed
qed

lemma split_at_not_Nil: "split_at p cs \<noteq> []"
  by (induction cs) (auto split: list.split)

lemma split_at_no_sep: "w \<in> set (split_at p cs) \<Longrightarrow> c \<in> set w \<Longrightarrow> \<not> p c \<and> c \<in> set cs"
proof (induction cs arbitrary: w)
  case Nil
  then show ?case by simp
next
  case (Cons a cs)
  show ?case
  proof (cases "p a")
    case True
    with Cons show ?thesis by auto
  next
    case False
    obtain x xs where x: "split_at p cs = x # xs"
      by (cases "split_at p cs") (simp_all add: split_at_not_Nil)
    show ?thesis using Cons.IH [of x] Cons.IH [of w] Cons.prems False x by auto
  qed
qed

lemma split_at_map: "(\<And>c. c \<in> set cs \<Longrightarrow> q (f c) = p c) \<Longrightarrow> split_at q (map f cs) = map (map f) (split_at p cs)"
  by (induction cs) (auto split: list.split)

lemma split_whitespace_ascii:
  "list_all is_ascii s \<Longrightarrow> split_whitespace U s = filter (\<lambda>w. w \<noteq> []) (split_at ascii_ws s)"
proof -
  assume ascii: "list_all is_ascii s"
  have "split_at (is_whitespace U) (map (\<lambda>c. [c]) s) = map (map (\<lambda>c. [c])) (split_at ascii_ws s)"
    using ascii by (intro split_at_map) (simp add: list_all_iff)
  then show ?thesis
    by (simp add: split_whitespace_def utf8_chars_ascii [OF ascii] filter_map comp_def)
qed

text \<open>The words of a phrase, lower case: what the derivation reads of it.\<close>

definition phrase_words :: "string \<Rightarrow> string list" where
  "phrase_words s = filter (\<lambda>w. w \<noteq> []) (split_at ascii_ws (map ascii_lower s))"

lemma list_all_ascii_lower: "list_all is_ascii s \<Longrightarrow> list_all is_ascii (map ascii_lower s)"
  by (simp add: list_all_iff is_ascii_lower)

lemma join_set: "c \<in> set (join sep ws) \<Longrightarrow> c \<in> set sep \<or> (\<exists>w \<in> set ws. c \<in> set w)"
  by (induction sep ws rule: join.induct) auto

lemma phrase_words_chars:
  assumes "w \<in> set (phrase_words s)" and "c \<in> set w"
  shows "\<not> ascii_ws c \<and> ascii_lower c = c \<and> (list_all is_ascii s \<longrightarrow> is_ascii c)"
proof -
  from assms have "\<not> ascii_ws c" "c \<in> set (map ascii_lower s)"
    using split_at_no_sep [of w ascii_ws "map ascii_lower s" c] by (auto simp: phrase_words_def)
  then show ?thesis by (auto simp: list_all_iff is_ascii_lower)
qed

lemma phrase_words_join: "phrase_words (join '' '' (phrase_words s)) = phrase_words s"
proof (cases "phrase_words s = []")
  case True
  then show ?thesis by (simp add: phrase_words_def)
next
  case False
  have lower: "map ascii_lower (join '' '' (phrase_words s)) = join '' '' (phrase_words s)"
    using join_set [of _ "'' ''" "phrase_words s"] phrase_words_chars [of _ s]
    by (intro map_idI) (fastforce simp: ascii_lower_def code_of_def)
  have "split_at ascii_ws (join '' '' (phrase_words s)) = phrase_words s"
    using phrase_words_chars [of _ s]
    by (intro split_at_join [OF False]) (auto simp: ascii_ws_def code_of_def list_all_iff)
  moreover have "filter (\<lambda>w. w \<noteq> []) (phrase_words s) = phrase_words s"
    by (simp add: phrase_words_def)
  ultimately show ?thesis by (simp add: phrase_words_def [of "join '' '' (phrase_words s)"] lower)
qed

text \<open>Words under any layout of white space.\<close>

definition ascii_words :: "string \<Rightarrow> string list" where
  "ascii_words s = filter (\<lambda>w. w \<noteq> []) (split_at ascii_ws s)"

lemma split_at_append: "p d \<Longrightarrow> split_at p (a @ d # b) = split_at p a @ split_at p b"
  by (induction a) (auto split: list.split simp: split_at_not_Nil)

lemma ascii_words_append: "ascii_ws d \<Longrightarrow> ascii_words (a @ d # b) = ascii_words a @ ascii_words b"
  by (simp add: ascii_words_def split_at_append)

lemma ascii_words_join: "ascii_ws d \<Longrightarrow> ascii_words (join [d] ws) = concat (map ascii_words ws)"
  by (induction "[d]" ws rule: join.induct) (simp_all add: ascii_words_append, simp add: ascii_words_def)

definition plain_word :: "string \<Rightarrow> bool" where
  "plain_word w \<longleftrightarrow> w \<noteq> [] \<and> list_all (\<lambda>c. is_ascii c \<and> \<not> ascii_ws c \<and> ascii_lower c = c) w"

lemma ascii_words_plain: "plain_word w \<Longrightarrow> ascii_words w = [w]"
proof -
  have "list_all (\<lambda>c. \<not> ascii_ws c) w \<Longrightarrow> split_at ascii_ws w = [w]" for w
    by (induction w) auto
  then show "plain_word w \<Longrightarrow> ascii_words w = [w]"
    by (simp add: plain_word_def ascii_words_def list_all_iff)
qed

lemma ascii_words_plain_join:
  "ascii_ws d \<Longrightarrow> list_all plain_word ws \<Longrightarrow> ascii_words (join [d] ws) = ws"
proof -
  assume d: "ascii_ws d" and ws: "list_all plain_word ws"
  from ws have "concat (map ascii_words ws) = ws"
    by (induction ws) (simp_all add: ascii_words_plain)
  with d show ?thesis by (simp add: ascii_words_join)
qed

text \<open>\<open>xs.chunks(k)\<close>, which panics for \<open>k = 0\<close>.\<close>

function chunks :: "nat \<Rightarrow> 'a list \<Rightarrow> 'a list list" where
  "chunks k xs = (if xs = [] \<or> k = 0 then [] else take k xs # chunks k (drop k xs))"
  by pat_completeness auto
termination by (relation "measure (\<lambda>(k, xs). length xs)") auto

declare chunks.simps [simp del]

lemma concat_chunks [simp]: "0 < k \<Longrightarrow> concat (chunks k xs) = xs"
  by (induction k xs rule: chunks.induct) (subst chunks.simps, simp)

lemma set_chunks: "ys \<in> set (chunks k xs) \<Longrightarrow> set ys \<subseteq> set xs"
proof (induction k xs rule: chunks.induct)
  case (1 k xs)
  then show ?case
    by (subst (asm) chunks.simps) (auto split: if_splits dest: in_set_takeD in_set_dropD)
qed

end
