(* ===== verification/Master.thy ===== *)
theory Master
  imports Pgp_Engine Phrase
begin

text \<open>
  \<open>gitcellar-crypto/src/master.rs\<close>: the Ed25519 master key of an account, derived from the
  recovery phrase, and signature verification under a public key.

  \<open>ed25519-dalek\<close> and \<open>bip39\<close> are third-party: the parameter \<open>ed25519\<close> has the public key of a
  32-byte secret, signing, the parsing of a public key, strict and plain verification, and the
  seed of a normalized mnemonic. Zeroing of memory is visible only where a function overwrites
  its caller's buffer, which \<open>from_secret_bytes\<close> returns.
\<close>

record ed25519 =
  ed_public :: "bytes \<Rightarrow> bytes"
  ed_sign :: "bytes \<Rightarrow> bytes \<Rightarrow> bytes"
  ed_parse :: "bytes \<Rightarrow> string + unit"
  ed_verify_strict :: "bytes \<Rightarrow> bytes \<Rightarrow> bytes \<Rightarrow> bool"
  ed_verify :: "bytes \<Rightarrow> bytes \<Rightarrow> bytes \<Rightarrow> bool"
  bip39_seed :: "string \<Rightarrow> string + bytes"

datatype MasterKeyError =
    InvalidPhrase string
  | Hkdf string
  | MasterInvalidPublicKey string
  | MasterSignatureFailed

definition DERIVATION_INFO :: bytes where
  "DERIVATION_INFO = as_bytes ''gitcellar-master-v1''"

definition MASTER_VERSION :: u32 where
  "MASTER_VERSION = 1"

record MaterializedMaster =
  secret_bytes :: bytes
  public_key :: bytes

definition normalize_phrase :: "unicode \<Rightarrow> string \<Rightarrow> string" where
  "normalize_phrase U phrase = join '' '' (split_whitespace U (to_lowercase U phrase))"

definition from_phrase :: "ed25519 \<Rightarrow> env \<Rightarrow> unicode \<Rightarrow> string \<Rightarrow> MasterKeyError + MaterializedMaster" where
  "from_phrase D V U phrase =
     try_bind (map_err InvalidPhrase (bip39_seed D (normalize_phrase U phrase))) (\<lambda>seed.
     try_bind (ok_or (Hkdf (ev_hkdf_error V))
        (hkdf_sha256 (ev_prim V) None seed DERIVATION_INFO 32)) (\<lambda>secret.
     Inr \<lparr>secret_bytes = secret, public_key = ed_public D secret\<rparr>))"

definition from_secret_bytes :: "ed25519 \<Rightarrow> bytes \<Rightarrow> (MasterKeyError + MaterializedMaster) \<times> bytes" where
  "from_secret_bytes D buffer =
     (Inr \<lparr>secret_bytes = buffer, public_key = ed_public D buffer\<rparr>, replicate (length buffer) 0)"

definition master_sign :: "ed25519 \<Rightarrow> MaterializedMaster \<Rightarrow> bytes \<Rightarrow> bytes" where
  "master_sign D m msg = ed_sign D (secret_bytes m) msg"

definition verify_with_verifying_key :: "ed25519 \<Rightarrow> bytes \<Rightarrow> bytes \<Rightarrow> bytes \<Rightarrow> MasterKeyError + unit" where
  "verify_with_verifying_key D verifying_key msg sig =
     (if ed_verify_strict D verifying_key msg sig then Inr () else Inl MasterSignatureFailed)"

definition verify_loose :: "ed25519 \<Rightarrow> bytes \<Rightarrow> bytes \<Rightarrow> bytes \<Rightarrow> MasterKeyError + unit" where
  "verify_loose D verifying_key msg sig =
     (if ed_verify D verifying_key msg sig then Inr () else Inl MasterSignatureFailed)"

definition verify_with_pubkey :: "ed25519 \<Rightarrow> bytes \<Rightarrow> bytes \<Rightarrow> bytes \<Rightarrow> MasterKeyError + unit" where
  "verify_with_pubkey D pubkey msg sig =
     try_bind (map_err MasterInvalidPublicKey (ed_parse D pubkey)) (\<lambda>_.
       if ed_verify_strict D pubkey msg sig then Inr () else Inl MasterSignatureFailed)"

section \<open>The scheme\<close>

text \<open>What is asked of the library: a key made from a secret parses, and its signatures verify.\<close>

definition ed25519_ok :: "ed25519 \<Rightarrow> bool" where
  "ed25519_ok D \<longleftrightarrow> (\<forall>sk. ed_parse D (ed_public D sk) = Inr ()
     \<and> (\<forall>m. ed_verify_strict D (ed_public D sk) m (ed_sign D sk m)))"

definition ed_pairs :: "ed25519 \<times> bytes \<Rightarrow> ed25519 \<times> bytes \<Rightarrow> bool" where
  "ed_pairs k p \<longleftrightarrow> fst k = fst p \<and> ed25519_ok (fst k) \<and> snd p = ed_public (fst k) (snd k)"

definition ed_signs :: "ed25519 \<times> bytes \<Rightarrow> bytes \<Rightarrow> MasterKeyError + bytes" where
  "ed_signs k m = Inr (ed_sign (fst k) (snd k) m)"

definition ed_accepts :: "ed25519 \<times> bytes \<Rightarrow> bytes \<Rightarrow> bytes \<Rightarrow> bool" where
  "ed_accepts p m s \<longleftrightarrow> verify_with_pubkey (fst p) (snd p) m s = Inr ()"

lemma verify_with_pubkey_eq_Inr:
  "verify_with_pubkey D pk m s = Inr () \<longleftrightarrow> ed_parse D pk = Inr () \<and> ed_verify_strict D pk m s"
  by (simp add: verify_with_pubkey_def try_bind_eq_Inr)

interpretation ed25519: signature_scheme ed_pairs ed_signs ed_accepts
  by unfold_locales
     (auto simp: ed_pairs_def ed_signs_def ed_accepts_def verify_with_pubkey_eq_Inr ed25519_ok_def)

definition master_wf :: "ed25519 \<Rightarrow> MaterializedMaster \<Rightarrow> bool" where
  "master_wf D m \<longleftrightarrow> public_key m = ed_public D (secret_bytes m)"

lemma from_phrase_wf: "from_phrase D V U p = Inr m \<Longrightarrow> master_wf D m"
  by (auto simp: from_phrase_def try_bind_eq_Inr master_wf_def)

lemma from_secret_bytes_wf: "fst (from_secret_bytes D b) = Inr m \<Longrightarrow> master_wf D m"
  by (auto simp: from_secret_bytes_def master_wf_def)

lemma master_sign_verifies:
  "ed25519_ok D \<Longrightarrow> master_wf D m \<Longrightarrow>
     verify_with_pubkey D (public_key m) msg (master_sign D m msg) = Inr ()"
  by (simp add: verify_with_pubkey_eq_Inr ed25519_ok_def master_wf_def master_sign_def)

section \<open>Phrases\<close>

lemma normalize_phrase_ascii:
  "list_all is_ascii s \<Longrightarrow> normalize_phrase U s = join '' '' (phrase_words s)"
  by (simp add: normalize_phrase_def to_lowercase_def phrase_words_def
      split_whitespace_ascii [OF list_all_ascii_lower])

lemma normalize_phrase_idem:
  assumes "list_all is_ascii s"
  shows "normalize_phrase U (normalize_phrase U s) = normalize_phrase U s"
proof -
  have "list_all is_ascii (join '' '' (phrase_words s))"
    using join_set [of _ "'' ''" "phrase_words s"] phrase_words_chars [of _ s] assms
    by (fastforce simp: list_all_iff is_ascii_def code_of_def)
  then show ?thesis by (simp add: normalize_phrase_ascii assms phrase_words_join)
qed

end
