(* ===== verification/Certs.thy ===== *)
theory Certs
  imports Master
begin

text \<open>
  \<open>gitcellar-crypto/src/device_cert.rs\<close> and \<open>revocation_cert.rs\<close>: the certificates of the
  multi-device recovery, signed by the account's master or by one of its devices.

  A \<open>[u8; 32]\<close> is a list of bytes; certificates reach the model through the constructors or the
  CBOR parser, which keep the length. Their CBOR is the parameter \<open>cbor\<close>, which \<open>Cert_Wire\<close> builds
  from the items of the fields and the encoding of \<open>ciborium\<close>. The locale
  \<open>certificate\<close> is the acceptance rule both kinds promise; both are interpretations of it.
\<close>

section \<open>Device certificates\<close>

definition MAX_LABEL_BYTES :: nat where
  "MAX_LABEL_BYTES = 64"

datatype SignerRole = Master | Device

datatype CertError =
    LabelTooLong nat
  | CertSerialization string
  | CertDeserialization string
  | MasterMismatch
  | UnknownSigner
  | SignerRoleMismatch
  | SignatureFailed
  | MasterKey MasterKeyError
  | CertInvalidPublicKey string
  | UnsupportedVersion u32 u32

record DeviceCertificatePayload =
  dc_cert_version :: u32
  dc_device_pubkey :: bytes
  dc_master_pubkey :: bytes
  dc_label :: string
  dc_platform :: string
  dc_enrolled_at :: int
  dc_signer_role :: SignerRole
  dc_signer_pubkey :: bytes

record DeviceCertificate =
  dc_payload :: DeviceCertificatePayload
  dc_signature :: bytes

datatype RevocationReason = UserInitiated | Compromise | DeviceLost | Rotation

record RevocationCertificatePayload =
  rv_cert_version :: u32
  rv_target_device_pubkey :: bytes
  rv_master_pubkey :: bytes
  rv_revoked_at :: int
  rv_reason :: RevocationReason
  rv_signer_role :: SignerRole
  rv_signer_pubkey :: bytes

record RevocationCertificate =
  rv_payload :: RevocationCertificatePayload
  rv_signature :: bytes

record cbor =
  cbor_device_payload :: "DeviceCertificatePayload \<Rightarrow> string + bytes"
  cbor_device :: "DeviceCertificate \<Rightarrow> string + bytes"
  cbor_parse_device :: "bytes \<Rightarrow> string + DeviceCertificate"
  cbor_revocation_payload :: "RevocationCertificatePayload \<Rightarrow> string + bytes"
  cbor_revocation :: "RevocationCertificate \<Rightarrow> string + bytes"
  cbor_parse_revocation :: "bytes \<Rightarrow> string + RevocationCertificate"

definition validate_label :: "string \<Rightarrow> CertError + unit" where
  "validate_label label =
     (let n = length (as_bytes label) in if n > MAX_LABEL_BYTES then Inl (LabelTooLong n) else Inr ())"

definition encode_device_payload :: "cbor \<Rightarrow> DeviceCertificatePayload \<Rightarrow> CertError + bytes" where
  "encode_device_payload B payload = map_err CertSerialization (cbor_device_payload B payload)"

definition device_sign_with_master ::
    "ed25519 \<Rightarrow> cbor \<Rightarrow> MaterializedMaster \<Rightarrow> bytes \<Rightarrow> string \<Rightarrow> string \<Rightarrow> int \<Rightarrow> CertError + DeviceCertificate" where
  "device_sign_with_master D B master device_pubkey label platform enrolled_at =
     try_bind (validate_label label) (\<lambda>_.
     let master_pubkey = public_key master;
         payload = \<lparr>dc_cert_version = MASTER_VERSION, dc_device_pubkey = device_pubkey,
           dc_master_pubkey = master_pubkey, dc_label = label, dc_platform = platform,
           dc_enrolled_at = enrolled_at, dc_signer_role = Master, dc_signer_pubkey = master_pubkey\<rparr>
     in try_bind (encode_device_payload B payload) (\<lambda>signed_bytes.
        Inr \<lparr>dc_payload = payload, dc_signature = master_sign D master signed_bytes\<rparr>))"

definition device_sign_with_device ::
    "ed25519 \<Rightarrow> cbor \<Rightarrow> bytes \<Rightarrow> bytes \<Rightarrow> bytes \<Rightarrow> string \<Rightarrow> string \<Rightarrow> int \<Rightarrow> CertError + DeviceCertificate" where
  "device_sign_with_device D B signer_secret master_pubkey device_pubkey label platform enrolled_at =
     try_bind (validate_label label) (\<lambda>_.
     let signer_pubkey = ed_public D signer_secret;
         payload = \<lparr>dc_cert_version = MASTER_VERSION, dc_device_pubkey = device_pubkey,
           dc_master_pubkey = master_pubkey, dc_label = label, dc_platform = platform,
           dc_enrolled_at = enrolled_at, dc_signer_role = Device, dc_signer_pubkey = signer_pubkey\<rparr>
     in try_bind (encode_device_payload B payload) (\<lambda>signed_bytes.
        Inr \<lparr>dc_payload = payload, dc_signature = ed_sign D signer_secret signed_bytes\<rparr>))"

definition device_to_cbor :: "cbor \<Rightarrow> DeviceCertificate \<Rightarrow> CertError + bytes" where
  "device_to_cbor B c = map_err CertSerialization (cbor_device B c)"

definition device_from_cbor :: "cbor \<Rightarrow> bytes \<Rightarrow> CertError + DeviceCertificate" where
  "device_from_cbor B raw = map_err CertDeserialization (cbor_parse_device B raw)"

definition device_verify :: "ed25519 \<Rightarrow> cbor \<Rightarrow> DeviceCertificate \<Rightarrow> bytes \<Rightarrow> bytes list \<Rightarrow> CertError + unit" where
  "device_verify D B c master_pubkey eligible_device_pubkeys =
     (let p = dc_payload c
      in if dc_cert_version p \<noteq> MASTER_VERSION
         then Inl (UnsupportedVersion MASTER_VERSION (dc_cert_version p))
         else if dc_master_pubkey p \<noteq> master_pubkey then Inl MasterMismatch
         else try_bind (validate_label (dc_label p)) (\<lambda>_.
           try_bind (case dc_signer_role p of
               Master \<Rightarrow>
                 if dc_signer_pubkey p \<noteq> master_pubkey then Inl SignerRoleMismatch else Inr ()
             | Device \<Rightarrow>
                 if \<not> list_ex (\<lambda>pk. pk = dc_signer_pubkey p) eligible_device_pubkeys
                 then Inl UnknownSigner
                 else if dc_signer_pubkey p = master_pubkey then Inl SignerRoleMismatch
                 else Inr ()) (\<lambda>_.
           try_bind (map_err CertInvalidPublicKey (ed_parse D (dc_signer_pubkey p))) (\<lambda>_.
           try_bind (encode_device_payload B p) (\<lambda>signed_bytes.
           map_err (\<lambda>_. SignatureFailed)
             (verify_with_verifying_key D (dc_signer_pubkey p) signed_bytes (dc_signature c)))))))"

section \<open>Revocation certificates\<close>

text \<open>The error type has the constructors of \<open>CertError\<close> but \<open>LabelTooLong\<close>.\<close>

datatype RevocationCertError =
    RvSerialization string
  | RvDeserialization string
  | RvMasterMismatch
  | RvUnknownSigner
  | RvSignerRoleMismatch
  | RvSignatureFailed
  | RvMasterKey MasterKeyError
  | RvInvalidPublicKey string
  | RvUnsupportedVersion u32 u32

definition encode_revocation_payload ::
    "cbor \<Rightarrow> RevocationCertificatePayload \<Rightarrow> RevocationCertError + bytes" where
  "encode_revocation_payload B payload = map_err RvSerialization (cbor_revocation_payload B payload)"

definition revocation_sign_with_master ::
    "ed25519 \<Rightarrow> cbor \<Rightarrow> MaterializedMaster \<Rightarrow> bytes \<Rightarrow> int \<Rightarrow> RevocationReason
     \<Rightarrow> RevocationCertError + RevocationCertificate" where
  "revocation_sign_with_master D B master target revoked_at reason =
     (let master_pubkey = public_key master;
          payload = \<lparr>rv_cert_version = MASTER_VERSION, rv_target_device_pubkey = target,
            rv_master_pubkey = master_pubkey, rv_revoked_at = revoked_at, rv_reason = reason,
            rv_signer_role = Master, rv_signer_pubkey = master_pubkey\<rparr>
      in try_bind (encode_revocation_payload B payload) (\<lambda>signed_bytes.
         Inr \<lparr>rv_payload = payload, rv_signature = master_sign D master signed_bytes\<rparr>))"

definition revocation_sign_with_device ::
    "ed25519 \<Rightarrow> cbor \<Rightarrow> bytes \<Rightarrow> bytes \<Rightarrow> bytes \<Rightarrow> int \<Rightarrow> RevocationReason
     \<Rightarrow> RevocationCertError + RevocationCertificate" where
  "revocation_sign_with_device D B signer_secret master_pubkey target revoked_at reason =
     (let signer_pubkey = ed_public D signer_secret;
          payload = \<lparr>rv_cert_version = MASTER_VERSION, rv_target_device_pubkey = target,
            rv_master_pubkey = master_pubkey, rv_revoked_at = revoked_at, rv_reason = reason,
            rv_signer_role = Device, rv_signer_pubkey = signer_pubkey\<rparr>
      in try_bind (encode_revocation_payload B payload) (\<lambda>signed_bytes.
         Inr \<lparr>rv_payload = payload, rv_signature = ed_sign D signer_secret signed_bytes\<rparr>))"

definition revocation_to_cbor :: "cbor \<Rightarrow> RevocationCertificate \<Rightarrow> RevocationCertError + bytes" where
  "revocation_to_cbor B c = map_err RvSerialization (cbor_revocation B c)"

definition revocation_from_cbor :: "cbor \<Rightarrow> bytes \<Rightarrow> RevocationCertError + RevocationCertificate" where
  "revocation_from_cbor B raw = map_err RvDeserialization (cbor_parse_revocation B raw)"

definition revocation_verify ::
    "ed25519 \<Rightarrow> cbor \<Rightarrow> RevocationCertificate \<Rightarrow> bytes \<Rightarrow> bytes list \<Rightarrow> RevocationCertError + unit" where
  "revocation_verify D B c master_pubkey eligible_device_pubkeys =
     (let p = rv_payload c
      in if rv_cert_version p \<noteq> MASTER_VERSION
         then Inl (RvUnsupportedVersion MASTER_VERSION (rv_cert_version p))
         else if rv_master_pubkey p \<noteq> master_pubkey then Inl RvMasterMismatch
         else try_bind (case rv_signer_role p of
               Master \<Rightarrow>
                 if rv_signer_pubkey p \<noteq> master_pubkey then Inl RvSignerRoleMismatch else Inr ()
             | Device \<Rightarrow>
                 if \<not> list_ex (\<lambda>pk. pk = rv_signer_pubkey p) eligible_device_pubkeys
                 then Inl RvUnknownSigner
                 else if rv_signer_pubkey p = master_pubkey then Inl RvSignerRoleMismatch
                 else Inr ()) (\<lambda>_.
           try_bind (map_err RvInvalidPublicKey (ed_parse D (rv_signer_pubkey p))) (\<lambda>_.
           try_bind (encode_revocation_payload B p) (\<lambda>signed_bytes.
           map_err (\<lambda>_. RvSignatureFailed)
             (verify_with_verifying_key D (rv_signer_pubkey p) signed_bytes (rv_signature c))))))"

section \<open>The acceptance rule\<close>

text \<open>\<open>well_formed\<close> is the version and shape check, \<open>claims_master\<close> the master the certificate
  names, \<open>signature_good\<close> that the signature is one of \<open>signer\<close> over the payload.\<close>

locale certificate =
  fixes well_formed :: "'c \<Rightarrow> bool"
    and claims_master :: "'c \<Rightarrow> bytes"
    and signer_role :: "'c \<Rightarrow> SignerRole"
    and signer :: "'c \<Rightarrow> bytes"
    and signature_good :: "'c \<Rightarrow> bool"
    and verify :: "'c \<Rightarrow> bytes \<Rightarrow> bytes list \<Rightarrow> 'e + unit"
  assumes verify_iff: "verify c master devices = Inr () \<longleftrightarrow>
      well_formed c \<and> claims_master c = master
      \<and> (case signer_role c of Master \<Rightarrow> signer c = master
         | Device \<Rightarrow> signer c \<in> set devices \<and> signer c \<noteq> master)
      \<and> signature_good c"
begin

text \<open>The master's certificates do not depend on the device set; a device's live and die with
  the device's membership, and grow with it.\<close>

lemma master_signed_any_devices:
  "signer_role c = Master \<Longrightarrow> verify c m devices = Inr () \<longleftrightarrow> verify c m devices' = Inr ()"
  by (simp add: verify_iff)

lemma revoked_signer:
  "signer_role c = Device \<Longrightarrow> verify c m [d \<leftarrow> devices. d \<noteq> signer c] \<noteq> Inr ()"
  by (simp add: verify_iff)

lemma other_revocation:
  "d \<noteq> signer c \<Longrightarrow> verify c m [x \<leftarrow> devices. x \<noteq> d] = Inr () \<longleftrightarrow> verify c m devices = Inr ()"
  by (auto simp: verify_iff split: SignerRole.split)

lemma one_master: "verify c m devices = Inr () \<Longrightarrow> verify c m' devices' = Inr () \<Longrightarrow> m' = m"
  by (simp add: verify_iff)

lemma accepted_signer:
  "verify c m devices = Inr () \<Longrightarrow> signature_good c \<and> (signer c = m \<or> signer c \<in> set devices)"
  by (auto simp: verify_iff split: SignerRole.splits)

end

definition device_signature_good :: "ed25519 \<Rightarrow> cbor \<Rightarrow> DeviceCertificate \<Rightarrow> bool" where
  "device_signature_good D B c \<longleftrightarrow>
     (\<exists>m. cbor_device_payload B (dc_payload c) = Inr m
        \<and> ed_accepts (D, dc_signer_pubkey (dc_payload c)) m (dc_signature c))"

definition revocation_signature_good :: "ed25519 \<Rightarrow> cbor \<Rightarrow> RevocationCertificate \<Rightarrow> bool" where
  "revocation_signature_good D B c \<longleftrightarrow>
     (\<exists>m. cbor_revocation_payload B (rv_payload c) = Inr m
        \<and> ed_accepts (D, rv_signer_pubkey (rv_payload c)) m (rv_signature c))"

lemma verify_with_verifying_key_eq_Inr:
  "verify_with_verifying_key D pk m s = Inr () \<longleftrightarrow> ed_verify_strict D pk m s"
  by (simp add: verify_with_verifying_key_def)

lemma validate_label_eq_Inr: "validate_label l = Inr () \<longleftrightarrow> length l \<le> 64"
  by (simp add: validate_label_def Let_def MAX_LABEL_BYTES_def not_less)

interpretation device: certificate
  "\<lambda>c. dc_cert_version (dc_payload c) = MASTER_VERSION \<and> length (dc_label (dc_payload c)) \<le> 64"
  "\<lambda>c. dc_master_pubkey (dc_payload c)" "\<lambda>c. dc_signer_role (dc_payload c)"
  "\<lambda>c. dc_signer_pubkey (dc_payload c)" "device_signature_good D B" "device_verify D B" for D B
  by unfold_locales
     (auto simp: device_verify_def Let_def try_bind_eq_Inr validate_label_eq_Inr list_ex_iff
       device_signature_good_def encode_device_payload_def ed_accepts_def verify_with_pubkey_eq_Inr
       verify_with_verifying_key_eq_Inr split: SignerRole.split)

interpretation revocation: certificate
  "\<lambda>c. rv_cert_version (rv_payload c) = MASTER_VERSION"
  "\<lambda>c. rv_master_pubkey (rv_payload c)" "\<lambda>c. rv_signer_role (rv_payload c)"
  "\<lambda>c. rv_signer_pubkey (rv_payload c)" "revocation_signature_good D B" "revocation_verify D B" for D B
  by unfold_locales
     (auto simp: revocation_verify_def Let_def try_bind_eq_Inr list_ex_iff
       revocation_signature_good_def encode_revocation_payload_def ed_accepts_def verify_with_pubkey_eq_Inr
       verify_with_verifying_key_eq_Inr split: SignerRole.split)

end
