(* ===== verification/Grant_Signing.thy ===== *)
theory Grant_Signing
  imports Pgp_Engine
begin

text \<open>
  \<open>gitcellar-crypto/src/grant_signing.rs\<close>: repository-key grants, their canonical bytes with
  and without a delegation, the bundle a granter builds and the check a recipient makes.

  \<open>i32\<close>, \<open>i64\<close> fields are integers of that range, printed in decimal. JSON is \<open>serde_json\<close>:
  the serializer and the parser are arguments of \<open>bundle_to_json\<close> and \<open>bundle_from_json\<close>, which
  adds the checks of the code to the parsed record.
\<close>

definition GRANT_CANONICAL_VERSION :: string where
  "GRANT_CANONICAL_VERSION = ''gc-grant-v2''"

definition DELEGATED_GRANT_CANONICAL_VERSION :: string where
  "DELEGATED_GRANT_CANONICAL_VERSION = ''gc-grant-delegated-v2''"

definition normalize_fingerprint :: "unicode \<Rightarrow> string \<Rightarrow> string" where
  "normalize_fingerprint U fingerprint =
     concat (map (to_uppercase_char U) (filter (\<lambda>c. \<not> is_whitespace U c) (utf8_chars fingerprint)))"

section \<open>The signed tuple\<close>

record RepoKeyGrant =
  gr_repo_uid :: string
  gr_key_version :: int
  gr_recipient_fingerprint :: string
  gr_granter_fingerprint :: string
  gr_key_material_b64 :: string
  gr_timestamp_unix :: int

record GrantDelegation =
  dl_repo_uid :: string
  dl_delegate_account :: string
  dl_delegate_fingerprint :: string
  dl_key_version :: u32
  dl_timestamp_unix :: int
  dl_expires_at_unix :: int
  dl_delegation_sig_b64 :: string

definition grant_new :: "unicode \<Rightarrow> string \<Rightarrow> int \<Rightarrow> string \<Rightarrow> string \<Rightarrow> string \<Rightarrow> int \<Rightarrow> RepoKeyGrant" where
  "grant_new U uid kv recipient granter key_material ts =
     \<lparr>gr_repo_uid = uid, gr_key_version = kv,
      gr_recipient_fingerprint = normalize_fingerprint U recipient,
      gr_granter_fingerprint = normalize_fingerprint U granter,
      gr_key_material_b64 = key_material, gr_timestamp_unix = ts\<rparr>"

definition grant_canonical :: "unicode \<Rightarrow> RepoKeyGrant \<Rightarrow> bytes" where
  "grant_canonical U g =
     (let out = lp_push [] GRANT_CANONICAL_VERSION;
          out = lp_push out (gr_repo_uid g);
          out = lp_push out (int_to_string (gr_key_version g));
          out = lp_push out (normalize_fingerprint U (gr_recipient_fingerprint g));
          out = lp_push out (normalize_fingerprint U (gr_granter_fingerprint g));
          out = lp_push out (gr_key_material_b64 g)
      in lp_push out (int_to_string (gr_timestamp_unix g)))"

definition canonical_with_delegation ::
    "unicode \<Rightarrow> RepoKeyGrant \<Rightarrow> GrantDelegation option \<Rightarrow> bytes" where
  "canonical_with_delegation U g delegation =
     (case delegation of
        None \<Rightarrow> grant_canonical U g
      | Some del \<Rightarrow>
          (let out = lp_push [] DELEGATED_GRANT_CANONICAL_VERSION;
               out = lp_push out (gr_repo_uid g);
               out = lp_push out (int_to_string (gr_key_version g));
               out = lp_push out (normalize_fingerprint U (gr_recipient_fingerprint g));
               out = lp_push out (normalize_fingerprint U (gr_granter_fingerprint g));
               out = lp_push out (gr_key_material_b64 g);
               out = lp_push out (int_to_string (gr_timestamp_unix g));
               out = lp_push out (dl_repo_uid del);
               out = lp_push out (dl_delegate_account del);
               out = lp_push out (dl_delegate_fingerprint del);
               out = lp_push out (nat_to_string (unat (dl_key_version del)));
               out = lp_push out (int_to_string (dl_timestamp_unix del));
               out = lp_push out (int_to_string (dl_expires_at_unix del))
           in lp_push out (dl_delegation_sig_b64 del)))"

section \<open>Signing and verifying\<close>

definition sign_repo_key_grant ::
    "sequoia \<Rightarrow> unicode \<Rightarrow> EncryptionEngine \<Rightarrow> RepoKeyGrant \<Rightarrow> string CryptoResult" where
  "sign_repo_key_grant X U engine g =
     try_bind (sign_data X engine (grant_canonical U g)) (\<lambda>sig. Inr (b64_encode X sig))"

definition verify_signed_bytes :: "sequoia \<Rightarrow> string \<Rightarrow> bytes \<Rightarrow> string \<Rightarrow> bool CryptoResult" where
  "verify_signed_bytes X cert_armored signed_data signature_b64 =
     (if signature_b64 = [] then Inr False
      else try_bind (map_err (\<lambda>e. CryptoError.OpenPgp (''grant sig is not valid base64: '' @ e))
                       (b64_decode X signature_b64)) (\<lambda>sig.
        verify_detached X cert_armored signed_data sig))"

definition verify_repo_key_grant ::
    "sequoia \<Rightarrow> unicode \<Rightarrow> string \<Rightarrow> RepoKeyGrant \<Rightarrow> string \<Rightarrow> bool CryptoResult" where
  "verify_repo_key_grant X U granter_cert_armored g signature_b64 =
     verify_signed_bytes X granter_cert_armored (grant_canonical U g) signature_b64"

section \<open>Bundles\<close>

record GrantBundle =
  gb_v :: string
  gb_repo_uid :: string
  gb_key_material_b64 :: string
  gb_granter_fingerprint :: string
  gb_timestamp_unix :: int
  gb_grant_sig_b64 :: string
  gb_delegation :: "GrantDelegation option"

definition to_grant :: "unicode \<Rightarrow> GrantBundle \<Rightarrow> int \<Rightarrow> string \<Rightarrow> RepoKeyGrant" where
  "to_grant U b kv recipient =
     grant_new U (gb_repo_uid b) kv recipient (gb_granter_fingerprint b)
       (gb_key_material_b64 b) (gb_timestamp_unix b)"

definition bundle_to_json :: "(GrantBundle \<Rightarrow> string + bytes) \<Rightarrow> GrantBundle \<Rightarrow> bytes CryptoResult" where
  "bundle_to_json to_vec b =
     map_err (\<lambda>e. CryptoError.Encryption (''grant bundle serialize failed: '' @ e)) (to_vec b)"

text \<open>\<open>{:?}\<close> prints a string quoted; its escaping is left to the argument \<open>debug\<close>.\<close>

definition bundle_from_json ::
    "(bytes \<Rightarrow> string + GrantBundle) \<Rightarrow> (string \<Rightarrow> string) \<Rightarrow> unicode \<Rightarrow> bytes \<Rightarrow> GrantBundle CryptoResult" where
  "bundle_from_json from_slice debug U raw =
     try_bind (map_err (\<lambda>e. CryptoError.Decryption
         (''grant payload is not a gc-grant bundle (an old unsigned grant looks like this ''
          @ em_dash @ '' it must be re-issued, not imported): '' @ e)) (from_slice raw)) (\<lambda>b.
     if gb_v b \<noteq> GRANT_CANONICAL_VERSION
     then Inl (CryptoError.Decryption
       (''unsupported grant bundle version '' @ debug (gb_v b)
        @ '' (expected '' @ debug GRANT_CANONICAL_VERSION @ '')''))
     else if trim U (gb_repo_uid b) = []
     then Inl (CryptoError.Decryption
       ''grant bundle names no repo_uid; a gc-grant-v2 grant always binds one'')
     else Inr b)"

definition build_signed_repo_grant_bundle ::
    "sequoia \<Rightarrow> unicode \<Rightarrow> EncryptionEngine \<Rightarrow> string \<Rightarrow> int \<Rightarrow> string \<Rightarrow> string \<Rightarrow> int
     \<Rightarrow> GrantDelegation option \<Rightarrow> GrantBundle CryptoResult" where
  "build_signed_repo_grant_bundle X U granter uid kv recipient key_material ts delegation =
     (let granter_fingerprint = normalize_fingerprint U (id_fingerprint (en_identity granter));
          g = grant_new U uid kv recipient granter_fingerprint key_material ts
      in try_bind (sign_data X granter (canonical_with_delegation U g delegation)) (\<lambda>sig.
         Inr \<lparr>gb_v = GRANT_CANONICAL_VERSION, gb_repo_uid = uid,
              gb_key_material_b64 = key_material, gb_granter_fingerprint = granter_fingerprint,
              gb_timestamp_unix = ts, gb_grant_sig_b64 = b64_encode X sig,
              gb_delegation = delegation\<rparr>))"

definition build_signed_grant_bundle ::
    "sequoia \<Rightarrow> unicode \<Rightarrow> EncryptionEngine \<Rightarrow> string \<Rightarrow> int \<Rightarrow> string \<Rightarrow> string \<Rightarrow> int
     \<Rightarrow> GrantBundle CryptoResult" where
  "build_signed_grant_bundle X U granter uid kv recipient key_material ts =
     build_signed_repo_grant_bundle X U granter uid kv recipient key_material ts None"

definition build_signed_delegated_grant_bundle ::
    "sequoia \<Rightarrow> unicode \<Rightarrow> EncryptionEngine \<Rightarrow> string \<Rightarrow> int \<Rightarrow> string \<Rightarrow> string \<Rightarrow> int
     \<Rightarrow> GrantDelegation \<Rightarrow> GrantBundle CryptoResult" where
  "build_signed_delegated_grant_bundle X U granter uid kv recipient key_material ts delegation =
     build_signed_repo_grant_bundle X U granter uid kv recipient key_material ts (Some delegation)"

section \<open>The recipient's check\<close>

datatype GrantVerifyOutcome =
    Valid
  | GranterFingerprintMismatch string string
  | SignatureInvalid
  | Malformed string

fun allow :: "GrantVerifyOutcome \<Rightarrow> bool" where
  "allow Valid = True"
| "allow _ = False"

fun alarm :: "GrantVerifyOutcome \<Rightarrow> bool" where
  "alarm SignatureInvalid = True"
| "alarm (GranterFingerprintMismatch _ _) = True"
| "alarm _ = False"

fun reason :: "GrantVerifyOutcome \<Rightarrow> string" where
  "reason Valid = ''grant signature verified''"
| "reason (GranterFingerprintMismatch claimed served) =
     ''grant claims granter fingerprint '' @ claimed @ '' but the served granter cert is '' @ served"
| "reason SignatureInvalid =
     ''grant origin signature is absent or does not verify under the granter's cert''"
| "reason (Malformed m) = ''grant signature unprocessable: '' @ m"

definition verify_grant_bundle ::
    "sequoia \<Rightarrow> unicode \<Rightarrow> GrantBundle \<Rightarrow> string \<Rightarrow> string \<Rightarrow> string \<Rightarrow> int \<Rightarrow> string
     \<Rightarrow> GrantVerifyOutcome" where
  "verify_grant_bundle X U b granter_cert_armored granter_served_fingerprint uid kv recipient =
     (let claimed = normalize_fingerprint U (gb_granter_fingerprint b);
          served = normalize_fingerprint U granter_served_fingerprint
      in if claimed \<noteq> served then GranterFingerprintMismatch claimed served
         else if uid = [] \<or> gb_repo_uid b \<noteq> uid then SignatureInvalid
         else let g = to_grant U b kv recipient;
                  verified = (case gb_delegation b of
                      None \<Rightarrow> verify_repo_key_grant X U granter_cert_armored g (gb_grant_sig_b64 b)
                    | Some del \<Rightarrow> verify_signed_bytes X granter_cert_armored
                        (canonical_with_delegation U g (Some del)) (gb_grant_sig_b64 b))
              in case verified of
                   Inr True \<Rightarrow> Valid
                 | Inr False \<Rightarrow> SignatureInvalid
                 | Inl e \<Rightarrow> Malformed (crypto_error_text e))"

end
