(* ===== verification/Chunk_Encryption_Laws.thy ===== *)
theory Chunk_Encryption_Laws
  imports Chunk_Encryption
begin

text \<open>
  Both engines provide the \<open>EncryptionEngine\<close> trait, and what that means for stored chunks:
  round trip, only sealed blobs open, the identity bound at sealing is the only one a blob
  opens under unless the cipher itself has a tag collision, every other version byte is
  refused before the cipher runs.
\<close>

section \<open>The chunk engine\<close>

definition xc_ok :: "XChaChaChunkEngine \<Rightarrow> bool" where
  "xc_ok e \<longleftrightarrow> aead_ok (xc_cipher e) \<and> emit_version e = V3_REPO_UID_KEY_VERSION"

lemma aead_open_iff: "aead_ok c \<Longrightarrow> aead_open c n a ct = Some m \<longleftrightarrow> aead_seal c n a m = Some ct"
  by (simp add: aead_ok_def)

lemma aead_seal_length: "aead_ok c \<Longrightarrow> aead_seal c n a m = Some ct \<Longrightarrow> length ct = length m + 16"
  by (simp add: aead_ok_def)

lemma cipher_aad_eq_Inr:
  "cipher_aad v a = Inr x \<longleftrightarrow> aad_check a = Inr () \<and> x = v # canonical_aad_bytes a"
  by (auto simp: cipher_aad_def try_bind_eq_Inr)

lemma encrypt_with_nonce_eq_Inr:
  "encrypt_with_nonce e pt n a = Inr blob \<longleftrightarrow>
     aad_check a = Inr () \<and> (\<exists>ct. aead_seal (xc_cipher e) n (emit_version e # canonical_aad_bytes a) pt = Some ct
       \<and> blob = emit_version e # n @ ct)"
  by (auto simp: encrypt_with_nonce_def try_bind_eq_Inr cipher_aad_eq_Inr)

lemma check_layout_eq_Inr:
  "check_layout data = Inr u \<longleftrightarrow> XC_OVERHEAD \<le> length data \<and> data ! 0 = 3"
proof (cases data)
  case Nil
  then show ?thesis by (simp add: check_layout_def xc_size_defs)
next
  case (Cons b bs)
  then show ?thesis by (auto simp: check_layout_def try_bind_eq_Inr)
qed

lemma decrypt_with_aad_eq_Inr:
  "decrypt_with_aad e data a = Inr pt \<longleftrightarrow>
     41 \<le> length data \<and> data ! 0 = 3 \<and> aad_check a = Inr ()
     \<and> aead_open (xc_cipher e) (slice data 1 25) (3 # canonical_aad_bytes a) (drop 25 data) = Some pt"
  by (auto simp: decrypt_with_aad_def try_bind_eq_Inr check_layout_eq_Inr cipher_aad_eq_Inr Let_def
      xc_size_defs)

lemma split_layout:
  assumes "41 \<le> length data" "data ! 0 = 3"
  shows "data = 3 # slice data 1 25 @ drop 25 data"
proof -
  obtain bs where "data = 3 # bs" using assms by (cases data) auto
  then show ?thesis by (simp add: slice_def)
qed

lemma xc_open_seal:
  assumes "xc_ok e" and "length n = 24" and "encrypt_with_nonce e pt n a = Inr blob"
  shows "decrypt_with_aad e blob a = Inr pt"
proof -
  from assms obtain ct where ct: "aead_seal (xc_cipher e) n (3 # canonical_aad_bytes a) pt = Some ct"
    "blob = 3 # n @ ct" "aad_check a = Inr ()"
    by (auto simp: encrypt_with_nonce_eq_Inr xc_ok_def V3_REPO_UID_KEY_VERSION_def)
  then have "aead_open (xc_cipher e) n (3 # canonical_aad_bytes a) ct = Some pt"
    using assms(1) by (simp add: aead_open_iff xc_ok_def)
  moreover have "length ct = length pt + 16" using ct assms(1) aead_seal_length by (auto simp: xc_ok_def)
  ultimately show ?thesis using ct assms(2) by (simp add: decrypt_with_aad_eq_Inr slice_def)
qed

lemma xc_open_only_sealed:
  assumes "xc_ok e" and "decrypt_with_aad e blob a = Inr pt"
  shows "encrypt_with_nonce e pt (slice blob 1 25) a = Inr blob \<and> length (slice blob 1 25) = 24"
proof -
  from assms(2) have d: "41 \<le> length blob" "blob ! 0 = 3" "aad_check a = Inr ()"
    "aead_open (xc_cipher e) (slice blob 1 25) (3 # canonical_aad_bytes a) (drop 25 blob) = Some pt"
    by (auto simp: decrypt_with_aad_eq_Inr)
  then have "aead_seal (xc_cipher e) (slice blob 1 25) (3 # canonical_aad_bytes a) pt = Some (drop 25 blob)"
    using assms(1) by (simp add: aead_open_iff xc_ok_def)
  then show ?thesis using d split_layout [OF d(1,2)] assms(1)
    by (simp add: encrypt_with_nonce_eq_Inr xc_ok_def V3_REPO_UID_KEY_VERSION_def)
qed

lemma xc_seal_length:
  assumes "xc_ok e" and "length n = 24" and "encrypt_with_nonce e pt n a = Inr blob"
  shows "length blob = length pt + XC_OVERHEAD"
  using assms by (auto simp: encrypt_with_nonce_eq_Inr xc_ok_def xc_size_defs dest: aead_seal_length)

interpretation xchacha: encryption_engine xc_ok XC_NONCE_SIZE XC_OVERHEAD xc_encrypt_chunk xc_decrypt_chunk
proof unfold_locales
  fix e :: XChaChaChunkEngine and n blob pt :: bytes and c :: Chunk and a :: ChunkAad
  show "xc_ok e \<Longrightarrow> length n = XC_NONCE_SIZE \<Longrightarrow> xc_encrypt_chunk e n c a = Inr blob
      \<Longrightarrow> xc_decrypt_chunk e blob a = Inr (ck_data c)"
    by (simp add: xc_encrypt_chunk_def xc_decrypt_chunk_def encrypt_with_aad_def XC_NONCE_SIZE_def
        xc_open_seal)
  show "\<exists>n. length n = XC_NONCE_SIZE \<and> xc_encrypt_chunk e n c a = Inr blob"
    if "xc_ok e" "xc_decrypt_chunk e blob a = Inr pt" "ck_data c = pt"
    using xc_open_only_sealed [of e blob a pt] that
    by (intro exI [of _ "slice blob 1 25"])
      (simp add: xc_encrypt_chunk_def xc_decrypt_chunk_def encrypt_with_aad_def XC_NONCE_SIZE_def)
  show "xc_encrypt_chunk e n c a = Inr blob \<Longrightarrow> aad_check a = Inr ()"
    by (simp add: xc_encrypt_chunk_def encrypt_with_aad_def encrypt_with_nonce_eq_Inr)
  show "xc_ok e \<Longrightarrow> length n = XC_NONCE_SIZE \<Longrightarrow> xc_encrypt_chunk e n c a = Inr blob
      \<Longrightarrow> length blob = length (ck_data c) + XC_OVERHEAD"
    by (simp add: xc_encrypt_chunk_def encrypt_with_aad_def xc_seal_length XC_NONCE_SIZE_def)
qed

section \<open>The passphrase engine\<close>

definition aes_ok :: "AesEncryptionEngine \<Rightarrow> bool" where
  "aes_ok e \<longleftrightarrow> aead_ok (aes_cipher e)"

lemma aes_encrypt_chunk_eq_Inr:
  "aes_encrypt_chunk e n c a = Inr blob \<longleftrightarrow>
     aad_check a = Inr () \<and> (\<exists>ct. aead_seal (aes_cipher e) n (canonical_aad_bytes a) (ck_data c) = Some ct
       \<and> blob = n @ ct)"
  by (auto simp: aes_encrypt_chunk_def try_bind_eq_Inr)

lemma aes_decrypt_chunk_eq_Inr:
  "aes_decrypt_chunk e data a = Inr pt \<longleftrightarrow>
     12 \<le> length data \<and> aad_check a = Inr ()
     \<and> aead_open (aes_cipher e) (take 12 data) (canonical_aad_bytes a) (drop 12 data) = Some pt"
  by (auto simp: aes_decrypt_chunk_def try_bind_eq_Inr AES_NONCE_SIZE_def)

interpretation aes: encryption_engine aes_ok AES_NONCE_SIZE "AES_NONCE_SIZE + 16" aes_encrypt_chunk aes_decrypt_chunk
proof unfold_locales
  fix e :: AesEncryptionEngine and n blob pt :: bytes and c :: Chunk and a :: ChunkAad
  show "aes_ok e \<Longrightarrow> length n = AES_NONCE_SIZE \<Longrightarrow> aes_encrypt_chunk e n c a = Inr blob
      \<Longrightarrow> aes_decrypt_chunk e blob a = Inr (ck_data c)"
    by (auto simp: aes_encrypt_chunk_eq_Inr aes_decrypt_chunk_eq_Inr AES_NONCE_SIZE_def aes_ok_def
        aead_open_iff)
  show "\<exists>n. length n = AES_NONCE_SIZE \<and> aes_encrypt_chunk e n c a = Inr blob"
    if "aes_ok e" "aes_decrypt_chunk e blob a = Inr pt" "ck_data c = pt"
    using that
    by (intro exI [of _ "take 12 blob"])
      (auto simp: aes_encrypt_chunk_eq_Inr aes_decrypt_chunk_eq_Inr AES_NONCE_SIZE_def aes_ok_def
        aead_open_iff)
  show "aes_encrypt_chunk e n c a = Inr blob \<Longrightarrow> aad_check a = Inr ()"
    by (simp add: aes_encrypt_chunk_eq_Inr)
  show "aes_ok e \<Longrightarrow> length n = AES_NONCE_SIZE \<Longrightarrow> aes_encrypt_chunk e n c a = Inr blob
      \<Longrightarrow> length blob = length (ck_data c) + (AES_NONCE_SIZE + 16)"
    by (auto simp: aes_encrypt_chunk_eq_Inr aes_ok_def dest: aead_seal_length)
qed

section \<open>Properties\<close>

text \<open>A cipher for the witnesses: the message followed by 16 bytes computed from the lengths of
  the associated data and the message.\<close>

definition demo_tag :: "bytes \<Rightarrow> bytes \<Rightarrow> bytes" where
  "demo_tag a m = replicate 16 (word_of_nat (length a + length m))"

definition demo_aead :: aead where
  "demo_aead = \<lparr>aead_seal = (\<lambda>n a m. Some (m @ demo_tag a m)),
     aead_open = (\<lambda>n a ct. let m = take (length ct - 16) ct in
       if ct = m @ demo_tag a m then Some m else None)\<rparr>"

lemma demo_aead_ok: "aead_ok demo_aead"
  by (auto simp: aead_ok_def demo_aead_def demo_tag_def Let_def)

definition demo_xc :: XChaChaChunkEngine where
  "demo_xc = \<lparr>xc_cipher = demo_aead, xc_key_id = ''0011223344556677'', emit_version = 3\<rparr>"

definition demo_aes :: AesEncryptionEngine where
  "demo_aes = \<lparr>aes_cipher = demo_aead, aes_key_id = ''0011223344556677''\<rparr>"

definition demo_aad :: ChunkAad where
  "demo_aad = \<lparr>repo_uid = ''ab'', chunk_name = ''cd'', key_version = 1, stream_offset = 0, aad_size = 2\<rparr>"

definition demo_chunk :: Chunk where
  "demo_chunk = \<lparr>ck_hash = ''cd'', ck_data = [5, 6], ck_size = 2, ck_offset = 0\<rparr>"

lemma demo_xc_ok: "xc_ok demo_xc" and demo_aes_ok: "aes_ok demo_aes"
  by (simp_all add: xc_ok_def aes_ok_def demo_xc_def demo_aes_def demo_aead_ok V3_REPO_UID_KEY_VERSION_def)

lemma demo_aad_check: "aad_check demo_aad = Inr ()"
  by (simp add: aad_check_eq_Inr demo_aad_def byte_of_char_def)

definition demo_blob :: bytes where
  "demo_blob = 3 # replicate 24 9 @ [5, 6] @ demo_tag (3 # canonical_aad_bytes demo_aad) [5, 6]"

lemma demo_blob_sealed: "encrypt_with_nonce demo_xc [5, 6] (replicate 24 9) demo_aad = Inr demo_blob"
  by (simp add: encrypt_with_nonce_eq_Inr demo_aad_check demo_xc_def demo_aead_def demo_blob_def)

text \<open>C16: both engines of the trait give a lossless seal and open: a chunk sealed under an
  identity opens under it to its plaintext, anything that opens is the sealing of what it
  opened to under that identity with a nonce of the right size, and the stored size is the
  plaintext's plus 41 (XChaCha20) or 28 (AES-GCM) bytes.\<close>

theorem engines_seal_and_open:
  assumes "xc_ok e" and "aes_ok f"
  shows "(\<forall>n c a blob. length n = 24 \<and> xc_encrypt_chunk e n c a = Inr blob
        \<longrightarrow> xc_decrypt_chunk e blob a = Inr (ck_data c) \<and> length blob = length (ck_data c) + 41)
    \<and> (\<forall>c a blob. xc_decrypt_chunk e blob a = Inr (ck_data c)
        \<longrightarrow> (\<exists>n. length n = 24 \<and> xc_encrypt_chunk e n c a = Inr blob))
    \<and> (\<forall>n c a blob. length n = 12 \<and> aes_encrypt_chunk f n c a = Inr blob
        \<longrightarrow> aes_decrypt_chunk f blob a = Inr (ck_data c) \<and> length blob = length (ck_data c) + 28)
    \<and> (\<forall>c a blob. aes_decrypt_chunk f blob a = Inr (ck_data c)
        \<longrightarrow> (\<exists>n. length n = 12 \<and> aes_encrypt_chunk f n c a = Inr blob))"
proof (intro conjI allI impI; (elim conjE)?)
  fix n blob :: bytes and c :: Chunk and a :: ChunkAad
  note xc = xchacha.open_seal [OF assms(1)] xchacha.seal_length [OF assms(1)]
    xchacha.open_only_sealed [OF assms(1) _ refl]
  note ae = aes.open_seal [OF assms(2)] aes.seal_length [OF assms(2)]
    aes.open_only_sealed [OF assms(2) _ refl]
  show "xc_decrypt_chunk e blob a = Inr (ck_data c)" "length blob = length (ck_data c) + 41"
    if "length n = 24" "xc_encrypt_chunk e n c a = Inr blob"
    using xc(1,2) [OF _ that(2)] that(1) by (simp_all add: xc_size_defs)
  show "\<exists>n. length n = 24 \<and> xc_encrypt_chunk e n c a = Inr blob"
    if "xc_decrypt_chunk e blob a = Inr (ck_data c)"
    using xc(3) [OF that] by (simp add: XC_NONCE_SIZE_def)
  show "aes_decrypt_chunk f blob a = Inr (ck_data c)" "length blob = length (ck_data c) + 28"
    if "length n = 12" "aes_encrypt_chunk f n c a = Inr blob"
    using ae(1,2) [OF _ that(2)] that(1) by (simp_all add: AES_NONCE_SIZE_def)
  show "\<exists>n. length n = 12 \<and> aes_encrypt_chunk f n c a = Inr blob"
    if "aes_decrypt_chunk f blob a = Inr (ck_data c)"
    using ae(3) [OF that] by (simp add: AES_NONCE_SIZE_def)
qed

theorem engines_seal_and_open_witness:
  "xc_decrypt_chunk demo_xc demo_blob demo_aad = Inr (ck_data demo_chunk) \<and> length demo_blob = 2 + 41"
proof -
  have "xc_encrypt_chunk demo_xc (replicate 24 9) demo_chunk demo_aad = Inr demo_blob"
    using demo_blob_sealed by (simp add: xc_encrypt_chunk_def encrypt_with_aad_def demo_chunk_def)
  with conjunct1 [OF engines_seal_and_open [OF demo_xc_ok demo_aes_ok], rule_format,
      of "replicate 24 9" demo_chunk demo_aad demo_blob]
  show ?thesis by (simp add: demo_chunk_def)
qed

text \<open>C4: a chunk opens only under the identity it was sealed with. If a blob sealed under
  identity \<open>a\<close> opens under identity \<open>b\<close>, then \<open>a = b\<close> and the plaintext is the sealed one, or the
  cipher sealed two different (associated data, message) pairs to one ciphertext under the
  same nonce.\<close>

theorem chunk_identity_binding:
  assumes "xc_ok e" and "length n = 24"
    and "encrypt_with_nonce e pt n a = Inr blob" and "decrypt_with_aad e blob b = Inr pt'"
  shows "(a = b \<and> pt' = pt)
    \<or> (canonical_aad_bytes a \<noteq> canonical_aad_bytes b
       \<and> (\<exists>ct. aead_seal (xc_cipher e) n (3 # canonical_aad_bytes a) pt = Some ct
            \<and> aead_seal (xc_cipher e) n (3 # canonical_aad_bytes b) pt' = Some ct))"
proof -
  from assms obtain ct where ct: "aead_seal (xc_cipher e) n (3 # canonical_aad_bytes a) pt = Some ct"
    "blob = 3 # n @ ct" and ca: "aad_check a = Inr ()"
    by (auto simp: encrypt_with_nonce_eq_Inr xc_ok_def V3_REPO_UID_KEY_VERSION_def)
  from assms(4) ct(2) assms(2) have cb: "aad_check b = Inr ()"
    and op: "aead_open (xc_cipher e) n (3 # canonical_aad_bytes b) ct = Some pt'"
    by (auto simp: decrypt_with_aad_eq_Inr slice_def)
  then have s: "aead_seal (xc_cipher e) n (3 # canonical_aad_bytes b) pt' = Some ct"
    using assms(1) by (simp add: aead_open_iff xc_ok_def)
  show ?thesis
  proof (cases "a = b")
    case True
    with xc_open_seal [OF assms(1-3)] assms(4) show ?thesis by simp
  next
    case False
    then have "canonical_aad_bytes a \<noteq> canonical_aad_bytes b"
      using canonical_aad_bytes_inject [OF ca cb] by simp
    with ct(1) s show ?thesis by blast
  qed
qed

theorem chunk_identity_binding_witness:
  "\<exists>pt. decrypt_with_aad demo_xc demo_blob demo_aad = Inr pt \<and> pt = [5, 6]"
proof -
  have n: "length (replicate 24 (9 :: u8)) = 24" by simp
  obtain pt where pt: "decrypt_with_aad demo_xc demo_blob demo_aad = Inr pt"
    using xc_open_seal [OF demo_xc_ok n demo_blob_sealed] by blast
  with chunk_identity_binding [OF demo_xc_ok n demo_blob_sealed pt] show ?thesis by blast
qed

text \<open>version dispatch. A chunk whose first byte is not 3, an empty chunk and a chunk under
  41 bytes are refused with a decryption error on both decrypt paths whatever the key and the
  cipher; every blob the engine seals starts with 3; flipping that byte is therefore always
  refused.\<close>

theorem version_dispatch_fails_closed:
  assumes "data = [] \<or> data ! 0 \<noteq> 3 \<or> length data < 41"
  shows "(\<exists>m. decrypt_with_aad e data a = Inl (Decryption m))
    \<and> (\<exists>m. xc_decrypt e data = Inl (Decryption m))
    \<and> (xc_ok f \<and> encrypt_with_nonce f pt n b = Inr blob \<longrightarrow> blob ! 0 = 3)"
proof -
  have "check_layout data \<noteq> Inr ()" using assms by (auto simp: check_layout_eq_Inr xc_size_defs)
  then obtain m where "check_layout data = Inl (Decryption m)"
    by (cases data) (auto simp: check_layout_def parse_version_def split: if_splits)
  then show ?thesis
    by (auto simp: decrypt_with_aad_def xc_decrypt_def encrypt_with_nonce_eq_Inr xc_ok_def
        V3_REPO_UID_KEY_VERSION_def)
qed

theorem version_dispatch_fails_closed_witness:
  "(\<exists>m. decrypt_with_aad demo_xc [2, 0] demo_aad = Inl (Decryption m)) \<and> demo_blob ! 0 = 3"
proof -
  have h: "[2, 0 :: u8] = [] \<or> [2, 0 :: u8] ! 0 \<noteq> 3 \<or> length [2, 0 :: u8] < 41" by simp
  from version_dispatch_fails_closed [OF h, of demo_xc demo_aad demo_xc "[5, 6]" "replicate 24 9" demo_aad demo_blob]
  show ?thesis using demo_xc_ok demo_blob_sealed by blast
qed

text \<open>the engine built from a repository key emits version 3, is keyed with the 32-byte
  HKDF output under the chunk-content label, and round-trips every chunk; a content key of any
  other length is refused with a key error.\<close>

theorem engine_from_repo_key:
  assumes "xchacha_engine_new P H k_repo = Inr e"
    and "\<forall>k c. xchacha_new P k = Some c \<longrightarrow> aead_ok c"
  shows "\<exists>key. hkdf_sha256 P None k_repo (as_bytes ''gitcellar/chunk-content/v1'') 32 = Some key
    \<and> length key = 32 \<and> xchacha_new P key = Some (xc_cipher e) \<and> xc_ok e
    \<and> (\<forall>n pt a blob. length n = 24 \<and> encrypt_with_aad e n pt a = Inr blob
          \<longrightarrow> decrypt_with_aad e blob a = Inr pt)
    \<and> (\<forall>k. length k \<noteq> 32 \<longrightarrow> from_content_key P H k = Inl (Key (ContentKeyLength (length k))))"
  using assms xc_open_seal [of e]
  by (auto simp: xchacha_engine_new_def derive_content_key_def from_content_key_def try_bind_eq_Inr
      xc_ok_def XC_KEY_SIZE_def CONTENT_KEY_INFO_def encrypt_with_aad_def split: if_splits)

theorem engine_from_repo_key_witness:
  "\<exists>e. xchacha_engine_new \<lparr>xchacha_new = (\<lambda>k. Some demo_aead), aes_gcm_new = (\<lambda>k. Some demo_aead),
       hkdf_sha256 = (\<lambda>s k i n. Some (replicate n 7)), argon2id = (\<lambda>a b c n p s. None)\<rparr>
       \<lparr>blake3_keyed = (\<lambda>k m. m), sha256 = (\<lambda>m. m), hmac_sha256 = (\<lambda>k m. m)\<rparr> [1, 2] = Inr e \<and> xc_ok e"
  (is "\<exists>e. xchacha_engine_new ?P ?H _ = Inr e \<and> _")
proof -
  obtain e where e: "xchacha_engine_new ?P ?H [1, 2] = Inr e"
    by (simp add: xchacha_engine_new_def derive_content_key_def from_content_key_def XC_KEY_SIZE_def)
  have "\<forall>k c. xchacha_new ?P k = Some c \<longrightarrow> aead_ok c" by (simp add: demo_aead_ok)
  from engine_from_repo_key [OF e this] e show ?thesis by blast
qed

text \<open>the canonical identity encoding is injective on the identities that \<open>check\<close> accepts,
  which are all those the checked constructors build, and \<open>check\<close> refuses exactly a NUL byte in
  a string field; without it two different identities share an encoding.\<close>

theorem canonical_identity_injective:
  "(aad_check a = Inr () \<and> aad_check b = Inr ()
      \<longrightarrow> (canonical_aad_bytes a = canonical_aad_bytes b \<longleftrightarrow> a = b))
   \<and> (aad_check a = Inr () \<longleftrightarrow> CHR 0x00 \<notin> set (repo_uid a) \<and> CHR 0x00 \<notin> set (chunk_name a))
   \<and> (aad_new u nm kv off sz = Inr a \<longrightarrow> aad_check a = Inr () \<and> repo_uid a = u \<and> chunk_name a = nm
        \<and> key_version a = kv \<and> stream_offset a = off \<and> aad_size a = sz)
   \<and> (\<exists>x y. x \<noteq> y \<and> canonical_aad_bytes x = canonical_aad_bytes y)"
proof -
  have nul: "0 \<in> set (as_bytes s) \<longleftrightarrow> CHR 0x00 \<in> set s" for s
  proof -
    have "(0 :: u8) = byte_of_char (CHR 0x00)" by (simp add: byte_of_char_def)
    then show ?thesis
      unfolding set_as_bytes by (metis byte_of_char_inject inj_image_mem_iff injI)
  qed
  let ?x = "\<lparr>repo_uid = [CHR 0x00], chunk_name = [], key_version = 0, stream_offset = 0, aad_size = 0\<rparr>"
  let ?y = "\<lparr>repo_uid = [], chunk_name = [CHR 0x00], key_version = 0, stream_offset = 0, aad_size = 0\<rparr>"
  have "canonical_aad_bytes ?x = canonical_aad_bytes ?y"
    by (simp add: canonical_aad_bytes_def byte_of_char_def)
  moreover have "?x \<noteq> ?y" by simp
  ultimately have "\<exists>x y. x \<noteq> y \<and> canonical_aad_bytes x = canonical_aad_bytes y" by blast
  then show ?thesis
    using canonical_aad_bytes_inject [of a b]
    by (auto simp: aad_new_eq_Inr aad_check_eq_Inr nul)
qed

theorem canonical_identity_injective_witness:
  "aad_new ''ab'' ''cd'' 1 0 2 = Inr demo_aad \<and> aad_check demo_aad = Inr ()"
proof -
  have "aad_new ''ab'' ''cd'' 1 0 2 = Inr demo_aad"
    using demo_aad_check by (simp add: aad_new_eq_Inr demo_aad_def)
  then show ?thesis
    using canonical_identity_injective [of demo_aad demo_aad "''ab''" "''cd''" 1 0 2] by blast
qed

end
