(* ===== verification/Pgp_Engine_Laws.thy ===== *)
theory Pgp_Engine_Laws
  imports Pgp_Engine Chunk_Encryption_Laws
begin

text \<open>
  Facts about the OpenPGP engine: which key it uses, the contract of its signatures as an
  interpretation of \<open>signature_scheme\<close>, and the batch chunk helpers.

  What is asked of Sequoia is \<open>signs_for X E A\<close>: the armored certificate \<open>A\<close> parses, and the
  verification of a signature made by a live signing subkey of \<open>E\<close> reports it as good.
\<close>

section \<open>Signatures\<close>

lemma verify_check_ok: "verify_check ls = Inr () \<longleftrightarrow> (\<exists>rs. SignatureGroup rs \<in> set ls \<and> True \<in> set rs)"
  by (induction ls rule: verify_check.induct) (auto simp: list_ex_iff)

definition signs_for :: "sequoia \<Rightarrow> EncryptionEngine \<Rightarrow> string \<Rightarrow> bool" where
  "signs_for X E A \<longleftrightarrow>
     (\<exists>c. parse_cert X (as_bytes A) = Inr c
        \<and> (\<forall>k h m s. k \<in> set (id_keys (en_identity E)) \<longrightarrow> live_secret sk_signing k
             \<longrightarrow> into_keypair X k = Inr h \<longrightarrow> detached_sign X h m = Inr s \<longrightarrow>
             s \<noteq> [] \<and> verifier_builds X c s
             \<and> (\<exists>ls rs. structure_of X c s m = Some ls \<and> SignatureGroup rs \<in> set ls
                  \<and> True \<in> set rs)))"

definition base64_ok :: "sequoia \<Rightarrow> bool" where
  "base64_ok X \<longleftrightarrow> (\<forall>b. b64_decode X (b64_encode X b) = Inr b)
     \<and> (\<forall>b. b \<noteq> [] \<longrightarrow> b64_encode X b \<noteq> [])"

lemma sign_data_eq_Inr:
  "sign_data X E m = Inr s \<longleftrightarrow>
     (\<exists>k h. filter (live_secret sk_signing) (id_keys (en_identity E)) = [k]
        \<and> into_keypair X k = Inr h \<and> detached_sign X h m = Inr s)"
  by (auto simp: sign_data_def Let_def try_bind_eq_Inr split: list.split)

lemma sign_data_verifies:
  assumes "signs_for X E A" and "sign_data X E m = Inr s"
  shows "verify_detached X A m s = Inr True \<and> s \<noteq> []"
proof -
  from assms(2) obtain k h where k: "filter (live_secret sk_signing) (id_keys (en_identity E)) = [k]"
    and h: "into_keypair X k = Inr h" "detached_sign X h m = Inr s"
    by (auto simp: sign_data_eq_Inr)
  have "k \<in> set (filter (live_secret sk_signing) (id_keys (en_identity E)))" by (simp add: k)
  then have "k \<in> set (id_keys (en_identity E))" "live_secret sk_signing k" by simp_all
  with assms(1) h show ?thesis
    unfolding signs_for_def verify_detached_def
    by (fastforce simp: verify_check_ok)
qed

definition pgp_pairs :: "sequoia \<times> EncryptionEngine \<Rightarrow> sequoia \<times> string \<Rightarrow> bool" where
  "pgp_pairs k p \<longleftrightarrow> fst k = fst p \<and> signs_for (fst k) (snd k) (snd p)"

definition pgp_sign :: "sequoia \<times> EncryptionEngine \<Rightarrow> bytes \<Rightarrow> bytes CryptoResult" where
  "pgp_sign k m = sign_data (fst k) (snd k) m"

definition pgp_accepts :: "sequoia \<times> string \<Rightarrow> bytes \<Rightarrow> bytes \<Rightarrow> bool" where
  "pgp_accepts p m s \<longleftrightarrow> verify_detached (fst p) (snd p) m s = Inr True \<and> s \<noteq> []"

interpretation pgp: signature_scheme pgp_pairs pgp_sign pgp_accepts
  by unfold_locales (auto simp: pgp_pairs_def pgp_sign_def pgp_accepts_def dest: sign_data_verifies)

section \<open>Key selection\<close>

lemma filter_dead: "list_all (\<lambda>k. \<not> P k) dead \<Longrightarrow> filter P (a @ dead @ b) = filter P (a @ b)"
  by (induction dead) simp_all

definition with_keys :: "EncryptionEngine \<Rightarrow> subkey list \<Rightarrow> EncryptionEngine" where
  "with_keys E ks = E\<lparr>en_identity := (en_identity E)\<lparr>id_keys := ks\<rparr>\<rparr>"

lemma with_keys_simps [simp]:
  "id_keys (en_identity (with_keys E ks)) = ks"
  "en_key_version (with_keys E ks) = en_key_version E"
  by (simp_all add: with_keys_def)

lemma derive_k_repo_cong:
  assumes "filter (live_secret sk_transport) (id_keys (en_identity E))
         = filter (live_secret sk_transport) (id_keys (en_identity F))"
  shows "derive_k_repo V E = derive_k_repo V F"
  by (simp add: derive_k_repo_def assms)

lemma derive_k_repo_two_live:
  assumes "1 < length (filter (live_secret sk_transport) (id_keys (en_identity E)))"
  shows "\<exists>m. derive_k_repo V E = Inl (CryptoError.Encryption m)"
  using assms by (simp add: derive_k_repo_def Let_def)


definition demo_subkey :: "bool \<Rightarrow> subkey" where
  "demo_subkey revoked = \<lparr>sk_id = 0, sk_valid = True, sk_supported = True, sk_alive = True,
     sk_revoked = revoked, sk_transport = True, sk_storage = False, sk_signing = True,
     sk_secret = Some (Unencrypted (ECDH [1, 2]))\<rparr>"

lemma demo_subkey_live [simp]:
  "live_secret sk_transport (demo_subkey r) \<longleftrightarrow> \<not> r"
  "live_secret sk_signing (demo_subkey r) \<longleftrightarrow> \<not> r"
  by (simp_all add: live_secret_def demo_subkey_def)

definition demo_engine :: "subkey list \<Rightarrow> EncryptionEngine" where
  "demo_engine ks = \<lparr>en_identity = \<lparr>id_keys = ks, id_fingerprint = ''AB12'', id_user = ''a''\<rparr>,
     en_key_version = Some 1\<rparr>"

definition demo_env :: env where
  "demo_env = \<lparr>
     ev_prim = \<lparr>xchacha_new = (\<lambda>k. Some demo_aead), aes_gcm_new = (\<lambda>k. Some demo_aead),
                hkdf_sha256 = (\<lambda>s k i n. Some (take n (k @ i @ replicate n 0))),
                argon2id = (\<lambda>a b c d e f. None)\<rparr>,
     ev_hash = \<lparr>blake3_keyed = (\<lambda>k m. m), sha256 = (\<lambda>m. m), hmac_sha256 = (\<lambda>k m. m)\<rparr>,
     ev_msg_text = (\<lambda>m. ''''), ev_hkdf_error = ''''\<rparr>"


section \<open>Batches of chunks\<close>

text \<open>The ciphers a well-behaved environment makes.\<close>

definition env_ok :: "env \<Rightarrow> bool" where
  "env_ok V \<longleftrightarrow> (\<forall>k c. xchacha_new (ev_prim V) k = Some c \<longrightarrow> aead_ok c)"

lemma xchacha_engine_new_ok:
  assumes "env_ok V" and "xchacha_engine_new (ev_prim V) (ev_hash V) k = Inr e"
  shows "xc_ok e"
  using assms
  by (auto simp: xchacha_engine_new_def from_content_key_def try_bind_eq_Inr env_ok_def xc_ok_def
      split: if_splits)

lemma chunk_engine_ok: "env_ok V \<Longrightarrow> chunk_engine V E = Inr e \<Longrightarrow> xc_ok e"
  by (auto simp: chunk_engine_def try_bind_eq_Inr intro: xchacha_engine_new_ok)

text \<open>The pipeline engine is the chunk engine: there is one chunk format.\<close>

lemma chunk_engine_e1_iff: "chunk_engine_e1 V E = Inr e \<longleftrightarrow> chunk_engine V E = Inr e"
proof -
  have v3: "with_format_version e RepoUidKeyVersionV3 = Inr e"
    if "xchacha_engine_new (ev_prim V) (ev_hash V) k = Inr e" for k e
    using that
    by (auto simp: with_format_version_def xchacha_engine_new_def try_bind_eq_Inr
        from_content_key_def version_byte_defs split: if_splits)
  have "try_bind (xchacha_engine_new (ev_prim V) (ev_hash V) k)
          (\<lambda>e. with_format_version e RepoUidKeyVersionV3)
      = xchacha_engine_new (ev_prim V) (ev_hash V) k" for k
    by (cases "xchacha_engine_new (ev_prim V) (ev_hash V) k") (simp_all add: v3)
  then show ?thesis by (simp add: chunk_engine_e1_def chunk_engine_def try_bind_eq_Inr)
qed

lemma batch_key_version_eq_Inr:
  "batch_key_version E = Inr v \<longleftrightarrow> en_key_version E = Some v \<and> 1 \<le> v"
  by (auto simp: batch_key_version_def split: option.split)

lemma seal_batch:
  "try_bind (try_map (\<lambda>(n, chunk). try_bind (content_chunk_aad V uid kv chunk)
                        (\<lambda>aad. Inr (n, ck_data chunk, aad))) ncs)
      (try_map (\<lambda>(n, dat, aad). map_err f (encrypt_with_aad engine n dat aad))) = Inr blobs
   \<longleftrightarrow> list_all2 (\<lambda>(n, c) blob. \<exists>aad. content_chunk_aad V uid kv c = Inr aad
         \<and> encrypt_with_aad engine n (ck_data c) aad = Inr blob) ncs blobs"
  unfolding try_map_try_map_eq_Inr
  by (rule list.rel_cong [OF refl refl]) (auto simp: try_bind_eq_Inr split: prod.splits)

lemma encrypt_chunks_parallel_eq_Inr:
  "encrypt_chunks_parallel V E uid ncs = Inr blobs \<longleftrightarrow>
     (\<exists>kv engine. en_key_version E = Some kv \<and> 1 \<le> kv \<and> chunk_engine V E = Inr engine
        \<and> list_all2 (\<lambda>(n, c) blob. \<exists>aad. content_chunk_aad V uid kv c = Inr aad
             \<and> encrypt_with_aad engine n (ck_data c) aad = Inr blob) ncs blobs)"
  unfolding encrypt_chunks_parallel_def
  by (simp only: try_bind_eq_Inr [where r = "batch_key_version E"]
      try_bind_eq_Inr [where r = "chunk_engine V E"] seal_batch batch_key_version_eq_Inr) blast

lemma encrypt_chunks_e1_parallel_eq_Inr:
  "encrypt_chunks_e1_parallel V E uid ncs = Inr blobs
     \<longleftrightarrow> encrypt_chunks_parallel V E uid ncs = Inr blobs"
  unfolding encrypt_chunks_e1_parallel_def encrypt_chunks_parallel_eq_Inr
  by (simp only: try_bind_eq_Inr [where r = "batch_key_version E"] chunk_engine_e1_iff
      try_bind_eq_Inr [where r = "chunk_engine_e1 V E"] seal_batch batch_key_version_eq_Inr) blast

definition content_identity :: "string \<Rightarrow> u32 \<Rightarrow> Chunk \<Rightarrow> ChunkAad" where
  "content_identity uid kv c = \<lparr>repo_uid = uid, chunk_name = ck_hash c, key_version = kv,
     stream_offset = 0, aad_size = word_of_nat (ck_size c)\<rparr>"

lemma content_chunk_aad_eq_Inr:
  "content_chunk_aad V uid kv c = Inr aad
     \<longleftrightarrow> aad = content_identity uid kv c \<and> aad_check aad = Inr ()"
  by (auto simp: content_chunk_aad_def aad_content_def aad_new_eq_Inr content_identity_def)

lemma opens_sealed_batch:
  assumes "xc_ok engine"
    and "list_all2 (\<lambda>(n, c) blob. \<exists>aad. content_chunk_aad V uid kv c = Inr aad
             \<and> encrypt_with_aad engine n (ck_data c) aad = Inr blob) ncs blobs"
    and "\<forall>(n, c) \<in> set ncs. length n = 24"
  shows "try_map (\<lambda>(blob, aad). map_err f (decrypt_with_aad engine blob aad))
      (zip blobs (map (content_identity uid kv \<circ> snd) ncs)) = Inr (map (ck_data \<circ> snd) ncs)"
  using assms(2,3)
proof (induction rule: list_all2_induct)
  case Nil
  then show ?case by simp
next
  case (Cons nc ncs blob blobs)
  obtain n c where nc: "nc = (n, c)" by (cases nc)
  with Cons have "encrypt_with_nonce engine (ck_data c) n (content_identity uid kv c) = Inr blob"
    and "length n = 24"
    by (auto simp: content_chunk_aad_eq_Inr encrypt_with_aad_def)
  from xc_open_seal [OF assms(1) this(2,1)] Cons nc show ?case by simp
qed

text \<open>What the batch helpers seal, by either pipeline, opens as a batch: the plaintexts come
  back in order under the identities of the repository uid, the chunk names and the engine's own
  key version. They seal only if the engine was told a version, at least 1, and refuse a batch
  whose identities are not as many as its chunks.\<close>

theorem batch_round_trip:
  assumes "env_ok V" and "\<forall>(n, c) \<in> set ncs. length n = 24"
    and "encrypt_chunks_parallel V E uid ncs = Inr blobs"
  shows "\<exists>kv. en_key_version E = Some kv \<and> 1 \<le> kv
    \<and> encrypt_chunks_e1_parallel V E uid ncs = Inr blobs
    \<and> (\<forall>c \<in> snd ` set ncs. aad_content uid (ck_hash c) kv (word_of_nat (ck_size c))
         = Inr (content_identity uid kv c))
    \<and> decrypt_chunks_parallel V E blobs (map (content_identity uid kv \<circ> snd) ncs)
        = Inr (map (ck_data \<circ> snd) ncs)
    \<and> (\<forall>aads. length aads \<noteq> length blobs \<longrightarrow>
         (\<exists>m. decrypt_chunks_parallel V E blobs aads = Inl (CryptoError.Decryption m)))"
proof -
  from assms(3) obtain kv engine where kv: "en_key_version E = Some kv" "1 \<le> kv"
    and e: "chunk_engine V E = Inr engine"
    and sealed: "list_all2 (\<lambda>(n, c) blob. \<exists>aad. content_chunk_aad V uid kv c = Inr aad
             \<and> encrypt_with_aad engine n (ck_data c) aad = Inr blob) ncs blobs"
    by (auto simp: encrypt_chunks_parallel_eq_Inr)
  have len: "length blobs = length ncs" using list_all2_lengthD [OF sealed] by simp
  have "\<forall>c \<in> snd ` set ncs. aad_content uid (ck_hash c) kv (word_of_nat (ck_size c))
         = Inr (content_identity uid kv c)"
    using sealed
    by (fastforce simp: list_all2_conv_all_nth in_set_conv_nth content_chunk_aad_eq_Inr
        aad_content_def aad_new_eq_Inr content_identity_def split: prod.splits)
  moreover have "decrypt_chunks_parallel V E blobs (map (content_identity uid kv \<circ> snd) ncs)
        = Inr (map (ck_data \<circ> snd) ncs)"
    using opens_sealed_batch [OF chunk_engine_ok [OF assms(1) e] sealed assms(2)]
    by (simp add: decrypt_chunks_parallel_def e len)
  ultimately show ?thesis
    using kv assms(3)
    by (auto simp: encrypt_chunks_e1_parallel_eq_Inr decrypt_chunks_parallel_def)
qed

definition demo_content_key :: bytes where
  "demo_content_key = take 32 (take 32 ([1, 2] @ K_REPO_INFO @ replicate 32 0) @ CONTENT_KEY_INFO @ replicate 32 0)"

definition demo_batch_engine :: XChaChaChunkEngine where
  "demo_batch_engine = \<lparr>xc_cipher = demo_aead,
     xc_key_id = take 16 (hex_encode demo_content_key), emit_version = 3\<rparr>"

lemma demo_chunk_engine: "chunk_engine demo_env (demo_engine [demo_subkey False]) = Inr demo_batch_engine"
  by (simp add: chunk_engine_def derive_k_repo_def demo_engine_def demo_env_def demo_subkey_def live_secret_def
      xchacha_engine_new_def derive_content_key_def from_content_key_def compute_hash_def
      demo_batch_engine_def demo_content_key_def version_byte_defs XC_KEY_SIZE_def)

definition demo_batch_blob :: bytes where
  "demo_batch_blob = 3 # replicate 24 9 @ [5, 6]
     @ demo_tag (3 # canonical_aad_bytes (content_identity ''ab'' 1 demo_chunk)) [5, 6]"

lemma demo_batch:
  "encrypt_chunks_parallel demo_env (demo_engine [demo_subkey False]) ''ab''
     [(replicate 24 9, demo_chunk)] = Inr [demo_batch_blob]"
proof -
  have "aad_check (content_identity ''ab'' 1 demo_chunk) = Inr ()"
    by (simp add: aad_check_eq_Inr content_identity_def demo_chunk_def byte_of_char_def)
  then show ?thesis
    by (simp add: encrypt_chunks_parallel_eq_Inr demo_chunk_engine content_chunk_aad_eq_Inr)
       (simp add: demo_engine_def encrypt_with_aad_def encrypt_with_nonce_eq_Inr demo_batch_engine_def
         demo_aead_def demo_batch_blob_def demo_chunk_def)
qed

lemma demo_env_ok: "env_ok demo_env"
  by (auto simp: env_ok_def demo_env_def demo_aead_ok)

theorem batch_round_trip_witness:
  "\<exists>kv. en_key_version (demo_engine [demo_subkey False]) = Some kv \<and> 1 \<le> kv
     \<and> decrypt_chunks_parallel demo_env (demo_engine [demo_subkey False]) [demo_batch_blob]
         [content_identity ''ab'' kv demo_chunk] = Inr [[5, 6]]"
  using batch_round_trip [OF demo_env_ok _ demo_batch] by (auto simp: demo_chunk_def)

end
