(* ===== verification/Grant_Laws.thy ===== *)
theory Grant_Laws
  imports Grant_Signing Pgp_Engine_Laws
begin

text \<open>
  The theorems about repository-key grants: what a recipient accepts, that it accepts what a
  granter builds, and that an accepted bundle is one the granter signed, with its delegation.
\<close>

section \<open>Fingerprints\<close>

lemma normalize_ascii:
  "list_all is_ascii s \<Longrightarrow>
     normalize_fingerprint U s = map ascii_upper (filter (\<lambda>c. \<not> ascii_ws c) s)"
  by (simp add: normalize_fingerprint_def utf8_chars_ascii)
     (induction s; simp add: to_uppercase_char_def ascii_char_def)

lemma normalize_idem:
  "list_all is_ascii s \<Longrightarrow>
     normalize_fingerprint U (normalize_fingerprint U s) = normalize_fingerprint U s"
  by (induction s)
     (simp_all add: normalize_ascii is_ascii_upper ascii_ws_upper list_all_iff)

section \<open>The canonicals are signed objects\<close>

definition grant_fields :: "unicode \<Rightarrow> RepoKeyGrant \<Rightarrow> string list" where
  "grant_fields U g =
     [gr_repo_uid g, int_to_string (gr_key_version g),
      normalize_fingerprint U (gr_recipient_fingerprint g),
      normalize_fingerprint U (gr_granter_fingerprint g),
      gr_key_material_b64 g, int_to_string (gr_timestamp_unix g)]"

definition delegation_fields :: "GrantDelegation \<Rightarrow> string list" where
  "delegation_fields d =
     [dl_repo_uid d, dl_delegate_account d, dl_delegate_fingerprint d,
      nat_to_string (unat (dl_key_version d)), int_to_string (dl_timestamp_unix d),
      int_to_string (dl_expires_at_unix d), dl_delegation_sig_b64 d]"

lemma delegation_fields_inject [simp]: "delegation_fields d = delegation_fields e \<longleftrightarrow> d = e"
  by (cases d, cases e) (auto simp: delegation_fields_def word_unat_eq_iff)

interpretation plain_grant: signed_object GRANT_CANONICAL_VERSION "grant_fields U" "grant_canonical U"
    pgp_pairs pgp_sign pgp_accepts for U
  by unfold_locales (simp add: grant_canonical_def grant_fields_def Let_def lp_push_lp)

interpretation delegated_grant: signed_object DELEGATED_GRANT_CANONICAL_VERSION
    "\<lambda>(g, d). grant_fields U g @ delegation_fields d"
    "\<lambda>(g, d). canonical_with_delegation U g (Some d)" pgp_pairs pgp_sign pgp_accepts for U
  by unfold_locales
     (auto simp: canonical_with_delegation_def grant_fields_def delegation_fields_def Let_def lp_push_lp)

lemma canonical_fields:
  "canonical_with_delegation U g del = (case del of
     None \<Rightarrow> lp_fields (GRANT_CANONICAL_VERSION # grant_fields U g)
   | Some d \<Rightarrow> lp_fields (DELEGATED_GRANT_CANONICAL_VERSION # grant_fields U g @ delegation_fields d))"
  using plain_grant.canonical_fields [of U g] delegated_grant.canonical_fields [of U]
  by (cases del) (auto simp: canonical_with_delegation_def)

lemma tags_differ: "GRANT_CANONICAL_VERSION \<noteq> DELEGATED_GRANT_CANONICAL_VERSION"
  by (simp add: GRANT_CANONICAL_VERSION_def DELEGATED_GRANT_CANONICAL_VERSION_def)

lemma canonical_with_delegation_inject [code_inj]:
  "canonical_with_delegation U g del = canonical_with_delegation U h del'
     \<longleftrightarrow> grant_fields U g = grant_fields U h \<and> del = del'"
proof -
  have "length (grant_fields U g) = length (grant_fields U h)" by (simp add: grant_fields_def)
  then show ?thesis
    using tags_differ
    by (auto simp: canonical_fields simp del: lp_fields_simps split: option.splits)
qed

lemma grant_fields_eq:
  "grant_fields U g = grant_fields U h \<longleftrightarrow>
     gr_repo_uid g = gr_repo_uid h \<and> gr_key_version g = gr_key_version h
     \<and> normalize_fingerprint U (gr_recipient_fingerprint g) = normalize_fingerprint U (gr_recipient_fingerprint h)
     \<and> normalize_fingerprint U (gr_granter_fingerprint g) = normalize_fingerprint U (gr_granter_fingerprint h)
     \<and> gr_key_material_b64 g = gr_key_material_b64 h \<and> gr_timestamp_unix g = gr_timestamp_unix h"
  by (simp add: grant_fields_def)

section \<open>Acceptance\<close>

lemma verify_signed_bytes_eq_True:
  "verify_signed_bytes X A m sig64 = Inr True \<longleftrightarrow>
     sig64 \<noteq> [] \<and> (\<exists>sig. b64_decode X sig64 = Inr sig \<and> verify_detached X A m sig = Inr True)"
  by (simp add: verify_signed_bytes_def try_bind_eq_Inr)

lemma verify_grant_bundle_unfold:
  "verify_grant_bundle X U b A served uid kv recipient =
     (let claimed = normalize_fingerprint U (gb_granter_fingerprint b);
          served = normalize_fingerprint U served
      in if claimed \<noteq> served then GranterFingerprintMismatch claimed served
         else if uid = [] \<or> gb_repo_uid b \<noteq> uid then SignatureInvalid
         else case verify_signed_bytes X A
                (canonical_with_delegation U (to_grant U b kv recipient) (gb_delegation b))
                (gb_grant_sig_b64 b) of
             Inr True \<Rightarrow> Valid | Inr False \<Rightarrow> SignatureInvalid
           | Inl e \<Rightarrow> Malformed (crypto_error_text e))"
  by (cases "gb_delegation b")
     (simp_all add: verify_grant_bundle_def verify_repo_key_grant_def Let_def
       canonical_with_delegation_def)


section \<open>Round trip\<close>

text \<open>A bundle built by an identity verifies as \<open>Valid\<close> for the repository, version and
  recipient it was built for, with or without a delegation, whichever rendering (spacing, case)
  of the two fingerprints the recipient has; no name of the repository takes part, so a rename
  does not matter.\<close>

theorem grant_bundle_round_trip:
  assumes "signs_for X E A" and "base64_ok X"
    and "list_all is_ascii (id_fingerprint (en_identity E))" and "uid \<noteq> []"
    and "build_signed_repo_grant_bundle X U E uid kv recipient key ts del = Inr b"
    and "normalize_fingerprint U served = normalize_fingerprint U (id_fingerprint (en_identity E))"
    and "normalize_fingerprint U recipient' = normalize_fingerprint U recipient"
  shows "verify_grant_bundle X U b A served uid kv recipient' = Valid"
proof -
  let ?fp = "normalize_fingerprint U (id_fingerprint (en_identity E))"
  let ?g = "grant_new U uid kv recipient ?fp key ts"
  from assms(5) obtain sig where
    sig: "sign_data X E (canonical_with_delegation U ?g del) = Inr sig"
    and b: "b = \<lparr>gb_v = GRANT_CANONICAL_VERSION, gb_repo_uid = uid, gb_key_material_b64 = key,
       gb_granter_fingerprint = ?fp, gb_timestamp_unix = ts, gb_grant_sig_b64 = b64_encode X sig,
       gb_delegation = del\<rparr>"
    by (auto simp: build_signed_repo_grant_bundle_def Let_def try_bind_eq_Inr)
  have "grant_fields U (to_grant U b kv recipient') = grant_fields U ?g"
    by (simp add: grant_fields_def to_grant_def grant_new_def b assms(7))
  then have canon: "canonical_with_delegation U (to_grant U b kv recipient') del
      = canonical_with_delegation U ?g del"
    by (simp add: canonical_with_delegation_inject)
  have "verify_detached X A (canonical_with_delegation U (to_grant U b kv recipient') del) sig = Inr True"
    "sig \<noteq> []"
    using sign_data_verifies [OF assms(1) sig] by (simp_all add: canon)
  with assms(2) have "verify_signed_bytes X A
      (canonical_with_delegation U (to_grant U b kv recipient') del) (b64_encode X sig) = Inr True"
    by (auto simp: verify_signed_bytes_eq_True base64_ok_def)
  then show ?thesis
    using assms(4,6) normalize_idem [OF assms(3)]
    by (simp add: verify_grant_bundle_unfold b)
qed

definition demo_pgp :: sequoia where
  "demo_pgp = \<lparr>
     parse_cert = (\<lambda>a. Inr a),
     verifier_builds = (\<lambda>c s. s \<noteq> []),
     structure_of = (\<lambda>c s m. Some [SignatureGroup [s = 1 # c @ m]]),
     into_keypair = (\<lambda>k. Inr (sk_id k)),
     detached_sign = (\<lambda>h m. Inr (1 # as_bytes ''cert'' @ m)),
     encrypt_stream = (\<lambda>ks m. Inr m),
     pkesk_decrypt = (\<lambda>p h. None),
     run_decryptor = (\<lambda>d c m. Inr m),
     b64_encode = hex_encode,
     b64_decode = (\<lambda>s. ok_or ''invalid'' (hex_decode s))\<rparr>"

lemma demo_pgp_signs: "signs_for demo_pgp (demo_engine ks) ''cert''"
  by (simp add: signs_for_def demo_pgp_def)

lemma demo_pgp_base64: "base64_ok demo_pgp"
  by (auto simp: base64_ok_def demo_pgp_def dest: arg_cong [where f = length] simp: code_len)

definition demo_delegation :: GrantDelegation where
  "demo_delegation = \<lparr>dl_repo_uid = ''u'', dl_delegate_account = ''a@b'', dl_delegate_fingerprint = ''AB12'',
     dl_key_version = 1, dl_timestamp_unix = 5, dl_expires_at_unix = 9, dl_delegation_sig_b64 = ''00''\<rparr>"

definition demo_bundle :: GrantBundle where
  "demo_bundle = \<lparr>gb_v = GRANT_CANONICAL_VERSION, gb_repo_uid = ''u'', gb_key_material_b64 = ''a2V5'',
     gb_granter_fingerprint = ''AB12'', gb_timestamp_unix = 7,
     gb_grant_sig_b64 = hex_encode (1 # as_bytes ''cert'' @ canonical_with_delegation demo_unicode
       (grant_new demo_unicode ''u'' 1 ''cd 34'' ''AB12'' ''a2V5'' 7) (Some demo_delegation)),
     gb_delegation = Some demo_delegation\<rparr>"

lemma demo_fingerprints:
  "normalize_fingerprint demo_unicode ''AB12'' = ''AB12''"
  "normalize_fingerprint demo_unicode ''ab 12'' = ''AB12''"
  "normalize_fingerprint demo_unicode ''cd 34'' = ''CD34''"
  "normalize_fingerprint demo_unicode ''CD34'' = ''CD34''"
  by (simp_all add: normalize_ascii is_ascii_def code_of_def ascii_upper_def ascii_ws_def char_of_eq_iff)

lemma demo_bundle_built:
  "build_signed_repo_grant_bundle demo_pgp demo_unicode (demo_engine [demo_subkey False]) ''u'' 1
     ''cd 34'' ''a2V5'' 7 (Some demo_delegation) = Inr demo_bundle"
proof -
  let ?m = "canonical_with_delegation demo_unicode
       (grant_new demo_unicode ''u'' 1 ''cd 34'' ''AB12'' ''a2V5'' 7) (Some demo_delegation)"
  have "sign_data demo_pgp (demo_engine [demo_subkey False]) ?m = Inr (1 # as_bytes ''cert'' @ ?m)"
    by (simp add: sign_data_eq_Inr demo_engine_def demo_pgp_def)
  moreover have "id_fingerprint (en_identity (demo_engine [demo_subkey False])) = ''AB12''"
    "b64_encode demo_pgp = hex_encode"
    by (simp_all add: demo_engine_def demo_pgp_def)
  ultimately show ?thesis
    by (simp add: build_signed_repo_grant_bundle_def Let_def demo_fingerprints demo_bundle_def)
qed

theorem grant_bundle_round_trip_witness:
  "verify_grant_bundle demo_pgp demo_unicode demo_bundle ''cert'' ''ab 12'' ''u'' 1 ''CD34'' = Valid"
  by (rule grant_bundle_round_trip [OF demo_pgp_signs demo_pgp_base64 _ _ demo_bundle_built])
     (simp_all add: demo_fingerprints, simp_all add: demo_engine_def is_ascii_def code_of_def demo_fingerprints)

section \<open>Authorship\<close>

text \<open>C5: Suppose every message that verifies under the granter's certificate is either a grant
  canonical the granter signed, one of \<open>S\<close>, or begins with another domain tag (the key signs
  other protocols too). Then an accepted bundle is a grant of \<open>S\<close>: same repository, version, key
  material, time, recipient and granter up to rendering, and exactly the delegation that was
  signed with it. A relay can neither strip, swap nor edit a delegation, nor re-aim a grant.\<close>

theorem accepted_grant_was_signed:
  assumes "\<And>m sig. verify_detached X A m sig = Inr True \<Longrightarrow>
      (\<exists>(g, del) \<in> S. m = canonical_with_delegation U g del)
      \<or> (\<exists>t fs. t \<noteq> GRANT_CANONICAL_VERSION \<and> t \<noteq> DELEGATED_GRANT_CANONICAL_VERSION
           \<and> m = lp_fields (t # fs))"
    and "allow (verify_grant_bundle X U b A served uid kv recipient)"
  shows "\<exists>g. (g, gb_delegation b) \<in> S \<and> gr_repo_uid g = uid \<and> gr_key_version g = kv
    \<and> gr_key_material_b64 g = gb_key_material_b64 b \<and> gr_timestamp_unix g = gb_timestamp_unix b
    \<and> normalize_fingerprint U (gr_recipient_fingerprint g)
        = normalize_fingerprint U (normalize_fingerprint U recipient)
    \<and> normalize_fingerprint U (gr_granter_fingerprint g)
        = normalize_fingerprint U (normalize_fingerprint U served)"
proof -
  let ?g = "to_grant U b kv recipient"
  have acc: "allow (verify_grant_bundle X U b A served uid kv recipient) \<Longrightarrow>
     normalize_fingerprint U (gb_granter_fingerprint b) = normalize_fingerprint U served
     \<and> gb_repo_uid b = uid
     \<and> (\<exists>sig. verify_detached X A (canonical_with_delegation U ?g (gb_delegation b)) sig = Inr True)"
    by (auto simp: verify_grant_bundle_unfold Let_def verify_signed_bytes_eq_True
        split: if_splits sum.splits bool.splits)
  from acc [OF assms(2)] assms(1) consider
      g del where "(g, del) \<in> S"
        "canonical_with_delegation U ?g (gb_delegation b) = canonical_with_delegation U g del"
    | t fs where "t \<noteq> GRANT_CANONICAL_VERSION" "t \<noteq> DELEGATED_GRANT_CANONICAL_VERSION"
        "canonical_with_delegation U ?g (gb_delegation b) = lp_fields (t # fs)"
    by blast
  then show ?thesis
  proof cases
    case 1
    then have "grant_fields U g = grant_fields U ?g" "del = gb_delegation b"
      by (simp_all add: canonical_with_delegation_inject)
    with 1(1) acc [OF assms(2)] show ?thesis
      by (intro exI [of _ g]) (auto simp: grant_fields_eq to_grant_def grant_new_def)
  next
    case 2
    then show ?thesis
      by (auto simp: canonical_fields simp del: lp_fields_simps split: option.splits)
  qed
qed

theorem accepted_grant_was_signed_witness:
  "\<exists>g. (g, gb_delegation demo_bundle)
      \<in> {(grant_new demo_unicode ''u'' 1 ''cd 34'' ''AB12'' ''a2V5'' 7, Some demo_delegation)}
    \<and> gr_repo_uid g = ''u'' \<and> gr_key_version g = 1"
proof -
  let ?g = "grant_new demo_unicode ''u'' 1 ''cd 34'' ''AB12'' ''a2V5'' 7"
  let ?c = "canonical_with_delegation demo_unicode ?g (Some demo_delegation)"
  let ?X = "demo_pgp\<lparr>structure_of := (\<lambda>c s m. Some [SignatureGroup [s = 1 # c @ m \<and> m = ?c]])\<rparr>"
  have only: "verify_detached ?X ''cert'' m sig = Inr True \<Longrightarrow>
      (\<exists>(g, del) \<in> {(?g, Some demo_delegation)}. m = canonical_with_delegation demo_unicode g del)
      \<or> (\<exists>t fs. t \<noteq> GRANT_CANONICAL_VERSION \<and> t \<noteq> DELEGATED_GRANT_CANONICAL_VERSION
           \<and> m = lp_fields (t # fs))" for m sig
    by (auto simp: verify_detached_def demo_pgp_def split: if_splits)
  have g: "to_grant demo_unicode demo_bundle 1 ''CD34'' = ?g"
    by (simp add: to_grant_def grant_new_def demo_bundle_def demo_fingerprints)
  have "verify_signed_bytes ?X ''cert'' ?c (hex_encode (1 # as_bytes ''cert'' @ ?c)) = Inr True"
    unfolding verify_signed_bytes_eq_True
    by (intro conjI exI [of _ "1 # as_bytes ''cert'' @ ?c"])
       (simp_all add: verify_detached_def demo_pgp_def del: hex_encode_simps)
  then have "allow (verify_grant_bundle ?X demo_unicode demo_bundle ''cert'' ''ab 12'' ''u'' 1 ''CD34'')"
    unfolding verify_grant_bundle_unfold g
    by (simp add: demo_bundle_def demo_fingerprints)
  from accepted_grant_was_signed [of ?X "''cert''" "{(?g, Some demo_delegation)}" demo_unicode
      demo_bundle "''ab 12''" "''u''" 1 "''CD34''", OF only this]
  show ?thesis by auto
qed

end
