(* ===== verification/Identity_Succession.thy ===== *)
theory Identity_Succession
  imports Master Grant_Laws
begin

text \<open>
  \<open>gitcellar-crypto/src/identity_succession.rs\<close>: the statement by which an account's recovery
  master replaces the account's identity key, and the evidence canonical of its first key.
\<close>

section \<open>Definitions\<close>

definition IDENTITY_SUCCESSION_VERSION :: string where
  "IDENTITY_SUCCESSION_VERSION = ''gc-identity-succession-v1''"

datatype SuccessionError =
    EmptyField string
  | SameIdentity
  | NotNewerVersion u32 u32
  | SuccessionInvalidPublicKey string
  | SuccessionSignatureInvalid
  | MalformedSignature string

record IdentitySuccession =
  is_account :: string
  is_old_fingerprint :: string
  is_new_fingerprint :: string
  is_new_key_version :: u32
  is_issued_at_unix :: int

definition normalize_account :: "unicode \<Rightarrow> string \<Rightarrow> string" where
  "normalize_account U account = to_ascii_lowercase (trim U account)"

definition succession_new :: "unicode \<Rightarrow> string \<Rightarrow> string \<Rightarrow> string \<Rightarrow> u32 \<Rightarrow> int \<Rightarrow> IdentitySuccession" where
  "succession_new U account old_fp new_fp v t =
     \<lparr>is_account = normalize_account U account,
      is_old_fingerprint = normalize_fingerprint U old_fp,
      is_new_fingerprint = normalize_fingerprint U new_fp,
      is_new_key_version = v, is_issued_at_unix = t\<rparr>"

definition succession_canonical :: "unicode \<Rightarrow> IdentitySuccession \<Rightarrow> bytes" where
  "succession_canonical U s =
     (let out = lp_push [] IDENTITY_SUCCESSION_VERSION;
          out = lp_push out (normalize_account U (is_account s));
          out = lp_push out (normalize_fingerprint U (is_old_fingerprint s));
          out = lp_push out (normalize_fingerprint U (is_new_fingerprint s));
          out = lp_push out (nat_to_string (unat (is_new_key_version s)))
      in lp_push out (int_to_string (is_issued_at_unix s)))"

definition validate_shape :: "unicode \<Rightarrow> IdentitySuccession \<Rightarrow> SuccessionError + unit" where
  "validate_shape U s =
     (if normalize_account U (is_account s) = [] then Inl (EmptyField ''account'')
      else let old_fp = normalize_fingerprint U (is_old_fingerprint s);
               new_fp = normalize_fingerprint U (is_new_fingerprint s)
           in if old_fp = [] then Inl (EmptyField ''old_fingerprint'')
              else if new_fp = [] then Inl (EmptyField ''new_fingerprint'')
              else if old_fp = new_fp then Inl SameIdentity
              else Inr ())"

definition sign_identity_succession ::
    "ed25519 \<Rightarrow> unicode \<Rightarrow> MaterializedMaster \<Rightarrow> IdentitySuccession \<Rightarrow> SuccessionError + bytes" where
  "sign_identity_succession D U m s =
     try_bind (validate_shape U s) (\<lambda>_. Inr (master_sign D m (succession_canonical U s)))"

definition verify_identity_succession ::
    "ed25519 \<Rightarrow> unicode \<Rightarrow> bytes \<Rightarrow> IdentitySuccession \<Rightarrow> bytes \<Rightarrow> u32 \<Rightarrow> SuccessionError + unit" where
  "verify_identity_succession D U expected_master_pubkey s sig current_key_version =
     try_bind (validate_shape U s) (\<lambda>_.
     if is_new_key_version s \<le> current_key_version
     then Inl (NotNewerVersion (is_new_key_version s) current_key_version)
     else map_err (\<lambda>e. case e of MasterInvalidPublicKey m \<Rightarrow> SuccessionInvalidPublicKey m
                             | _ \<Rightarrow> SuccessionSignatureInvalid)
            (verify_with_pubkey D expected_master_pubkey (succession_canonical U s) sig))"

definition FIRST_KEY_EVIDENCE_VERSION :: string where
  "FIRST_KEY_EVIDENCE_VERSION = ''gc-kt-first-key-evidence-v1''"

definition first_key_evidence_canonical ::
    "hashes \<Rightarrow> string \<Rightarrow> string \<Rightarrow> bytes \<Rightarrow> bytes \<Rightarrow> bytes" where
  "first_key_evidence_canonical H account entry_hash master_public_key certificate_cbor =
     (let out = lp_push [] FIRST_KEY_EVIDENCE_VERSION;
          out = lp_push out account;
          out = lp_push out entry_hash;
          out = lp_push out (hex_encode master_public_key)
      in lp_push out (hex_encode (sha256 H certificate_cbor)))"

definition encode_succession_signature :: "sequoia \<Rightarrow> bytes \<Rightarrow> string" where
  "encode_succession_signature X sig = b64_encode X sig"

definition decode_succession_signature :: "sequoia \<Rightarrow> string \<Rightarrow> SuccessionError + bytes" where
  "decode_succession_signature X signature_b64 =
     try_bind (map_err MalformedSignature (b64_decode X signature_b64)) (\<lambda>raw.
     if length raw = 64 then Inr raw
     else Inl (MalformedSignature (nat_to_string (length raw) @ '' bytes, expected 64'')))"

section \<open>The statement is a signed object\<close>

definition succession_fields :: "unicode \<Rightarrow> IdentitySuccession \<Rightarrow> string list" where
  "succession_fields U s =
     [normalize_account U (is_account s), normalize_fingerprint U (is_old_fingerprint s),
      normalize_fingerprint U (is_new_fingerprint s), nat_to_string (unat (is_new_key_version s)),
      int_to_string (is_issued_at_unix s)]"

interpretation succession: signed_object IDENTITY_SUCCESSION_VERSION "succession_fields U"
    "succession_canonical U" ed_pairs ed_signs ed_accepts for U
  by unfold_locales (simp add: succession_canonical_def succession_fields_def Let_def lp_push_lp)

interpretation first_key_evidence: signed_statement FIRST_KEY_EVIDENCE_VERSION
    "\<lambda>(a, h, k, c). [a, h, hex_encode k, hex_encode (sha256 H c)]"
    "\<lambda>(a, h, k, c). first_key_evidence_canonical H a h k c" for H
  by unfold_locales (auto simp: first_key_evidence_canonical_def Let_def lp_push_lp)

lemma validate_shape_cong:
  "succession_fields U s = succession_fields U t \<Longrightarrow> validate_shape U s = validate_shape U t"
  by (simp add: succession_fields_def validate_shape_def)

lemma validate_shape_eq_Inr:
  "validate_shape U s = Inr () \<longleftrightarrow>
     normalize_account U (is_account s) \<noteq> []
     \<and> normalize_fingerprint U (is_old_fingerprint s) \<noteq> []
     \<and> normalize_fingerprint U (is_new_fingerprint s) \<noteq> []
     \<and> normalize_fingerprint U (is_old_fingerprint s) \<noteq> normalize_fingerprint U (is_new_fingerprint s)"
  by (simp add: validate_shape_def Let_def)

lemma verify_identity_succession_eq_Inr:
  "verify_identity_succession D U pk s sig cur = Inr () \<longleftrightarrow>
     validate_shape U s = Inr () \<and> cur < is_new_key_version s
     \<and> ed_accepts (D, pk) (succession_canonical U s) sig"
  by (auto simp: verify_identity_succession_def try_bind_eq_Inr ed_accepts_def not_le)

lemma succession_signature_round_trip:
  "base64_ok X \<Longrightarrow> length sig = 64 \<Longrightarrow>
     decode_succession_signature X (encode_succession_signature X sig) = Inr sig"
  by (simp add: decode_succession_signature_def encode_succession_signature_def base64_ok_def)

section \<open>Properties\<close>

text \<open>A statement the master signs verifies under the master's public key exactly when its
  version is newer than the current one, in whatever rendering of account and fingerprints the
  verifier holds it. The signer refuses the statements that could never verify, so a signed
  statement is never refused for its shape.\<close>

theorem succession_round_trip:
  assumes "ed25519_ok D" and "master_wf D m"
    and "sign_identity_succession D U m s = Inr sig"
    and "succession_fields U t = succession_fields U s"
  shows "verify_identity_succession D U (public_key m) t sig cur =
      (if cur < is_new_key_version s then Inr ()
       else Inl (NotNewerVersion (is_new_key_version s) cur))"
proof -
  from assms(3) have shape: "validate_shape U s = Inr ()"
    and sig: "sig = master_sign D m (succession_canonical U s)"
    by (auto simp: sign_identity_succession_def try_bind_eq_Inr)
  have version: "is_new_key_version t = is_new_key_version s"
    using assms(4) by (simp add: succession_fields_def word_unat_eq_iff)
  have "ed_accepts (D, public_key m) (succession_canonical U t) sig"
    by (rule succession.rebuilt_accepts [where k = "(D, secret_bytes m)", OF _ _ assms(4)])
       (use assms(1,2) in \<open>simp_all add: ed_pairs_def ed_signs_def sig master_sign_def master_wf_def\<close>)
  then show ?thesis
    using shape validate_shape_cong [OF assms(4)] version
    by (auto simp: verify_identity_succession_def ed_accepts_def not_le)
qed

definition demo_ed :: ed25519 where
  "demo_ed = \<lparr>ed_public = (\<lambda>sk. rev sk), ed_sign = (\<lambda>sk m. sk @ m), ed_parse = (\<lambda>p. Inr ()),
     ed_verify_strict = (\<lambda>p m s. s = rev p @ m), ed_verify = (\<lambda>p m s. s = rev p @ m),
     bip39_seed = (\<lambda>s. Inr (as_bytes s))\<rparr>"

lemma demo_ed_ok: "ed25519_ok demo_ed"
  by (simp add: ed25519_ok_def demo_ed_def)

definition demo_master :: MaterializedMaster where
  "demo_master = \<lparr>secret_bytes = [1, 2], public_key = [2, 1]\<rparr>"

lemma demo_master_wf: "master_wf demo_ed demo_master"
  by (simp add: master_wf_def demo_master_def demo_ed_def)

definition demo_succession :: IdentitySuccession where
  "demo_succession = \<lparr>is_account = ''a'', is_old_fingerprint = ''AB'', is_new_fingerprint = ''CD'',
     is_new_key_version = 2, is_issued_at_unix = 7\<rparr>"

lemma demo_succession_shape: "validate_shape demo_unicode demo_succession = Inr ()"
  by (simp add: validate_shape_eq_Inr demo_succession_def normalize_ascii normalize_account_def
      to_ascii_lowercase_def trim_def utf8_chars_ascii is_ascii_def code_of_def ascii_ws_def
      ascii_upper_def is_whitespace_def ascii_char_def is_continuation_def)

lemma demo_succession_signed:
  "sign_identity_succession demo_ed demo_unicode demo_master demo_succession
     = Inr ([1, 2] @ succession_canonical demo_unicode demo_succession)"
  by (simp add: sign_identity_succession_def demo_succession_shape master_sign_def demo_ed_def
      demo_master_def)

theorem succession_round_trip_witness:
  "verify_identity_succession demo_ed demo_unicode (public_key demo_master) demo_succession
     ([1, 2] @ succession_canonical demo_unicode demo_succession) 1 = Inr ()
   \<and> verify_identity_succession demo_ed demo_unicode (public_key demo_master) demo_succession
     ([1, 2] @ succession_canonical demo_unicode demo_succession) 2 = Inl (NotNewerVersion 2 2)"
  using succession_round_trip [OF demo_ed_ok demo_master_wf demo_succession_signed refl, of 1]
    succession_round_trip [OF demo_ed_ok demo_master_wf demo_succession_signed refl, of 2]
  by (simp add: demo_succession_def)

text \<open>The verifier over time: it holds the current version and moves it at each acceptance.\<close>

fun run_successions ::
    "ed25519 \<Rightarrow> unicode \<Rightarrow> bytes \<Rightarrow> u32 \<Rightarrow> (IdentitySuccession \<times> bytes) list
     \<Rightarrow> IdentitySuccession list \<times> u32" where
  "run_successions D U pk cur [] = ([], cur)"
| "run_successions D U pk cur ((s, sig) # rest) =
     (case verify_identity_succession D U pk s sig cur of
        Inr _ \<Rightarrow> (let (acc, v) = run_successions D U pk (is_new_key_version s) rest in (s # acc, v))
      | Inl _ \<Rightarrow> run_successions D U pk cur rest)"

lemma run_successions_newer:
  "run_successions D U pk cur msgs = (acc, v) \<Longrightarrow>
     sorted_wrt (<) (map is_new_key_version acc) \<and> (\<forall>s \<in> set acc. cur < is_new_key_version s)
     \<and> cur \<le> v \<and> (\<forall>s \<in> set acc. is_new_key_version s \<le> v)"
proof (induction D U pk cur msgs arbitrary: acc v rule: run_successions.induct)
  case (1 D U pk cur)
  then show ?case by auto
next
  case (2 D U pk cur s sig rest)
  show ?case
  proof (cases "verify_identity_succession D U pk s sig cur")
    case (Inl e)
    with 2 show ?thesis by simp
  next
    case (Inr u)
    then have less: "cur < is_new_key_version s"
      using verify_identity_succession_eq_Inr [of D U pk s sig cur] by simp
    obtain acc' where run: "run_successions D U pk (is_new_key_version s) rest = (acc', v)"
      and acc: "acc = s # acc'"
      using 2(3) Inr by (auto split: prod.splits)
    from 2(2) [OF Inr run] less show ?thesis by (auto simp: acc)
  qed
qed

text \<open>C26: Whatever messages arrive, in whatever order and however often replayed, the accepted
  statements have strictly increasing key versions (so none is accepted twice and none rolls the
  account back), each of them carries a signature of the account's master over its own
  canonical, and names two different identities.\<close>

theorem successions_only_move_forward:
  assumes "run_successions D U pk cur msgs = (acc, v)"
  shows "sorted_wrt (<) (map is_new_key_version acc) \<and> distinct acc \<and> cur \<le> v
    \<and> (\<forall>s \<in> set acc. cur < is_new_key_version s \<and> is_new_key_version s \<le> v
         \<and> normalize_fingerprint U (is_old_fingerprint s) \<noteq> normalize_fingerprint U (is_new_fingerprint s)
         \<and> (\<exists>sig. (s, sig) \<in> set msgs \<and> ed_accepts (D, pk) (succession_canonical U s) sig))"
proof -
  have sig: "\<forall>s \<in> set acc. validate_shape U s = Inr ()
      \<and> (\<exists>sig. (s, sig) \<in> set msgs \<and> ed_accepts (D, pk) (succession_canonical U s) sig)"
    using assms
  proof (induction D U pk cur msgs arbitrary: acc v rule: run_successions.induct)
    case (1 D U pk cur)
    then show ?case by simp
  next
    case (2 D U pk cur s sig rest)
    then show ?case
      using verify_identity_succession_eq_Inr [of D U pk s sig cur]
      by (fastforce split: sum.splits prod.splits)
  qed
  note newer = run_successions_newer [OF assms]
  have "distinct (map is_new_key_version acc)"
    using newer by (simp add: strict_sorted_iff)
  then have "distinct acc" by (simp add: distinct_map)
  with newer sig show ?thesis by (auto simp: validate_shape_eq_Inr)
qed

theorem successions_only_move_forward_witness:
  "run_successions demo_ed demo_unicode (public_key demo_master) 1
     [(demo_succession, [1, 2] @ succession_canonical demo_unicode demo_succession),
      (demo_succession, [1, 2] @ succession_canonical demo_unicode demo_succession)]
     = ([demo_succession], 2)
   \<and> distinct [demo_succession] \<and> (1 :: u32) \<le> 2"
proof -
  have run: "run_successions demo_ed demo_unicode (public_key demo_master) 1
     [(demo_succession, [1, 2] @ succession_canonical demo_unicode demo_succession),
      (demo_succession, [1, 2] @ succession_canonical demo_unicode demo_succession)]
     = ([demo_succession], 2)"
  proof -
    let ?s = "[1, 2] @ succession_canonical demo_unicode demo_succession"
    have "verify_identity_succession demo_ed demo_unicode (public_key demo_master) demo_succession ?s 1 = Inr ()"
      "verify_identity_succession demo_ed demo_unicode (public_key demo_master) demo_succession ?s 2
         = Inl (NotNewerVersion 2 2)"
      by (simp_all add: verify_identity_succession_def demo_succession_shape verify_with_pubkey_def)
         (simp_all add: demo_ed_def demo_master_def demo_succession_def word_le_nat_alt)
    then show ?thesis by (simp add: demo_succession_def word_le_nat_alt)
  qed
  from successions_only_move_forward [OF run] run show ?thesis by simp
qed

end
