(* ===== verification/Cert_Laws.thy ===== *)
theory Cert_Laws
  imports Certs Identity_Succession
begin

text \<open>The theorems about the recovery master and the certificates under it.\<close>

section \<open>The master\<close>

text \<open>The master depends only on the words of the phrase: neither case nor the amount and kind
  of white space between, before or after them matters. What it signs verifies under its public
  key, and rebuilding it from its secret gives the same master and leaves the caller's buffer
  all zero.\<close>

theorem master_from_phrase:
  assumes "ed25519_ok D" and "list_all is_ascii p" and "list_all is_ascii q"
    and "phrase_words p = phrase_words q" and "from_phrase D V U p = Inr m"
  shows "from_phrase D V U q = Inr m
    \<and> from_phrase D V U (normalize_phrase U p) = Inr m
    \<and> verify_with_pubkey D (public_key m) msg (master_sign D m msg) = Inr ()
    \<and> from_secret_bytes D (secret_bytes m) = (Inr m, replicate (length (secret_bytes m)) 0)"
proof (intro conjI)
  have "normalize_phrase U q = normalize_phrase U p"
    by (simp add: normalize_phrase_ascii assms(2,3,4))
  with assms(5) show "from_phrase D V U q = Inr m" by (simp add: from_phrase_def)
  show "from_phrase D V U (normalize_phrase U p) = Inr m"
    using assms(5) by (simp add: from_phrase_def normalize_phrase_idem [OF assms(2)])
  have wf: "master_wf D m" using assms(5) by (rule from_phrase_wf)
  with assms(1) show "verify_with_pubkey D (public_key m) msg (master_sign D m msg) = Inr ()"
    by (rule master_sign_verifies)
  from wf show "from_secret_bytes D (secret_bytes m) = (Inr m, replicate (length (secret_bytes m)) 0)"
    by (simp add: from_secret_bytes_def master_wf_def)
qed

lemma demo_phrase_words:
  "phrase_words '' Ab  cD'' = [''ab'', ''cd'']" "phrase_words ''ab cd'' = [''ab'', ''cd'']"
  by (simp_all add: phrase_words_def ascii_ws_def ascii_lower_def code_of_def char_of_eq_iff)

lemma demo_from_phrase:
  "from_phrase demo_ed demo_env demo_unicode '' Ab  cD''
     = Inr \<lparr>secret_bytes = take 32 (as_bytes ''ab cd'' @ DERIVATION_INFO @ replicate 32 0),
            public_key = rev (take 32 (as_bytes ''ab cd'' @ DERIVATION_INFO @ replicate 32 0))\<rparr>"
  by (simp add: from_phrase_def demo_ed_def demo_env_def normalize_phrase_ascii demo_phrase_words
      is_ascii_def code_of_def)

theorem master_from_phrase_witness:
  "\<exists>m. from_phrase demo_ed demo_env demo_unicode '' Ab  cD'' = Inr m
     \<and> from_phrase demo_ed demo_env demo_unicode ''ab cd'' = Inr m"
proof -
  have "phrase_words '' Ab  cD'' = phrase_words ''ab cd''" by (simp add: demo_phrase_words)
  from master_from_phrase [OF demo_ed_ok _ _ this demo_from_phrase] demo_from_phrase
  show ?thesis by (simp add: is_ascii_def code_of_def)
qed

section \<open>Certificates\<close>

lemmas cert_verdict_defs = Let_def try_bind_eq_Inr master_sign_def encode_device_payload_def
  encode_revocation_payload_def verify_with_verifying_key_def list_ex_iff ed25519_ok_def master_wf_def

lemma master_cert_verifies:
  "ed25519_ok D \<Longrightarrow> master_wf D m \<Longrightarrow> device_sign_with_master D B m pk label platform t = Inr c \<Longrightarrow>
     device_verify D B c (public_key m) devices = Inr ()"
  by (auto simp: device_sign_with_master_def device_verify_def cert_verdict_defs)

lemma master_revocation_verifies:
  "ed25519_ok D \<Longrightarrow> master_wf D m \<Longrightarrow> revocation_sign_with_master D B m pk t why = Inr r \<Longrightarrow>
     revocation_verify D B r (public_key m) devices = Inr ()"
  by (auto simp: revocation_sign_with_master_def revocation_verify_def cert_verdict_defs)

lemma device_cert_verdict:
  "ed25519_ok D \<Longrightarrow> device_sign_with_device D B sk mpk pk label platform t = Inr c \<Longrightarrow>
     device_verify D B c mpk devices =
       (if ed_public D sk \<notin> set devices then Inl UnknownSigner
        else if ed_public D sk = mpk then Inl SignerRoleMismatch else Inr ())"
  by (auto simp: device_sign_with_device_def device_verify_def cert_verdict_defs)

lemma device_revocation_verdict:
  "ed25519_ok D \<Longrightarrow> revocation_sign_with_device D B sk mpk pk t why = Inr r \<Longrightarrow>
     revocation_verify D B r mpk devices =
       (if ed_public D sk \<notin> set devices then Inl RvUnknownSigner
        else if ed_public D sk = mpk then Inl RvSignerRoleMismatch else Inr ())"
  by (auto simp: revocation_sign_with_device_def revocation_verify_def cert_verdict_defs)

text \<open>C18: An issued certificate, of a device or of a revocation, verifies under the master it
  names: if the master signed it, whatever the device set; if a device signed it, exactly when
  that device is in the set and is not the master's own key, which two cases are told apart in
  the error.\<close>

theorem issued_certificates_verify:
  assumes "ed25519_ok D" and "master_wf D m"
  shows "(device_sign_with_master D B m pk label platform t = Inr c \<longrightarrow>
        device_verify D B c (public_key m) devices = Inr ())
    \<and> (revocation_sign_with_master D B m pk t why = Inr r \<longrightarrow>
        revocation_verify D B r (public_key m) devices = Inr ())
    \<and> (device_sign_with_device D B sk mpk pk label platform t = Inr c \<longrightarrow>
        device_verify D B c mpk devices =
          (if ed_public D sk \<notin> set devices then Inl UnknownSigner
           else if ed_public D sk = mpk then Inl SignerRoleMismatch else Inr ()))
    \<and> (revocation_sign_with_device D B sk mpk pk t why = Inr r \<longrightarrow>
        revocation_verify D B r mpk devices =
          (if ed_public D sk \<notin> set devices then Inl RvUnknownSigner
           else if ed_public D sk = mpk then Inl RvSignerRoleMismatch else Inr ()))"
  using assms
  by (simp add: master_cert_verifies master_revocation_verifies device_cert_verdict device_revocation_verdict)

definition demo_cbor :: cbor where
  "demo_cbor = \<lparr>cbor_device_payload = (\<lambda>p. Inr (dc_device_pubkey p)), cbor_device = (\<lambda>c. Inr []),
     cbor_parse_device = (\<lambda>b. Inl ''''), cbor_revocation_payload = (\<lambda>p. Inr (rv_target_device_pubkey p)),
     cbor_revocation = (\<lambda>c. Inr []), cbor_parse_revocation = (\<lambda>b. Inl '''')\<rparr>"

definition demo_device_cert :: DeviceCertificate where
  "demo_device_cert = \<lparr>dc_payload = \<lparr>dc_cert_version = MASTER_VERSION, dc_device_pubkey = [7],
     dc_master_pubkey = [2, 1], dc_label = ''pc'', dc_platform = ''linux'', dc_enrolled_at = 5,
     dc_signer_role = Device, dc_signer_pubkey = [4, 3]\<rparr>, dc_signature = [3, 4, 7]\<rparr>"

lemma demo_device_cert_signed:
  "device_sign_with_device demo_ed demo_cbor [3, 4] [2, 1] [7] ''pc'' ''linux'' 5 = Inr demo_device_cert"
  by (simp add: device_sign_with_device_def validate_label_def MAX_LABEL_BYTES_def
      encode_device_payload_def demo_ed_def demo_cbor_def demo_device_cert_def)

theorem issued_certificates_verify_witness:
  "device_verify demo_ed demo_cbor demo_device_cert [2, 1] [[4, 3]] = Inr ()
   \<and> device_verify demo_ed demo_cbor demo_device_cert [2, 1] [[9]] = Inl UnknownSigner"
proof -
  note verify = issued_certificates_verify [OF demo_ed_ok demo_master_wf, of demo_cbor "[7]" "''pc''"
      "''linux''" 5 demo_device_cert _ _ _ "[3, 4]" "[2, 1]", THEN conjunct2, THEN conjunct2,
      THEN conjunct1, rule_format, OF demo_device_cert_signed]
  show ?thesis by (simp add: verify) (simp add: demo_ed_def)
qed

text \<open>Taking a device out of the eligible set takes away exactly what that device signed:
  every other certificate and revocation, those about the removed device included, is accepted
  or refused as before, and nothing becomes acceptable. So a compromised device can neither keep
  its earlier signatures alive nor make new ones after its revocation.\<close>

theorem revocation_cuts_exactly_the_signer:
  "(device_verify D B c master [d \<leftarrow> devices. d \<noteq> x] = Inr () \<longleftrightarrow>
      device_verify D B c master devices = Inr ()
      \<and> \<not> (dc_signer_role (dc_payload c) = Device \<and> dc_signer_pubkey (dc_payload c) = x))
   \<and> (revocation_verify D B r master [d \<leftarrow> devices. d \<noteq> x] = Inr () \<longleftrightarrow>
      revocation_verify D B r master devices = Inr ()
      \<and> \<not> (rv_signer_role (rv_payload r) = Device \<and> rv_signer_pubkey (rv_payload r) = x))"
proof (intro conjI)
  show "device_verify D B c master [d \<leftarrow> devices. d \<noteq> x] = Inr () \<longleftrightarrow>
      device_verify D B c master devices = Inr ()
      \<and> \<not> (dc_signer_role (dc_payload c) = Device \<and> dc_signer_pubkey (dc_payload c) = x)"
    by (cases "dc_signer_role (dc_payload c)"; cases "dc_signer_pubkey (dc_payload c) = x")
       (auto simp: device.revoked_signer device.other_revocation
         dest: device.master_signed_any_devices [THEN iffD1, rotated])
  show "revocation_verify D B r master [d \<leftarrow> devices. d \<noteq> x] = Inr () \<longleftrightarrow>
      revocation_verify D B r master devices = Inr ()
      \<and> \<not> (rv_signer_role (rv_payload r) = Device \<and> rv_signer_pubkey (rv_payload r) = x)"
    by (cases "rv_signer_role (rv_payload r)"; cases "rv_signer_pubkey (rv_payload r) = x")
       (auto simp: revocation.revoked_signer revocation.other_revocation
         dest: revocation.master_signed_any_devices [THEN iffD1, rotated])
qed

end
