(* ===== verification/Broadcast.thy ===== *)
theory Broadcast
  imports Grant_Laws
begin

text \<open>
  \<open>gitcellar-crypto/src/broadcast.rs\<close>: the emergency-notification payload, the signed incident
  manifest and its verification against a trust set, a high-water sequence and the clock.

  JSON is \<open>serde_json\<close>: the parameter \<open>json\<close> prints and parses a payload. A \<open>DateTime<Utc>\<close> is
  an integer instant. \<open>verify_detached\<close> of this file is in \<open>Pgp_Engine\<close>.
\<close>

section \<open>Payload\<close>

definition BROADCAST_PAYLOAD_VERSION :: u32 where "BROADCAST_PAYLOAD_VERSION = 1"
definition INCIDENT_MANIFEST_VERSION :: u32 where "INCIDENT_MANIFEST_VERSION = 2"

definition INCIDENT_MANIFEST_DOMAIN :: string where
  "INCIDENT_MANIFEST_DOMAIN = ''gitcellar/incident-manifest/v2''"

definition ACTION_URL_ALLOWLIST :: "string list" where
  "ACTION_URL_ALLOWLIST =
     [''gitcellar.com'', ''www.gitcellar.com'', ''status.gitcellar.com'', ''api.gitcellar.com'']"

datatype BroadcastTier = Incident | Warning | Announcement

fun is_mandatory :: "BroadcastTier \<Rightarrow> bool" where
  "is_mandatory Incident = True"
| "is_mandatory Warning = True"
| "is_mandatory Announcement = False"

record BroadcastTargeting =
  bt_min_version :: "string option"
  bt_platform :: "string list option"
  bt_plan_type :: "string list option"
  bt_email_verified :: "bool option"

definition targeting_is_empty :: "BroadcastTargeting \<Rightarrow> bool" where
  "targeting_is_empty t \<longleftrightarrow> bt_min_version t = None \<and> bt_platform t = None
     \<and> bt_plan_type t = None \<and> bt_email_verified t = None"

record BroadcastPayload =
  bp_v :: u32
  bp_id :: string
  bp_tier :: BroadcastTier
  bp_title :: string
  bp_body :: string
  bp_action_url :: "string option"
  bp_issued_at :: int
  bp_expires_at :: "int option"
  bp_seq :: int
  bp_signer_fingerprint :: string
  bp_targeting :: "BroadcastTargeting option"

record json =
  json_print :: "BroadcastPayload \<Rightarrow> string + string"
  json_parse :: "string \<Rightarrow> string + BroadcastPayload"

definition to_canonical_json :: "json \<Rightarrow> BroadcastPayload \<Rightarrow> string CryptoResult" where
  "to_canonical_json J p = map_err Serialization (json_print J p)"

definition from_canonical_json :: "json \<Rightarrow> string \<Rightarrow> BroadcastPayload CryptoResult" where
  "from_canonical_json J s = map_err Serialization (json_parse J s)"

section \<open>Action URLs\<close>

definition authority_end_char :: "char \<Rightarrow> bool" where
  "authority_end_char c \<longleftrightarrow> c = CHR ''/'' \<or> c = CHR ''?'' \<or> c = CHR ''#''"

definition action_url_allowed :: "string \<Rightarrow> bool" where
  "action_url_allowed url =
     (case strip_prefix ''https://'' url of
        None \<Rightarrow> False
      | Some rest \<Rightarrow>
          (let authority = takeWhile (\<lambda>c. \<not> authority_end_char c) rest
           in if authority = [] then False
              else if CHR ''@'' \<in> set authority \<or> CHR '':'' \<in> set authority then False
              else list_ex (\<lambda>allowed. allowed = to_ascii_lowercase authority) ACTION_URL_ALLOWLIST))"

definition validate_action_url :: "BroadcastPayload \<Rightarrow> unit CryptoResult" where
  "validate_action_url p =
     (case bp_action_url p of
        None \<Rightarrow> Inr ()
      | Some url \<Rightarrow>
          if action_url_allowed url then Inr ()
          else Inl (CryptoError.Broadcast (''action_url host not in allowlist: '' @ url)))"

section \<open>Manifest\<close>

datatype ManifestState = StateActive | StateClear

fun state_as_str :: "ManifestState \<Rightarrow> string" where
  "state_as_str StateActive = ''active''"
| "state_as_str StateClear = ''clear''"

record IncidentManifest =
  im_manifest_v :: u32
  im_state :: ManifestState
  im_seq :: int
  im_payload :: string
  im_signature :: string
  im_signer_fingerprint :: string
  im_issued_at :: int

datatype ManifestVerdict =
    Active BroadcastPayload int
  | Clear int
  | Stale
  | Expired int
  | NoTrustedSignal string

definition incident_manifest_signed_bytes ::
    "u32 \<Rightarrow> ManifestState \<Rightarrow> int \<Rightarrow> string \<Rightarrow> string \<Rightarrow> bytes" where
  "incident_manifest_signed_bytes manifest_v st s fp payload =
     (let out = lp_push [] INCIDENT_MANIFEST_DOMAIN;
          out = lp_push out (nat_to_string (unat manifest_v));
          out = lp_push out (state_as_str st);
          out = lp_push out (int_to_string s);
          out = lp_push out fp
      in lp_push out payload)"

definition manifest_signed_bytes :: "IncidentManifest \<Rightarrow> bytes" where
  "manifest_signed_bytes m =
     incident_manifest_signed_bytes (im_manifest_v m) (im_state m) (im_seq m)
       (im_signer_fingerprint m) (im_payload m)"

definition manifest_sign ::
    "sequoia \<Rightarrow> json \<Rightarrow> EncryptionEngine \<Rightarrow> ManifestState \<Rightarrow> BroadcastPayload
     \<Rightarrow> IncidentManifest CryptoResult" where
  "manifest_sign X J engine st p =
     try_bind (to_canonical_json J p) (\<lambda>payload.
     let manifest = \<lparr>im_manifest_v = INCIDENT_MANIFEST_VERSION, im_state = st, im_seq = bp_seq p,
           im_payload = payload, im_signature = [],
           im_signer_fingerprint = bp_signer_fingerprint p, im_issued_at = bp_issued_at p\<rparr>
     in try_bind (sign_data X engine (manifest_signed_bytes manifest)) (\<lambda>sig.
        Inr (manifest\<lparr>im_signature := b64_encode X sig\<rparr>)))"

definition unwrap_or_false :: "bool CryptoResult \<Rightarrow> bool" where
  "unwrap_or_false r = (case r of Inr b \<Rightarrow> b | Inl _ \<Rightarrow> False)"

definition verify_and_parse ::
    "sequoia \<Rightarrow> json \<Rightarrow> IncidentManifest \<Rightarrow> string list \<Rightarrow> int \<Rightarrow> int \<Rightarrow> ManifestVerdict" where
  "verify_and_parse X J m trust_set last_verified_seq now =
     (if im_manifest_v m \<noteq> INCIDENT_MANIFEST_VERSION
      then NoTrustedSignal (''unknown manifest_v '' @ nat_to_string (unat (im_manifest_v m)))
      else case b64_decode X (im_signature m) of
        Inl _ \<Rightarrow> NoTrustedSignal ''signature not valid base64''
      | Inr sig_bytes \<Rightarrow>
          if \<not> list_ex (\<lambda>armored_key.
                 unwrap_or_false (verify_detached X armored_key (manifest_signed_bytes m) sig_bytes))
               trust_set
          then NoTrustedSignal ''signature did not verify against any pinned key''
          else case from_canonical_json J (im_payload m) of
            Inl _ \<Rightarrow> NoTrustedSignal ''payload string did not parse''
          | Inr payload \<Rightarrow>
              if bp_v payload \<noteq> BROADCAST_PAYLOAD_VERSION
              then NoTrustedSignal (''unknown payload v '' @ nat_to_string (unat (bp_v payload)))
              else if bp_signer_fingerprint payload \<noteq> im_signer_fingerprint m
              then NoTrustedSignal ''envelope/payload fingerprint mismatch''
              else if bp_seq payload \<noteq> im_seq m
              then NoTrustedSignal ''envelope/payload seq mismatch''
              else if bp_issued_at payload \<noteq> im_issued_at m
              then NoTrustedSignal ''envelope/payload issued_at mismatch''
              else if im_seq m \<le> last_verified_seq then Stale
              else if im_state m = StateClear then Clear (im_seq m)
              else if (case bp_expires_at payload of Some exp \<Rightarrow> now > exp | None \<Rightarrow> False)
              then Expired (im_seq m)
              else Active payload (im_seq m))"

section \<open>URL lemmas\<close>

lemma allowlist_plain:
  assumes "to_ascii_lowercase h \<in> set ACTION_URL_ALLOWLIST" and "c \<in> set h"
  shows "\<not> authority_end_char c \<and> c \<noteq> CHR ''@'' \<and> c \<noteq> CHR '':''"
proof -
  have "ascii_lower c \<in> set (to_ascii_lowercase h)"
    using assms(2) by (simp add: to_ascii_lowercase_def)
  moreover have "\<forall>a \<in> set ACTION_URL_ALLOWLIST. \<forall>d \<in> set a.
      \<not> authority_end_char d \<and> d \<noteq> CHR ''@'' \<and> d \<noteq> CHR '':''"
    by (simp add: ACTION_URL_ALLOWLIST_def authority_end_char_def)
  ultimately have "\<not> authority_end_char (ascii_lower c) \<and> ascii_lower c \<noteq> CHR ''@'' \<and> ascii_lower c \<noteq> CHR '':''"
    using assms(1) by blast
  then show ?thesis by (auto simp: authority_end_char_def ascii_lower_def code_of_def)
qed

lemma takeWhile_authority:
  assumes "\<forall>c \<in> set h. \<not> authority_end_char c" and "r = [] \<or> authority_end_char (hd r)"
  shows "takeWhile (\<lambda>c. \<not> authority_end_char c) (h @ r) = h"
  using assms by (cases r) (auto simp: takeWhile_append)

lemma action_url_allowed_iff:
  "action_url_allowed url \<longleftrightarrow>
     (\<exists>host rest. url = ''https://'' @ host @ rest
        \<and> to_ascii_lowercase host \<in> set ACTION_URL_ALLOWLIST
        \<and> (rest = [] \<or> authority_end_char (hd rest)))"
proof
  assume "action_url_allowed url"
  then obtain r where url: "url = ''https://'' @ r"
    and h: "to_ascii_lowercase (takeWhile (\<lambda>c. \<not> authority_end_char c) r) \<in> set ACTION_URL_ALLOWLIST"
    by (auto simp: action_url_allowed_def Let_def strip_prefix_eq_Some list_ex_iff
        split: option.splits if_splits)
  let ?rest = "dropWhile (\<lambda>c. \<not> authority_end_char c) r"
  have "?rest = [] \<or> authority_end_char (hd ?rest)"
    using hd_dropWhile [of "\<lambda>c. \<not> authority_end_char c" r] by blast
  with url h show "\<exists>host rest. url = ''https://'' @ host @ rest
        \<and> to_ascii_lowercase host \<in> set ACTION_URL_ALLOWLIST
        \<and> (rest = [] \<or> authority_end_char (hd rest))"
    by (metis takeWhile_dropWhile_id)
next
  assume "\<exists>host rest. url = ''https://'' @ host @ rest
        \<and> to_ascii_lowercase host \<in> set ACTION_URL_ALLOWLIST
        \<and> (rest = [] \<or> authority_end_char (hd rest))"
  then obtain host rest where url: "url = ''https://'' @ host @ rest"
    and host: "to_ascii_lowercase host \<in> set ACTION_URL_ALLOWLIST"
    and rest: "rest = [] \<or> authority_end_char (hd rest)" by blast
  have auth: "takeWhile (\<lambda>c. \<not> authority_end_char c) (host @ rest) = host"
    using allowlist_plain [OF host] rest by (intro takeWhile_authority) blast+
  have pre: "strip_prefix ''https://'' url = Some (host @ rest)"
    unfolding strip_prefix_eq_Some by (rule url)
  have "host \<noteq> []" using host by (auto simp: ACTION_URL_ALLOWLIST_def to_ascii_lowercase_def)
  then show "action_url_allowed url"
    unfolding action_url_allowed_def pre
    using allowlist_plain [OF host] host by (auto simp: auth list_ex_iff)
qed

end
