(* ===== verification/Broadcast_Laws.thy ===== *)
theory Broadcast_Laws
  imports Broadcast
begin

text \<open>The theorems about action URLs and incident manifests.\<close>

text \<open>A URL may be rendered as a link exactly if it is \<open>https://\<close>, then an allowlisted host
  in any ASCII case, then nothing or a path, query or fragment: no user info, no port, no
  subdomain or suffix of an allowed host.\<close>

theorem action_urls:
  "action_url_allowed url \<longleftrightarrow>
     (\<exists>host rest. url = ''https://'' @ host @ rest
        \<and> to_ascii_lowercase host \<in> {''gitcellar.com'', ''www.gitcellar.com'',
            ''status.gitcellar.com'', ''api.gitcellar.com''}
        \<and> (rest = [] \<or> hd rest \<in> {CHR ''/'', CHR ''?'', CHR ''#''}))"
  unfolding action_url_allowed_iff by (simp add: ACTION_URL_ALLOWLIST_def authority_end_char_def)

section \<open>The manifest is a signed object\<close>

text \<open>What the signature covers, as a tuple.\<close>

type_synonym signed_manifest = "u32 \<times> ManifestState \<times> int \<times> string \<times> string"

definition signed_part :: "IncidentManifest \<Rightarrow> signed_manifest" where
  "signed_part m = (im_manifest_v m, im_state m, im_seq m, im_signer_fingerprint m, im_payload m)"

fun manifest_fields :: "signed_manifest \<Rightarrow> string list" where
  "manifest_fields (v, st, s, fp, p) =
     [nat_to_string (unat v), state_as_str st, int_to_string s, fp, p]"

fun manifest_bytes :: "signed_manifest \<Rightarrow> bytes" where
  "manifest_bytes (v, st, s, fp, p) = incident_manifest_signed_bytes v st s fp p"

interpretation manifest: signed_object INCIDENT_MANIFEST_DOMAIN manifest_fields manifest_bytes
    pgp_pairs pgp_sign pgp_accepts
  by unfold_locales (auto simp: incident_manifest_signed_bytes_def Let_def lp_push_lp)

lemma manifest_signed_bytes_part: "manifest_signed_bytes m = manifest_bytes (signed_part m)"
  by (simp add: manifest_signed_bytes_def signed_part_def)

lemma state_as_str_inject: "state_as_str a = state_as_str b \<longleftrightarrow> a = b"
  by (cases a; cases b) simp_all

lemma manifest_fields_inject: "manifest_fields x = manifest_fields y \<longleftrightarrow> x = y"
  by (cases x; cases y) (auto simp: state_as_str_inject word_unat_eq_iff)

section \<open>Verdicts\<close>

definition trusted :: "sequoia \<Rightarrow> string list \<Rightarrow> IncidentManifest \<Rightarrow> bool" where
  "trusted X trust_set m \<longleftrightarrow>
     (\<exists>sig A. b64_decode X (im_signature m) = Inr sig \<and> A \<in> set trust_set
        \<and> verify_detached X A (manifest_signed_bytes m) sig = Inr True)"

definition consistent :: "json \<Rightarrow> IncidentManifest \<Rightarrow> BroadcastPayload \<Rightarrow> bool" where
  "consistent J m p \<longleftrightarrow> json_parse J (im_payload m) = Inr p \<and> bp_v p = BROADCAST_PAYLOAD_VERSION
     \<and> bp_signer_fingerprint p = im_signer_fingerprint m \<and> bp_seq p = im_seq m
     \<and> bp_issued_at p = im_issued_at m"

definition expired :: "BroadcastPayload \<Rightarrow> int \<Rightarrow> bool" where
  "expired p now \<longleftrightarrow> (case bp_expires_at p of Some exp \<Rightarrow> now > exp | None \<Rightarrow> False)"

definition genuine :: "sequoia \<Rightarrow> json \<Rightarrow> string list \<Rightarrow> IncidentManifest \<Rightarrow> BroadcastPayload \<Rightarrow> bool" where
  "genuine X J trust_set m p \<longleftrightarrow>
     im_manifest_v m = INCIDENT_MANIFEST_VERSION \<and> trusted X trust_set m \<and> consistent J m p"

lemma unwrap_or_false_iff: "unwrap_or_false r \<longleftrightarrow> r = Inr True"
  by (cases r) (auto simp: unwrap_or_false_def)

lemma trusted_iff:
  "b64_decode X (im_signature m) = Inr sig \<Longrightarrow>
     trusted X ts m \<longleftrightarrow>
       list_ex (\<lambda>A. unwrap_or_false (verify_detached X A (manifest_signed_bytes m) sig)) ts"
  by (auto simp: trusted_def list_ex_iff unwrap_or_false_iff)

lemma from_canonical_json_eq_Inr: "from_canonical_json J s = Inr p \<longleftrightarrow> json_parse J s = Inr p"
  by (simp add: from_canonical_json_def)

lemma genuine_unique: "genuine X J ts m p \<Longrightarrow> genuine X J ts m q \<Longrightarrow> p = q"
  by (auto simp: genuine_def consistent_def)

lemma verdict_genuine:
  assumes "genuine X J ts m p"
  shows "verify_and_parse X J m ts prev now =
    (if im_seq m \<le> prev then Stale
     else if im_state m = StateClear then Clear (im_seq m)
     else if expired p now then Expired (im_seq m)
     else Active p (im_seq m))"
proof -
  from assms obtain sig where sig: "b64_decode X (im_signature m) = Inr sig"
    by (auto simp: genuine_def trusted_def)
  have "list_ex (\<lambda>A. unwrap_or_false (verify_detached X A (manifest_signed_bytes m) sig)) ts"
    using assms trusted_iff [OF sig] by (simp add: genuine_def)
  moreover have "from_canonical_json J (im_payload m) = Inr p"
    using assms by (simp add: genuine_def consistent_def from_canonical_json_eq_Inr)
  ultimately show ?thesis
    using assms
    by (simp add: verify_and_parse_def sig genuine_def consistent_def expired_def)
qed

lemma verdict_not_genuine:
  assumes "\<And>p. \<not> genuine X J ts m p"
  shows "\<exists>r. verify_and_parse X J m ts prev now = NoTrustedSignal r"
proof (cases "b64_decode X (im_signature m)")
  case (Inl e)
  then show ?thesis by (simp add: verify_and_parse_def)
next
  case (Inr sig)
  show ?thesis
  proof (cases "from_canonical_json J (im_payload m)")
    case (Inl e)
    then show ?thesis by (simp add: verify_and_parse_def Inr)
  next
    case pay: (Inr p)
    then have "json_parse J (im_payload m) = Inr p" by (simp add: from_canonical_json_eq_Inr)
    then show ?thesis
      using assms [of p] trusted_iff [OF Inr, of ts]
      by (auto simp: verify_and_parse_def genuine_def consistent_def Inr pay)
  qed
qed

definition demo_payload :: BroadcastPayload where
  "demo_payload = \<lparr>bp_v = BROADCAST_PAYLOAD_VERSION, bp_id = ''b'', bp_tier = Incident, bp_title = ''t'',
     bp_body = ''x'', bp_action_url = None, bp_issued_at = 10, bp_expires_at = Some 20, bp_seq = 7,
     bp_signer_fingerprint = ''AB12'', bp_targeting = None\<rparr>"

definition demo_json :: json where
  "demo_json = \<lparr>json_print = (\<lambda>p. if p = demo_payload then Inr ''j'' else Inl ''no''),
     json_parse = (\<lambda>s. if s = ''j'' then Inr demo_payload else Inl ''no'')\<rparr>"

definition demo_manifest :: "ManifestState \<Rightarrow> IncidentManifest" where
  "demo_manifest st = \<lparr>im_manifest_v = INCIDENT_MANIFEST_VERSION, im_state = st, im_seq = 7,
     im_payload = ''j'',
     im_signature = hex_encode (1 # as_bytes ''cert''
        @ incident_manifest_signed_bytes INCIDENT_MANIFEST_VERSION st 7 ''AB12'' ''j''),
     im_signer_fingerprint = ''AB12'', im_issued_at = 10\<rparr>"

lemma demo_manifest_signed:
  "manifest_sign demo_pgp demo_json (demo_engine [demo_subkey False]) st demo_payload
     = Inr (demo_manifest st)"
proof -
  have "sign_data demo_pgp (demo_engine [demo_subkey False]) b = Inr (1 # as_bytes ''cert'' @ b)" for b
    by (simp add: sign_data_eq_Inr demo_engine_def demo_pgp_def)
  moreover have "b64_encode demo_pgp = hex_encode" by (simp add: demo_pgp_def)
  ultimately show ?thesis
    by (simp add: manifest_sign_def to_canonical_json_def demo_json_def demo_payload_def
        demo_manifest_def manifest_signed_bytes_def)
qed

lemma demo_genuine: "genuine demo_pgp demo_json [''cert''] (demo_manifest st) demo_payload"
proof -
  have "trusted demo_pgp [''cert''] (demo_manifest st)"
    unfolding trusted_def
    by (intro exI [of _ "1 # as_bytes ''cert'' @ manifest_signed_bytes (demo_manifest st)"])
       (simp add: demo_pgp_def demo_manifest_def manifest_signed_bytes_def verify_detached_def
         del: hex_encode_simps)
  then show ?thesis
    by (simp add: genuine_def consistent_def demo_json_def demo_manifest_def)
       (simp add: demo_payload_def)
qed

text \<open>C21: The verdict is decided as documented: no trusted signal unless the envelope has the
  current version, some key of the trust set signed exactly this envelope, and the payload parses
  and agrees with it; then stale at or below the high-water mark, clear by the signed state
  alone, expired only past the expiry, and otherwise active with the parsed payload.\<close>

theorem manifest_verdict:
  "(genuine X J ts m p \<longrightarrow> verify_and_parse X J m ts prev now =
      (if im_seq m \<le> prev then Stale
       else if im_state m = StateClear then Clear (im_seq m)
       else if expired p now then Expired (im_seq m)
       else Active p (im_seq m)))
   \<and> ((\<forall>q. \<not> genuine X J ts m q) \<longrightarrow> (\<exists>r. verify_and_parse X J m ts prev now = NoTrustedSignal r))
   \<and> ((\<exists>r. verify_and_parse X J m ts prev now = NoTrustedSignal r) \<longrightarrow> \<not> genuine X J ts m p)"
proof (intro conjI impI)
  show "\<exists>r. verify_and_parse X J m ts prev now = NoTrustedSignal r" if "\<forall>q. \<not> genuine X J ts m q"
    using that by (intro verdict_not_genuine) blast
  show "\<not> genuine X J ts m p" if "\<exists>r. verify_and_parse X J m ts prev now = NoTrustedSignal r"
    using that verdict_genuine [of X J ts m p prev now] by (auto split: if_splits)
qed (rule verdict_genuine)

theorem manifest_verdict_witness:
  "verify_and_parse demo_pgp demo_json (demo_manifest StateClear) [''cert''] 3 25 = Clear 7
   \<and> verify_and_parse demo_pgp demo_json (demo_manifest StateActive) [''cert''] 3 25 = Expired 7
   \<and> (\<exists>r. verify_and_parse demo_pgp demo_json (demo_manifest StateActive) [] 3 25 = NoTrustedSignal r)"
proof -
  have "verify_and_parse demo_pgp demo_json (demo_manifest st) [''cert''] 3 25 =
      (if im_seq (demo_manifest st) \<le> 3 then Stale
       else if im_state (demo_manifest st) = StateClear then Clear (im_seq (demo_manifest st))
       else if expired demo_payload 25 then Expired (im_seq (demo_manifest st))
       else Active demo_payload (im_seq (demo_manifest st)))" for st
    using manifest_verdict demo_genuine by blast
  moreover have "\<forall>q. \<not> genuine demo_pgp demo_json [] (demo_manifest StateActive) q"
    by (simp add: genuine_def trusted_def)
  ultimately show ?thesis
    using manifest_verdict [of demo_pgp demo_json "[]" "demo_manifest StateActive" demo_payload 3 25]
    by (simp add: demo_manifest_def expired_def demo_payload_def)
qed

text \<open>A manifest that \<open>sign\<close> produced verifies under any trust set with the signer's
  certificate: it is never without signal, whatever else is in the set, and its verdict is the
  one its state, sequence and expiry ask for.\<close>

theorem signed_manifest_verifies:
  assumes "signs_for X E A" and "base64_ok X" and "A \<in> set ts"
    and "\<And>q s. json_print J q = Inr s \<Longrightarrow> json_parse J s = Inr q"
    and "bp_v p = BROADCAST_PAYLOAD_VERSION"
    and "manifest_sign X J E st p = Inr m"
  shows "verify_and_parse X J m ts prev now =
    (if bp_seq p \<le> prev then Stale
     else if st = StateClear then Clear (bp_seq p)
     else if expired p now then Expired (bp_seq p)
     else Active p (bp_seq p))"
proof -
  from assms(6) obtain payload sig where
    payload: "json_print J p = Inr payload"
    and sig: "sign_data X E (manifest_bytes (INCIDENT_MANIFEST_VERSION, st, bp_seq p,
               bp_signer_fingerprint p, payload)) = Inr sig"
    and m: "m = \<lparr>im_manifest_v = INCIDENT_MANIFEST_VERSION, im_state = st, im_seq = bp_seq p,
       im_payload = payload, im_signature = b64_encode X sig,
       im_signer_fingerprint = bp_signer_fingerprint p, im_issued_at = bp_issued_at p\<rparr>"
    by (auto simp: manifest_sign_def to_canonical_json_def Let_def try_bind_eq_Inr
        manifest_signed_bytes_def)
  have "verify_detached X A (manifest_signed_bytes m) sig = Inr True"
    using sign_data_verifies [OF assms(1) sig] by (simp add: m manifest_signed_bytes_def)
  moreover have "b64_decode X (im_signature m) = Inr sig"
    using assms(2) by (simp add: m base64_ok_def)
  ultimately have "trusted X ts m" using assms(3) by (auto simp: trusted_def)
  then have "genuine X J ts m p"
    using assms(4) [OF payload] assms(5) by (simp add: genuine_def consistent_def m)
  from verdict_genuine [OF this] show ?thesis by (simp add: m)
qed

theorem signed_manifest_verifies_witness:
  "verify_and_parse demo_pgp demo_json (demo_manifest StateActive) [''x'', ''cert''] 3 15
     = Active demo_payload 7
   \<and> verify_and_parse demo_pgp demo_json (demo_manifest StateActive) [''x'', ''cert''] 7 15 = Stale"
proof -
  have verify: "verify_and_parse demo_pgp demo_json (demo_manifest StateActive) [''x'', ''cert''] prev 15
      = (if bp_seq demo_payload \<le> prev then Stale
         else if StateActive = StateClear then Clear (bp_seq demo_payload)
         else if expired demo_payload 15 then Expired (bp_seq demo_payload)
         else Active demo_payload (bp_seq demo_payload))" for prev
    by (rule signed_manifest_verifies [OF demo_pgp_signs demo_pgp_base64 _ _ _ demo_manifest_signed])
       (auto simp: demo_json_def demo_payload_def split: if_splits)
  show ?thesis by (simp add: verify) (simp add: demo_payload_def expired_def)
qed



section \<open>A client over time\<close>

fun run_manifests ::
    "sequoia \<Rightarrow> json \<Rightarrow> string list \<Rightarrow> int \<Rightarrow> (IncidentManifest \<times> int) list
     \<Rightarrow> IncidentManifest list \<times> int" where
  "run_manifests X J ts high [] = ([], high)"
| "run_manifests X J ts high ((m, now) # rest) =
     (case verify_and_parse X J m ts high now of
        Active p s \<Rightarrow> (let (acc, h) = run_manifests X J ts s rest in (m # acc, h))
      | Clear s \<Rightarrow> (let (acc, h) = run_manifests X J ts s rest in (m # acc, h))
      | Expired s \<Rightarrow> (let (acc, h) = run_manifests X J ts s rest in (m # acc, h))
      | Stale \<Rightarrow> run_manifests X J ts high rest
      | NoTrustedSignal _ \<Rightarrow> run_manifests X J ts high rest)"

lemma verdict_step:
  "(\<exists>p. genuine X J ts m p \<and> high < im_seq m
      \<and> run_manifests X J ts high ((m, now) # rest)
        = (let (acc, h) = run_manifests X J ts (im_seq m) rest in (m # acc, h)))
   \<or> run_manifests X J ts high ((m, now) # rest) = run_manifests X J ts high rest"
proof (cases "\<exists>p. genuine X J ts m p")
  case True
  then obtain p where p: "genuine X J ts m p" ..
  show ?thesis by (cases "high < im_seq m") (use p in \<open>auto simp: verdict_genuine [OF p]\<close>)
next
  case False
  then obtain r where "verify_and_parse X J m ts high now = NoTrustedSignal r"
    using verdict_not_genuine by metis
  then show ?thesis by simp
qed

text \<open>C28: Whatever a relay serves, in any order and with any repetition, the manifests a client
  acts on have strictly increasing sequence numbers above its starting mark, every one of them is
  genuine, and its mark never goes back: an old incident or all-clear is never acted on again.\<close>

theorem manifests_never_replay:
  assumes "run_manifests X J ts high msgs = (acc, h)"
  shows "sorted_wrt (<) (map im_seq acc) \<and> distinct acc \<and> high \<le> h
    \<and> (\<forall>m \<in> set acc. high < im_seq m \<and> im_seq m \<le> h \<and> (\<exists>p. genuine X J ts m p))"
proof -
  have inv: "sorted_wrt (<) (map im_seq acc) \<and> high \<le> h
      \<and> (\<forall>m \<in> set acc. high < im_seq m \<and> im_seq m \<le> h \<and> (\<exists>p. genuine X J ts m p))"
    using assms
  proof (induction msgs arbitrary: high acc)
    case Nil
    then show ?case by simp
  next
    case (Cons x rest)
    obtain m now where x: "x = (m, now)" by (cases x)
    from verdict_step [of X J ts m high now rest] show ?case
    proof
      assume "\<exists>p. genuine X J ts m p \<and> high < im_seq m
          \<and> run_manifests X J ts high ((m, now) # rest)
            = (let (acc, h) = run_manifests X J ts (im_seq m) rest in (m # acc, h))"
      then obtain acc' where m: "\<exists>p. genuine X J ts m p" "high < im_seq m"
        and run: "run_manifests X J ts (im_seq m) rest = (acc', h)" and acc: "acc = m # acc'"
        using Cons.prems by (auto simp: x split: prod.splits)
      from Cons.IH [OF run] m show ?thesis by (auto simp: acc)
    next
      assume "run_manifests X J ts high ((m, now) # rest) = run_manifests X J ts high rest"
      with Cons.prems have "run_manifests X J ts high rest = (acc, h)" by (simp only: x)
      then show ?thesis by (rule Cons.IH)
    qed
  qed
  then have "distinct (map im_seq acc)" by (simp add: strict_sorted_iff)
  then have "distinct acc" by (simp add: distinct_map)
  with inv show ?thesis by blast
qed

theorem manifests_never_replay_witness:
  "run_manifests demo_pgp demo_json [''cert''] 3
     [(demo_manifest StateClear, 15), (demo_manifest StateActive, 15)] = ([demo_manifest StateClear], 7)
   \<and> distinct [demo_manifest StateClear] \<and> (3 :: int) \<le> 7"
proof -
  have run: "run_manifests demo_pgp demo_json [''cert''] 3
     [(demo_manifest StateClear, 15), (demo_manifest StateActive, 15)] = ([demo_manifest StateClear], 7)"
    by (simp add: verdict_genuine [OF demo_genuine]) (simp add: demo_manifest_def)
  from manifests_never_replay [OF run] run show ?thesis by simp
qed

end
