(* ===== verification/Edit_Distance.thy ===== *)
theory Edit_Distance
  imports Text
begin

text \<open>
  The typo correction of \<open>passkey-core/src/recovery/bip39_impl.rs\<close>: \<open>levenshtein_distance\<close>, a
  dynamic program over two rows that are swapped after every character, and its specification.
  \<open>edit1\<close> is one edit of a word (insert, delete or replace one character); the distance is the
  least number of edits that lead from one word to the other.
\<close>

section \<open>The program\<close>

text \<open>
  \<open>prev\<close> and \<open>curr\<close> are the two vectors. The inner loop writes \<open>curr[j]\<close> for \<open>j\<close> from 1 to \<open>n\<close>,
  the outer one writes \<open>curr[0]\<close>, runs it and swaps. Characters are compared as UTF-8 characters.
\<close>

definition lev_cell :: "string list \<Rightarrow> string list \<Rightarrow> nat \<Rightarrow> nat list \<Rightarrow> nat list \<Rightarrow> nat \<Rightarrow> nat list" where
  "lev_cell a b i prev cur j =
     (let cost = if a ! (i - 1) = b ! (j - 1) then 0 else 1
      in cur[j := min (min (prev ! j + 1) (cur ! (j - 1) + 1)) (prev ! (j - 1) + cost)])"

definition lev_row :: "string list \<Rightarrow> string list \<Rightarrow> nat list \<times> nat list \<Rightarrow> nat \<Rightarrow> nat list \<times> nat list" where
  "lev_row a b rows i =
     (case rows of (prev, cur) \<Rightarrow>
        (let cur = foldl (lev_cell a b i prev) (cur[0 := i]) [1..<length b + 1]
         in (cur, prev)))"

definition levenshtein_distance :: "string \<Rightarrow> string \<Rightarrow> nat" where
  "levenshtein_distance s t =
     (let a = utf8_chars s; b = utf8_chars t; m = length a; n = length b
      in if m = 0 then n
         else if n = 0 then m
         else fst (foldl (lev_row a b) ([0..<n + 1], replicate (n + 1) 0) [1..<m + 1]) ! n)"

section \<open>Edit sequences\<close>

inductive edit1 :: "'a list \<Rightarrow> 'a list \<Rightarrow> bool" where
  insert_char: "edit1 (u @ v) (u @ c # v)"
| delete_char: "edit1 (u @ c # v) (u @ v)"
| replace_char: "edit1 (u @ c # v) (u @ d # v)"

definition edits :: "'a list \<Rightarrow> 'a list \<Rightarrow> nat \<Rightarrow> bool" where
  "edits xs ys n \<longleftrightarrow> (edit1 ^^ n) xs ys"

text \<open>The recursive distance, the bridge between the rows and the edit sequences.\<close>

fun dist :: "'a list \<Rightarrow> 'a list \<Rightarrow> nat" where
  "dist [] ys = length ys"
| "dist (x # xs) [] = Suc (length xs)"
| "dist (x # xs) (y # ys) =
     min (min (dist xs (y # ys) + 1) (dist (x # xs) ys + 1)) (dist xs ys + (if x = y then 0 else 1))"

lemma dist_Nil2 [simp]: "dist xs [] = length xs"
  by (cases xs) simp_all

lemma dist_self [simp]: "dist xs xs = 0"
  by (induction xs) simp_all

lemma dist_delete: "dist v ys \<le> dist (c # v) ys + 1"
proof (induction ys arbitrary: c v)
  case Nil
  show ?case by simp
next
  case (Cons y ys)
  have "dist v (y # ys) \<le> dist v ys + 1" if "v \<noteq> []" using that by (cases v) simp_all
  moreover have "dist v (y # ys) \<le> dist v ys + 1" if "v = []" using that by simp
  ultimately have ins: "dist v (y # ys) \<le> dist v ys + 1" by blast
  from Cons.IH [of v c] ins show ?case by (auto simp: min_def)
qed

lemma dist_insert: "dist (c # v) ys \<le> dist v ys + 1"
  by (cases ys) (simp_all add: min_le_iff_disj)

lemma dist_replace: "dist (c # v) ys \<le> dist (d # v) ys + 1"
proof (induction ys)
  case Nil
  show ?case by simp
next
  case (Cons y ys)
  then show ?case by (auto simp: min_def)
qed

lemma dist_context:
  assumes "\<And>ys. dist s ys \<le> dist t ys + 1"
  shows "dist (u @ s) ys \<le> dist (u @ t) ys + 1"
proof (induction u arbitrary: ys)
  case Nil
  show ?case using assms by simp
next
  case outer: (Cons x u)
  show ?case
  proof (induction ys)
    case Nil
    show ?case using assms [of "[]"] by simp
  next
    case (Cons y ys)
    with outer.IH [of "y # ys"] outer.IH [of ys] show ?case by (auto simp: min_def)
  qed
qed

lemma dist_edit1: "edit1 xs zs \<Longrightarrow> dist xs ys \<le> dist zs ys + 1"
  by (induction rule: edit1.induct)
     (rule dist_context, rule dist_delete dist_insert dist_replace)+

lemma dist_le_edits: "edits xs ys n \<Longrightarrow> dist xs ys \<le> n"
  unfolding edits_def
proof (induction n arbitrary: xs)
  case 0
  then show ?case by simp
next
  case (Suc n)
  then obtain zs where "edit1 xs zs" "(edit1 ^^ n) zs ys" by (meson relpowp_Suc_D2)
  with Suc.IH [of zs] dist_edit1 [of xs zs ys] show ?case by simp
qed

text \<open>The distance is reached: an edit sequence of that length exists.\<close>

lemma edit1_Cons: "edit1 xs ys \<Longrightarrow> edit1 (x # xs) (x # ys)"
  by (induction rule: edit1.induct) (metis append_Cons edit1.intros)+

lemma relpowp_mono_map:
  assumes "\<And>x y. R x y \<Longrightarrow> R (f x) (f y)"
  shows "(R ^^ n) x y \<Longrightarrow> (R ^^ n) (f x) (f y)"
proof (induction n arbitrary: y)
  case 0
  then show ?case by simp
next
  case (Suc n)
  then show ?case by (auto dest: assms elim!: relpowp_Suc_E intro!: relpowp_Suc_I simp del: relpowp.simps)
qed

lemma edits_Cons: "edits xs ys n \<Longrightarrow> edits (x # xs) (x # ys) n"
  unfolding edits_def by (rule relpowp_mono_map [of edit1 "Cons x", OF edit1_Cons])

lemma edits_step: "edit1 xs zs \<Longrightarrow> edits zs ys n \<Longrightarrow> edits xs ys (n + 1)"
  unfolding edits_def by (simp add: relpowp_Suc_I2 del: relpowp.simps)

lemma edit1_head:
  "edit1 (x # v) v" "edit1 v (x # v)" "edit1 (x # v) (y # v)"
  using edit1.intros [of "[]"] by simp_all

lemma edits_reach: "edits xs ys (dist xs ys)"
proof (induction xs ys rule: dist.induct)
  case (1 ys)
  show ?case
  proof (induction ys)
    case Nil
    show ?case by (simp add: edits_def)
  next
    case (Cons y ys)
    then have "edits [y] (y # ys) (length ys)" using edits_Cons [of "[]" ys _ y] by simp
    with edits_step [OF edit1_head(2) [of "[]" y]] show ?case by simp
  qed
next
  case (2 x xs)
  have "edits zs [] (length zs)" for zs :: "'a list"
  proof (induction zs)
    case Nil
    show ?case by (simp add: edits_def)
  next
    case (Cons z zs)
    then show ?case using edits_step [OF edit1_head(1)] by fastforce
  qed
  from this [of "x # xs"] show ?case by simp
next
  case (3 x xs y ys)
  have "edits (x # xs) (y # ys) (dist xs (y # ys) + 1)"
    by (rule edits_step [OF edit1_head(1) 3(1)])
  moreover have "edits (x # xs) (y # ys) (dist (x # xs) ys + 1)"
    by (rule edits_step [OF edit1_head(2) [of _ y]]) (rule edits_Cons [OF 3(2)])
  moreover have "edits (x # xs) (y # ys) (dist xs ys + (if x = y then 0 else 1))"
    using edits_Cons [OF 3(3), of y] edits_step [OF edit1_head(3) [of x xs y], of "y # ys"] by simp
  ultimately show ?case by (simp add: min_def)
qed

lemma dist_least: "dist xs ys = (LEAST n. edits xs ys n)"
  by (rule Least_equality [symmetric]) (rule edits_reach, rule dist_le_edits)

text \<open>The rows go through prefixes, so the recursion runs on reversed words.\<close>

lemma edit1_rev: "edit1 xs ys \<Longrightarrow> edit1 (rev xs) (rev ys)"
  by (induction rule: edit1.induct) (simp_all add: edit1.intros)

lemma edits_rev: "edits (rev xs) (rev ys) n \<longleftrightarrow> edits xs ys n"
  using relpowp_mono_map [of edit1 rev, OF edit1_rev, of n xs ys]
    relpowp_mono_map [of edit1 rev, OF edit1_rev, of n "rev xs" "rev ys"]
  by (auto simp: edits_def)

lemma dist_rev: "dist (rev xs) (rev ys) = dist xs ys"
  by (simp add: dist_least edits_rev)

section \<open>The rows\<close>

definition dist_cell :: "'a list \<Rightarrow> 'a list \<Rightarrow> nat \<Rightarrow> nat \<Rightarrow> nat" where
  "dist_cell a b i j = dist (rev (take i a)) (rev (take j b))"

lemma cell_0 [simp]: "j \<le> length b \<Longrightarrow> dist_cell a b 0 j = j"
  by (simp add: dist_cell_def)

lemma cell_column: "i \<le> length a \<Longrightarrow> dist_cell a b i 0 = i"
  by (simp add: dist_cell_def)

lemma cell_Suc:
  "i < length a \<Longrightarrow> j < length b \<Longrightarrow> dist_cell a b (Suc i) (Suc j) =
     min (min (dist_cell a b i (Suc j) + 1) (dist_cell a b (Suc i) j + 1))
         (dist_cell a b i j + (if a ! i = b ! j then 0 else 1))"
  by (simp add: dist_cell_def take_Suc_conv_app_nth)

definition is_row :: "string list \<Rightarrow> string list \<Rightarrow> nat \<Rightarrow> nat \<Rightarrow> nat list \<Rightarrow> bool" where
  "is_row a b i k row \<longleftrightarrow> length row = length b + 1 \<and> (\<forall>j \<le> k. row ! j = dist_cell a b i j)"

lemma lev_cell_row:
  assumes "is_row a b i (length b) prev" and "is_row a b (Suc i) j cur"
    and "i < length a" and "j < length b"
  shows "is_row a b (Suc i) (Suc j) (lev_cell a b (Suc i) prev cur (Suc j))"
  using assms by (auto simp: is_row_def lev_cell_def Let_def cell_Suc nth_list_update le_Suc_eq)

lemma lev_inner_row:
  assumes "is_row a b i (length b) prev" and "length cur = length b + 1"
    and "i < length a" and "k \<le> length b"
  shows "is_row a b (Suc i) k (foldl (lev_cell a b (Suc i) prev) (cur[0 := Suc i]) [1..<k + 1])"
  using assms(4)
proof (induction k)
  case 0
  show ?case using assms by (simp add: is_row_def cell_column)
next
  case (Suc k)
  then show ?case using lev_cell_row [OF assms(1) _ assms(3), of k] by simp
qed

lemma lev_outer_row:
  assumes "k \<le> length a"
  shows "\<exists>p c. foldl (lev_row a b) ([0..<length b + 1], replicate (length b + 1) 0) [1..<k + 1] = (p, c)
    \<and> is_row a b k (length b) p \<and> length c = length b + 1"
  using assms
proof (induction k)
  case 0
  show ?case by (auto simp: is_row_def nth_append)
next
  case (Suc k)
  then obtain p c where pc:
    "foldl (lev_row a b) ([0..<length b + 1], replicate (length b + 1) 0) [1..<k + 1] = (p, c)"
    "is_row a b k (length b) p" "length c = length b + 1" by auto
  let ?r = "foldl (lev_cell a b (Suc k) p) (c[0 := Suc k]) [1..<length b + 1]"
  have "is_row a b (Suc k) (length b) ?r"
    using pc(2,3) Suc.prems by (intro lev_inner_row) simp_all
  moreover have upt: "[1..<Suc k + 1] = [1..<k + 1] @ [Suc k]" by simp
  have "foldl (lev_row a b) ([0..<length b + 1], replicate (length b + 1) 0) [1..<Suc k + 1] = (?r, p)"
    unfolding upt foldl_append pc(1) by (simp add: lev_row_def Let_def)
  moreover have "length p = length b + 1" using pc(2) by (simp add: is_row_def)
  ultimately show ?case by blast
qed

lemma levenshtein_distance_dist: "levenshtein_distance s t = dist (utf8_chars s) (utf8_chars t)"
proof -
  let ?a = "utf8_chars s" and ?b = "utf8_chars t"
  obtain p c where pc: "foldl (lev_row ?a ?b) ([0..<length ?b + 1], replicate (length ?b + 1) 0)
      [1..<length ?a + 1] = (p, c)" "is_row ?a ?b (length ?a) (length ?b) p"
    using lev_outer_row [of "length ?a" ?a ?b] by auto
  then have "p ! length ?b = dist ?a ?b" by (simp add: is_row_def dist_cell_def dist_rev)
  with pc(1) show ?thesis by (auto simp: levenshtein_distance_def Let_def)
qed

lemma levenshtein_least:
  "levenshtein_distance s t = (LEAST n. edits (utf8_chars s) (utf8_chars t) n)"
  by (simp add: levenshtein_distance_dist dist_least)

end
