(* ===== verification/Recovery.thy ===== *)
theory Recovery
  imports Phrase Edit_Distance Crypto_Error Chunk_Encryption
begin

text \<open>
  \<open>passkey-core/src/recovery\<close>: recovery codes of 24 BIP39 words (\<open>mod.rs\<close>), what is derived from
  them (\<open>derive.rs\<close>), and the help for typing one (\<open>bip39_impl.rs\<close>).

  The \<open>bip39\<close> crate is the parameter \<open>bip39\<close> over its type of mnemonics: parsing (the error as it
  displays), printing, the seed under the empty passphrase, mnemonics of 32 bytes of entropy, and
  the English word list. HKDF is in \<open>primitives\<close>, SHA-256 in \<open>hashes\<close>.
\<close>

record 'm bip39 =
  bip_parse :: "string \<Rightarrow> string + 'm"
  bip_display :: "'m \<Rightarrow> string"
  bip_seed :: "'m \<Rightarrow> bytes"
  bip_from_entropy :: "bytes \<Rightarrow> string + 'm"
  bip_words :: "string list"

section \<open>Recovery codes\<close>

definition RECOVERY_CODE_WORD_COUNT :: nat where
  "RECOVERY_CODE_WORD_COUNT = 24"

definition RECOVERY_DERIVATION_INFO :: bytes where
  "RECOVERY_DERIVATION_INFO = as_bytes ''gitcellar-passkey-recovery-v1''"

record 'm RecoveryCode =
  mnemonic :: 'm

definition recovery_normalize_phrase :: "unicode \<Rightarrow> string \<Rightarrow> string" where
  "recovery_normalize_phrase U phrase = join '' '' (split_whitespace U (to_lowercase U phrase))"

definition code_from_phrase :: "'m bip39 \<Rightarrow> unicode \<Rightarrow> string \<Rightarrow> 'm RecoveryCode PasskeyResult" where
  "code_from_phrase B U phrase =
     (let normalized = recovery_normalize_phrase U phrase;
          word_count = length (split_whitespace U normalized)
      in if word_count \<noteq> RECOVERY_CODE_WORD_COUNT
         then Inl (PasskeyError.InvalidRecoveryCode (''Expected '' @ nat_to_string RECOVERY_CODE_WORD_COUNT
                @ '' words, got '' @ nat_to_string word_count))
         else try_bind (map_err (\<lambda>e. PasskeyError.InvalidRecoveryCode (''Invalid mnemonic: '' @ e))
                          (bip_parse B normalized)) (\<lambda>m. Inr \<lparr>mnemonic = m\<rparr>))"

definition code_phrase :: "'m bip39 \<Rightarrow> 'm RecoveryCode \<Rightarrow> string" where
  "code_phrase B c = bip_display B (mnemonic c)"

definition derive_key_material :: "'m bip39 \<Rightarrow> primitives \<Rightarrow> 'm RecoveryCode \<Rightarrow> panic + bytes" where
  "derive_key_material B P c =
     ok_or (ExpectFailed ''HKDF-SHA256 expand to 32 bytes cannot fail'')
       (hkdf_sha256 P None (bip_seed B (mnemonic c)) RECOVERY_DERIVATION_INFO 32)"

definition format_for_display :: "'m bip39 \<Rightarrow> unicode \<Rightarrow> 'm RecoveryCode \<Rightarrow> string" where
  "format_for_display B U c =
     join [CHR 0x0A] (map (join '' '') (chunks 4 (split_whitespace U (code_phrase B c))))"

text \<open>\<open>{:2}\<close>: right-aligned in two columns.\<close>

definition pad2 :: "nat \<Rightarrow> string" where
  "pad2 n = (let s = nat_to_string n in replicate (2 - length s) (CHR '' '') @ s)"

definition format_with_numbers :: "'m bip39 \<Rightarrow> unicode \<Rightarrow> 'm RecoveryCode \<Rightarrow> string" where
  "format_with_numbers B U c =
     join [CHR 0x0A]
       (map (\<lambda>(i, chunk).
            let start = i * 4 + 1; stop = start + length chunk - 1
            in pad2 start @ ''-'' @ pad2 stop @ '': '' @ join '' '' chunk)
         (enumerate 0 (chunks 4 (split_whitespace U (code_phrase B c)))))"

definition generate_recovery_code :: "'m bip39 \<Rightarrow> bytes \<Rightarrow> 'm RecoveryCode PasskeyResult" where
  "generate_recovery_code B drawn =
     try_bind (map_err (\<lambda>e. PasskeyError.KeyGeneration (''Failed to generate mnemonic: '' @ e))
                 (bip_from_entropy B drawn)) (\<lambda>m. Inr \<lparr>mnemonic = m\<rparr>)"

definition is_valid_phrase :: "'m bip39 \<Rightarrow> unicode \<Rightarrow> string \<Rightarrow> bool" where
  "is_valid_phrase B U phrase \<longleftrightarrow> (case code_from_phrase B U phrase of Inr _ \<Rightarrow> True | Inl _ \<Rightarrow> False)"

definition find_invalid_words :: "'m bip39 \<Rightarrow> unicode \<Rightarrow> string \<Rightarrow> (nat \<times> string) list" where
  "find_invalid_words B U phrase =
     map (\<lambda>(i, w). (i + 1, w))
       (filter (\<lambda>(i, w). \<not> list_ex (\<lambda>v. v = to_lowercase U w) (bip_words B))
         (enumerate 0 (split_whitespace U phrase)))"

section \<open>Derived values\<close>

definition derive_verification_hash ::
    "'m bip39 \<Rightarrow> primitives \<Rightarrow> hashes \<Rightarrow> 'm RecoveryCode \<Rightarrow> panic + string" where
  "derive_verification_hash B P H c =
     try_bind (derive_key_material B P c) (\<lambda>key_material.
       Inr (hex_encode (sha256 H (key_material @ as_bytes ''verification''))))"

definition derive_identifier ::
    "'m bip39 \<Rightarrow> primitives \<Rightarrow> hashes \<Rightarrow> 'm RecoveryCode \<Rightarrow> panic + string" where
  "derive_identifier B P H c =
     try_bind (derive_key_material B P c) (\<lambda>key_material.
       Inr (hex_encode (take 8 (sha256 H (key_material @ as_bytes ''identifier'')))))"

definition verify_against_hash ::
    "'m bip39 \<Rightarrow> primitives \<Rightarrow> hashes \<Rightarrow> 'm RecoveryCode \<Rightarrow> string \<Rightarrow> panic + bool" where
  "verify_against_hash B P H c stored_hash =
     try_bind (derive_verification_hash B P H c) (\<lambda>h. Inr (h = stored_hash))"

definition hash_recovery_phrase ::
    "'m bip39 \<Rightarrow> primitives \<Rightarrow> hashes \<Rightarrow> unicode \<Rightarrow> string \<Rightarrow> panic + string option" where
  "hash_recovery_phrase B P H U phrase =
     (case code_from_phrase B U phrase of
        Inl _ \<Rightarrow> Inr None
      | Inr code \<Rightarrow> try_bind (derive_verification_hash B P H code) (\<lambda>h. Inr (Some h)))"

section \<open>Word help\<close>

definition is_valid_word :: "'m bip39 \<Rightarrow> unicode \<Rightarrow> string \<Rightarrow> bool" where
  "is_valid_word B U word \<longleftrightarrow> list_ex (\<lambda>w. w = to_lowercase U word) (bip_words B)"

definition get_word_suggestions :: "'m bip39 \<Rightarrow> unicode \<Rightarrow> string \<Rightarrow> nat \<Rightarrow> string list" where
  "get_word_suggestions B U pre max_results =
     take max_results (filter (starts_with (to_lowercase U pre)) (bip_words B))"

text \<open>\<open>min_by_key\<close>: the first of the least elements.\<close>

fun min_by_key :: "('a \<Rightarrow> nat) \<Rightarrow> 'a list \<Rightarrow> 'a option" where
  "min_by_key f [] = None"
| "min_by_key f (x # xs) = Some (foldl (\<lambda>best y. if f y < f best then y else best) x xs)"

definition find_closest_word :: "'m bip39 \<Rightarrow> unicode \<Rightarrow> string \<Rightarrow> nat \<Rightarrow> string option" where
  "find_closest_word B U word max_distance =
     map_option fst
       (min_by_key snd
         (filter (\<lambda>(_, d). d \<le> max_distance)
           (map (\<lambda>w. (w, levenshtein_distance (to_lowercase U word) w)) (bip_words B))))"

end
