(* ===== verification/Recovery_Laws.thy ===== *)
theory Recovery_Laws
  imports Recovery Chunk_Encryption_Laws
begin

text \<open>
  The theorems about recovery codes: every layout of the words leads back to the code, and the
  correction of a mistyped word is the nearest word of the list.
\<close>

section \<open>Codes\<close>

text \<open>
  What is asked of \<open>bip39\<close>: its words are lower-case ASCII; a phrase it accepts is made of them and
  is printed with single spaces; and a printed mnemonic is accepted as itself.
\<close>

definition bip39_ok :: "'m bip39 \<Rightarrow> unicode \<Rightarrow> bool" where
  "bip39_ok B U \<longleftrightarrow> list_all plain_word (bip_words B)
     \<and> (\<forall>s m. bip_parse B s = Inr m \<longrightarrow> set (split_whitespace U s) \<subseteq> set (bip_words B)
          \<and> bip_display B m = join '' '' (split_whitespace U s))
     \<and> (\<forall>m. bip_parse B (bip_display B m) = Inr m)"

lemma list_all_join_ascii:
  "list_all (list_all P) ws \<Longrightarrow> list_all P sep \<Longrightarrow> list_all P (join sep ws)"
  by (induction sep ws rule: join.induct) simp_all

lemma plain_word_ascii: "list_all plain_word ws \<Longrightarrow> list_all (list_all is_ascii) ws"
  by (auto simp: list_all_iff plain_word_def)

lemma split_whitespace_plain:
  "ascii_ws d \<Longrightarrow> is_ascii d \<Longrightarrow> list_all plain_word ws \<Longrightarrow> split_whitespace U (join [d] ws) = ws"
  using list_all_join_ascii [OF plain_word_ascii, of ws "[d]"] ascii_words_plain_join [of d ws]
  by (simp add: split_whitespace_ascii ascii_words_def)

lemma lower_plain_join:
  assumes "list_all plain_word ws"
  shows "to_lowercase U (join '' '' ws) = join '' '' ws"
proof -
  have "list_all is_ascii (join '' '' ws)"
    using list_all_join_ascii [OF plain_word_ascii [OF assms], of "'' ''"]
    by (simp add: is_ascii_def code_of_def)
  moreover have "map ascii_lower (join '' '' ws) = join '' '' ws"
    using assms join_set [of _ "'' ''" ws]
    by (intro map_idI) (fastforce simp: list_all_iff plain_word_def ascii_lower_def code_of_def)
  ultimately show ?thesis by (simp add: to_lowercase_def)
qed

lemma normalize_plain_join:
  "list_all plain_word ws \<Longrightarrow> recovery_normalize_phrase U (join '' '' ws) = join '' '' ws"
  using split_whitespace_plain [of "CHR '' ''" ws U]
  by (simp add: recovery_normalize_phrase_def lower_plain_join ascii_ws_def is_ascii_def code_of_def)

text \<open>The words of the displayed text, whatever the grouping.\<close>

lemma display_words:
  assumes "list_all plain_word ws"
  shows "recovery_normalize_phrase U (join [CHR 0x0A] (map (join '' '') (chunks 4 ws))) = join '' '' ws"
proof -
  let ?lines = "map (join '' '') (chunks 4 ws)"
  have plain: "list_all plain_word l" if "l \<in> set (chunks 4 ws)" for l
    using set_chunks [OF that] assms by (auto simp: list_all_iff)
  have chars: "list_all (\<lambda>c. is_ascii c \<and> ascii_lower c = c) (join [CHR 0x0A] ?lines)"
  proof (rule list_all_join_ascii)
    show "list_all (list_all (\<lambda>c. is_ascii c \<and> ascii_lower c = c)) ?lines"
      unfolding list_all_iff
    proof (intro ballI)
      fix x c assume "x \<in> set ?lines" "c \<in> set x"
      then obtain l where "l \<in> set (chunks 4 ws)" "c \<in> set (join '' '' l)" by auto
      then show "is_ascii c \<and> ascii_lower c = c"
        using join_set [of c "'' ''" l] plain [of l]
        by (fastforce simp: list_all_iff plain_word_def is_ascii_def ascii_lower_def code_of_def)
    qed
  qed (simp add: is_ascii_def ascii_lower_def code_of_def)
  then have ascii: "list_all is_ascii (join [CHR 0x0A] ?lines)"
    and lower: "map ascii_lower (join [CHR 0x0A] ?lines) = join [CHR 0x0A] ?lines"
    by (auto simp: list_all_iff intro!: map_idI)
  have "ascii_words (join '' '' l) = l" if "l \<in> set (chunks 4 ws)" for l
    using ascii_words_plain_join [OF _ plain [OF that], of "CHR '' ''"]
    by (simp add: ascii_ws_def code_of_def)
  then have "map (ascii_words \<circ> join '' '') (chunks 4 ws) = chunks 4 ws" by (simp add: map_idI)
  then have "ascii_words (join [CHR 0x0A] ?lines) = ws"
    using ascii_words_join [of "CHR 0x0A" ?lines] by (simp add: ascii_ws_def code_of_def comp_def)
  then show ?thesis
    by (simp add: recovery_normalize_phrase_def to_lowercase_def ascii lower
        split_whitespace_ascii [OF ascii] ascii_words_def)
qed

text \<open>C34: A recovery code read from any text has exactly 24 words of the list, and is read back from
  its phrase and from the grouped text that is shown to be written down; whatever is read back
  yields the hash that was stored for the code.\<close>

theorem recovery_code_round_trip:
  assumes "bip39_ok B U" and "code_from_phrase B U p = Inr c"
  shows "(\<exists>ws. code_phrase B c = join '' '' ws \<and> length ws = 24 \<and> set ws \<subseteq> set (bip_words B))
    \<and> code_from_phrase B U (code_phrase B c) = Inr c
    \<and> code_from_phrase B U (format_for_display B U c) = Inr c
    \<and> find_invalid_words B U (code_phrase B c) = []
    \<and> (derive_verification_hash B P H c = Inr h \<longrightarrow>
         hash_recovery_phrase B P H U (format_for_display B U c) = Inr (Some h)
         \<and> verify_against_hash B P H c h = Inr True)"
proof -
  let ?n = "recovery_normalize_phrase U p"
  let ?ws = "split_whitespace U ?n"
  from assms(2) have len: "length ?ws = 24" and m: "bip_parse B ?n = Inr (mnemonic c)"
    by (auto simp: code_from_phrase_def Let_def RECOVERY_CODE_WORD_COUNT_def try_bind_eq_Inr
        split: if_splits)
  with assms(1) have sub: "set ?ws \<subseteq> set (bip_words B)" and phrase: "code_phrase B c = join '' '' ?ws"
    unfolding bip39_ok_def code_phrase_def by blast+
  from assms(1) have parse: "bip_parse B (code_phrase B c) = Inr (mnemonic c)"
    by (simp add: bip39_ok_def code_phrase_def)
  have plain: "list_all plain_word ?ws"
    using sub assms(1) by (auto simp: bip39_ok_def list_all_iff)
  have space: "ascii_ws (CHR '' '')" "is_ascii (CHR '' '')"
    by (simp_all add: ascii_ws_def is_ascii_def code_of_def)
  have words: "split_whitespace U (code_phrase B c) = ?ws"
    using split_whitespace_plain [OF space plain] by (simp add: phrase)
  have read: "code_from_phrase B U t = Inr c" if "recovery_normalize_phrase U t = code_phrase B c" for t
    using that len parse words by (simp add: code_from_phrase_def RECOVERY_CODE_WORD_COUNT_def)
  have again: "code_from_phrase B U (code_phrase B c) = Inr c"
    by (rule read) (simp add: phrase normalize_plain_join [OF plain])
  have shown: "code_from_phrase B U (format_for_display B U c) = Inr c"
    by (rule read) (simp only: format_for_display_def words display_words [OF plain], simp only: phrase)
  have "to_lowercase U w = w" if "w \<in> set ?ws" for w
    using that plain lower_plain_join [of "[w]" U] by (simp add: list_all_iff)
  then have ok: "find_invalid_words B U (code_phrase B c) = []"
    using sub by (auto simp: find_invalid_words_def words filter_empty_conv list_ex_iff in_set_enumerate_eq
        dest!: nth_mem)
  show ?thesis
    using phrase len sub again shown ok
    by (auto simp: hash_recovery_phrase_def verify_against_hash_def)
qed

definition demo_bip39 :: "bool list bip39" where
  "demo_bip39 = \<lparr>bip_parse = (\<lambda>s. let ws = split_whitespace demo_unicode s
       in if list_all (\<lambda>w. w = ''ab'' \<or> w = ''cd'') ws then Inr (map (\<lambda>w. w = ''ab'') ws) else Inl ''bad word''),
     bip_display = (\<lambda>m. join '' '' (map (\<lambda>b. if b then ''ab'' else ''cd'') m)),
     bip_seed = (\<lambda>m. map (\<lambda>b. if b then 1 else 0) m), bip_from_entropy = (\<lambda>e. Inr (map (\<lambda>b. b = 0) e)),
     bip_words = [''ab'', ''cd'']\<rparr>"

lemma demo_word_plain: "plain_word (if b then ''ab'' else ''cd'')"
  by (simp add: plain_word_def is_ascii_def ascii_ws_def ascii_lower_def code_of_def)

lemma demo_bip39_split:
  "split_whitespace demo_unicode (join '' '' (map (\<lambda>b. if b then ''ab'' else ''cd'') m))
     = map (\<lambda>b. if b then ''ab'' else ''cd'') m"
proof (rule split_whitespace_plain)
  show "list_all plain_word (map (\<lambda>b. if b then ''ab'' else ''cd'') m)"
    by (induction m) (simp_all only: list.map list.pred_inject demo_word_plain simp_thms)
qed (simp_all add: ascii_ws_def is_ascii_def code_of_def)

lemma demo_bip39_ok: "bip39_ok demo_bip39 demo_unicode"
proof -
  have again: "map (\<lambda>w. if w = ''ab'' then ''ab'' else ''cd'') ws = ws"
    if "list_all (\<lambda>w. w = ''ab'' \<or> w = ''cd'') ws" for ws :: "string list"
    using that by (intro map_idI) (auto simp: list_all_iff)
  show ?thesis
    using demo_word_plain [of True] demo_word_plain [of False]
    by (auto simp: bip39_ok_def demo_bip39_def Let_def demo_bip39_split comp_def again list_all_iff
        split: if_splits intro!: map_idI)
qed

theorem recovery_code_round_trip_witness:
  "code_from_phrase demo_bip39 demo_unicode (format_for_display demo_bip39 demo_unicode
      \<lparr>mnemonic = replicate 24 True\<rparr>) = Inr \<lparr>mnemonic = replicate 24 True\<rparr>"
proof -
  have plain: "list_all plain_word (replicate 24 ''ab'')"
    using demo_word_plain [of True] by (simp add: list_all_iff)
  have "recovery_normalize_phrase demo_unicode (join '' '' (replicate 24 ''ab''))
      = join '' '' (replicate 24 ''ab'')"
    by (rule normalize_plain_join [OF plain])
  moreover have "split_whitespace demo_unicode (join '' '' (replicate 24 ''ab'')) = replicate 24 ''ab''"
    using demo_bip39_split [of "replicate 24 True"] by simp
  ultimately have "code_from_phrase demo_bip39 demo_unicode (join '' '' (replicate 24 ''ab''))
      = Inr \<lparr>mnemonic = replicate 24 True\<rparr>"
    by (simp add: code_from_phrase_def RECOVERY_CODE_WORD_COUNT_def demo_bip39_def list_all_iff)
  from recovery_code_round_trip [OF demo_bip39_ok this] show ?thesis by blast
qed

section \<open>Closest words\<close>

lemma first_least:
  "foldl (\<lambda>best y. if f y < f best then y else best) x xs = m \<Longrightarrow>
     \<exists>pre post. x # xs = pre @ m # post \<and> (\<forall>u \<in> set pre. f m < f u) \<and> (\<forall>u \<in> set post. f m \<le> f (u :: 'a) )"
  for f :: "'a \<Rightarrow> nat"
proof (induction xs arbitrary: m rule: rev_induct)
  case Nil
  then show ?case by force
next
  case (snoc y ys)
  define b where "b = foldl (\<lambda>best y. if f y < f best then y else best) x ys"
  obtain pre post where pp: "x # ys = pre @ b # post" "\<forall>u \<in> set pre. f b < f u" "\<forall>u \<in> set post. f b \<le> f u"
    using snoc.IH [OF b_def [symmetric]] by blast
  have m: "m = (if f y < f b then y else b)" using snoc.prems by (auto simp: b_def)
  show ?case
  proof (cases "f y < f b")
    case True
    have "\<forall>u \<in> set (x # ys). f b \<le> f u" unfolding pp(1) using pp(2,3) by auto
    with True m show ?thesis by (intro exI [of _ "x # ys"] exI [of _ "[]"]) force
  next
    case False
    with m pp show ?thesis by (intro exI [of _ pre] exI [of _ "post @ [y]"]) auto
  qed
qed

lemma min_by_key_spec:
  "min_by_key f xs = r \<longleftrightarrow> (case r of None \<Rightarrow> xs = []
     | Some m \<Rightarrow> \<exists>pre post. xs = pre @ m # post \<and> (\<forall>u \<in> set pre. f m < f u) \<and> (\<forall>u \<in> set post. f m \<le> f u))"
proof -
  have ex: "min_by_key f xs = Some m \<Longrightarrow> \<exists>pre post. xs = pre @ m # post
      \<and> (\<forall>u \<in> set pre. f m < f u) \<and> (\<forall>u \<in> set post. f m \<le> f u)" for m
    by (cases xs) (simp_all, rule first_least)
  have un: "min_by_key f xs = Some m" if m: "xs = pre @ m # post" "\<forall>u \<in> set pre. f m < f u"
    "\<forall>u \<in> set post. f m \<le> f u" for m pre post
  proof -
    from m(1) have "xs \<noteq> []" by simp
    then have "\<exists>m'. min_by_key f xs = Some m'" by (cases xs) simp_all
    then obtain m' where m': "min_by_key f xs = Some m'" ..
    with ex obtain pre' post' where p': "xs = pre' @ m' # post'" "\<forall>u \<in> set pre'. f m' < f u"
      "\<forall>u \<in> set post'. f m' \<le> f u" by blast
    from m(1) p'(1) have "pre @ m # post = pre' @ m' # post'" by simp
    then consider "m = m'" | "m' \<in> set post \<and> m \<in> set pre'" | "m \<in> set post' \<and> m' \<in> set pre"
      by (auto simp: append_eq_append_conv2 Cons_eq_append_conv append_eq_Cons_conv)
    then show ?thesis
      using m(2,3) p'(2,3) m' by cases (metis linorder_not_less)+
  qed
  show ?thesis by (cases r) (use ex un in \<open>auto dest: sym\<close>, cases xs, auto)
qed

lemmas min_by_keyI = min_by_key_spec [THEN iffD2]
lemmas min_by_keyD = min_by_key_spec [THEN iffD1]

lemma min_by_key_bounded:
  "min_by_key snd (filter (\<lambda>(_, d). d \<le> k) (map (\<lambda>w. (w, g w)) ws)) =
     (case min_by_key g ws of None \<Rightarrow> None | Some m \<Rightarrow> if g m \<le> k then Some (m, g m) else None)"
  (is "min_by_key snd (?F ws) = _")
proof (cases "min_by_key g ws")
  case None
  then show ?thesis using min_by_keyD [OF None] by simp
next
  case (Some m)
  from min_by_keyD [OF Some] obtain pre post where pp: "ws = pre @ m # post"
    "\<forall>u \<in> set pre. g m < g u" "\<forall>u \<in> set post. g m \<le> g u" by auto
  show ?thesis
  proof (cases "g m \<le> k")
    case True
    have "min_by_key snd (?F ws) = Some (m, g m)"
    proof (rule min_by_keyI, unfold option.case, intro exI conjI)
      show "?F ws = ?F pre @ (m, g m) # ?F post" using pp(1) True by simp
    qed (use pp(2,3) in auto)
    with Some True show ?thesis by simp
  next
    case False
    then have "?F ws = []" using pp by (force simp: filter_empty_conv)
    with Some False show ?thesis by simp
  qed
qed

text \<open>The number of edits between a typed word, in lower case, and a word of the list.\<close>

definition word_distance :: "unicode \<Rightarrow> string \<Rightarrow> string \<Rightarrow> nat" where
  "word_distance U w v = (LEAST n. edits (utf8_chars (to_lowercase U w)) (utf8_chars v) n)"

lemma find_closest_word_eq:
  "find_closest_word B U w k = (case min_by_key (word_distance U w) (bip_words B) of
     None \<Rightarrow> None | Some m \<Rightarrow> if word_distance U w m \<le> k then Some m else None)"
proof -
  have "levenshtein_distance (to_lowercase U w) = word_distance U w"
    by (rule ext) (simp add: levenshtein_least word_distance_def)
  then show ?thesis
    by (simp add: find_closest_word_def min_by_key_bounded split: option.split)
qed

text \<open>C35: The correction of a typed word is the first word of the list with the least number of
  single-character edits (insertions, deletions, replacements) from it, if that number is within
  the limit, and none exactly if every word is further away; a word of the list, typed in any
  case, is its own correction.\<close>

theorem closest_word:
  assumes "list_all plain_word (bip_words B)"
  shows "(find_closest_word B U w k = None \<longleftrightarrow> (\<forall>v \<in> set (bip_words B). k < word_distance U w v))
    \<and> (find_closest_word B U w k = Some v \<longleftrightarrow> word_distance U w v \<le> k
        \<and> (\<exists>pre post. bip_words B = pre @ v # post
             \<and> (\<forall>u \<in> set pre. word_distance U w v < word_distance U w u)
             \<and> (\<forall>u \<in> set post. word_distance U w v \<le> word_distance U w u)))
    \<and> (is_valid_word B U w \<and> distinct (bip_words B)
        \<longrightarrow> find_closest_word B U w k = Some (to_lowercase U w))"
proof -
  let ?g = "word_distance U w"
  have some: "find_closest_word B U w k = Some v \<longleftrightarrow> ?g v \<le> k \<and> min_by_key ?g (bip_words B) = Some v" for v
    by (auto simp: find_closest_word_eq split: option.splits)
  have none: "find_closest_word B U w k = None \<longleftrightarrow> (\<forall>v \<in> set (bip_words B). k < ?g v)"
  proof (cases "min_by_key ?g (bip_words B)")
    case None
    then show ?thesis using min_by_keyD [OF None] by (simp add: find_closest_word_eq)
  next
    case (Some m)
    from min_by_keyD [OF Some] obtain pre post where "bip_words B = pre @ m # post"
      "\<forall>u \<in> set pre. ?g m < ?g u" "\<forall>u \<in> set post. ?g m \<le> ?g u" by auto
    then have "m \<in> set (bip_words B)" "\<forall>u \<in> set (bip_words B). ?g m \<le> ?g u" by auto
    with Some show ?thesis by (auto simp: find_closest_word_eq dest: leD intro: less_le_trans)
  qed
  have self: "find_closest_word B U w k = Some (to_lowercase U w)"
    if valid: "is_valid_word B U w" and dist: "distinct (bip_words B)"
  proof -
    let ?v = "to_lowercase U w"
    from valid have "?v \<in> set (bip_words B)" by (auto simp: is_valid_word_def list_ex_iff)
    then obtain pre post where pp: "bip_words B = pre @ ?v # post" by (meson split_list)
    have zero: "?g ?v = 0" by (simp add: word_distance_def dist_least [symmetric])
    have inj: "utf8_chars a = utf8_chars b \<Longrightarrow> a = b" for a b by (metis concat_utf8_chars)
    have pos: "0 < ?g u" if "u \<noteq> ?v" for u
    proof (rule ccontr)
      assume "\<not> 0 < ?g u"
      then have "edits (utf8_chars ?v) (utf8_chars u) 0"
        using edits_reach [of "utf8_chars ?v" "utf8_chars u"]
        by (simp add: word_distance_def dist_least)
      then show False using that inj by (auto simp: edits_def)
    qed
    have "min_by_key ?g (bip_words B) = Some ?v"
    proof (intro min_by_keyI, unfold option.case, intro exI conjI)
      show "bip_words B = pre @ ?v # post" by (rule pp)
      have "?v \<notin> set pre" using dist by (simp add: pp)
      then show "\<forall>u \<in> set pre. ?g ?v < ?g u" using zero pos by metis
    qed (simp add: zero)
    with zero show ?thesis by (simp add: some)
  qed
  show ?thesis
  proof (intro conjI impI)
    show "find_closest_word B U w k = Some v \<longleftrightarrow> ?g v \<le> k
        \<and> (\<exists>pre post. bip_words B = pre @ v # post \<and> (\<forall>u \<in> set pre. ?g v < ?g u)
             \<and> (\<forall>u \<in> set post. ?g v \<le> ?g u))"
      unfolding some min_by_key_spec by simp
  qed (use none self in blast)+
qed

theorem closest_word_witness:
  "find_closest_word demo_bip39 demo_unicode ''Ab'' 1 = Some ''ab''"
proof -
  have "list_all plain_word (bip_words demo_bip39)"
    using demo_word_plain [of True] demo_word_plain [of False] by (simp add: demo_bip39_def)
  note closest_word [OF this, of demo_unicode "''Ab''" 1]
  moreover have "to_lowercase demo_unicode ''Ab'' = ''ab''"
    by (simp add: to_lowercase_def is_ascii_def ascii_lower_def code_of_def char_of_eq_iff)
  ultimately show ?thesis by (simp add: is_valid_word_def demo_bip39_def)
qed

end
