(* ===== verification/Storage.thy ===== *)
theory Storage
  imports Vault_Error
begin

text \<open>
  \<open>vault-core/src/storage/mod.rs\<close>: the interface of a storage backend, and what its runs are.

  The locale \<open>storage_backend\<close> is what a client may rely on, stated over the contents a state
  shows under each key (\<open>view\<close>): an operation that succeeds has its effect on its own key, one that
  fails may have left anything there, and no other key changes. From these laws every run of a
  backend is a run of a map of keys, \<open>storage_trace\<close>.
\<close>

section \<open>Runs\<close>

datatype storage_op = OpUpload string bytes | OpDownload string | OpDelete string

datatype storage_result = Done "unit VaultResult" | Got "bytes VaultResult"

fun key_of :: "storage_op \<Rightarrow> string" where
  "key_of (OpUpload p d) = p"
| "key_of (OpDownload p) = p"
| "key_of (OpDelete p) = p"

fun run_storage ::
    "(string \<Rightarrow> bytes \<Rightarrow> 's \<Rightarrow> unit VaultResult \<times> 's) \<Rightarrow> (string \<Rightarrow> 's \<Rightarrow> bytes VaultResult \<times> 's)
     \<Rightarrow> (string \<Rightarrow> 's \<Rightarrow> unit VaultResult \<times> 's) \<Rightarrow> storage_op list \<Rightarrow> 's \<Rightarrow> storage_result list \<times> 's" where
  "run_storage up down del [] s = ([], s)"
| "run_storage up down del (OpUpload p d # ops) s =
     (case up p d s of (r, s1) \<Rightarrow> case run_storage up down del ops s1 of (rs, s2) \<Rightarrow> (Done r # rs, s2))"
| "run_storage up down del (OpDownload p # ops) s =
     (case down p s of (r, s1) \<Rightarrow> case run_storage up down del ops s1 of (rs, s2) \<Rightarrow> (Got r # rs, s2))"
| "run_storage up down del (OpDelete p # ops) s =
     (case del p s of (r, s1) \<Rightarrow> case run_storage up down del ops s1 of (rs, s2) \<Rightarrow> (Done r # rs, s2))"

text \<open>The abstract storage: a map. A failed upload or deletion leaves any content at its key.\<close>

type_synonym contents = "string \<Rightarrow> bytes option"

inductive storage_step :: "contents \<Rightarrow> storage_op \<Rightarrow> storage_result \<Rightarrow> contents \<Rightarrow> bool" where
  stored: "storage_step m (OpUpload p d) (Done (Inr ())) (m(p := Some d))"
| store_failed: "storage_step m (OpUpload p d) (Done (Inl e)) (m(p := x))"
| fetched: "m p = Some d \<Longrightarrow> storage_step m (OpDownload p) (Got (Inr d)) m"
| fetch_failed: "storage_step m (OpDownload p) (Got (Inl e)) m"
| deleted: "storage_step m (OpDelete p) (Done (Inr ())) (m(p := None))"
| delete_failed: "storage_step m (OpDelete p) (Done (Inl e)) (m(p := x))"

inductive storage_trace ::
    "contents \<Rightarrow> storage_op list \<Rightarrow> storage_result list \<Rightarrow> contents \<Rightarrow> bool" where
  trace_nil: "storage_trace m [] [] m"
| trace_step: "storage_step m op r m1 \<Longrightarrow> storage_trace m1 ops rs m2
    \<Longrightarrow> storage_trace m (op # ops) (r # rs) m2"

inductive_simps storage_trace_Nil: "storage_trace m [] rs m'"
inductive_simps storage_trace_Cons: "storage_trace m (op # ops) rs m'"
inductive_cases fetch_step: "storage_step m (OpDownload p) r m'"

lemma storage_step_other: "storage_step m op r m' \<Longrightarrow> q \<noteq> key_of op \<Longrightarrow> m' q = m q"
  by (induction rule: storage_step.induct) auto

lemma storage_trace_other:
  "storage_trace m ops rs m' \<Longrightarrow> q \<notin> key_of ` set ops \<Longrightarrow> m' q = m q"
  by (induction rule: storage_trace.induct) (auto simp: storage_step_other)

lemma storage_trace_append:
  "storage_trace m (ops @ ops') rs m' \<longleftrightarrow>
     (\<exists>rs1 rs2 m1. rs = rs1 @ rs2 \<and> storage_trace m ops rs1 m1 \<and> storage_trace m1 ops' rs2 m')"
proof (induction ops arbitrary: m rs)
  case Nil
  then show ?case by (auto simp: storage_trace_Nil)
next
  case (Cons op ops)
  show ?case by (auto simp: storage_trace_Cons Cons) (metis append_Cons)+
qed

lemma storage_trace_length: "storage_trace m ops rs m' \<Longrightarrow> length rs = length ops"
  by (induction rule: storage_trace.induct) simp_all

text \<open>Reading a key gives what was last stored there, whatever happened to other keys.\<close>

lemma read_your_write:
  assumes "storage_trace m (OpUpload p d # ops @ [OpDownload p]) (Done (Inr ()) # rs @ [Got (Inr e)]) m'"
    and "p \<notin> key_of ` set ops"
  shows "e = d"
proof -
  from assms(1) obtain m1 rs1 rs2 m2 where m1: "storage_step m (OpUpload p d) (Done (Inr ())) m1"
    and split: "rs @ [Got (Inr e)] = rs1 @ rs2"
    and tr: "storage_trace m1 ops rs1 m2" "storage_trace m2 [OpDownload p] rs2 m'"
    by (simp add: storage_trace_Cons [of m] storage_trace_append) blast
  from tr(2) obtain r where r: "rs2 = [r]" "storage_step m2 (OpDownload p) r m'"
    by (auto simp: storage_trace_Cons storage_trace_Nil)
  from m1 have "m1 p = Some d" by cases auto
  with storage_trace_other [OF tr(1) assms(2)] have "m2 p = Some d" by simp
  with r split show ?thesis by (auto elim: fetch_step)
qed

section \<open>The interface\<close>

locale storage_backend =
  fixes inv :: "'s \<Rightarrow> bool" and view :: "'s \<Rightarrow> contents" and ok_key :: "string \<Rightarrow> bool"
    and up :: "string \<Rightarrow> bytes \<Rightarrow> 's \<Rightarrow> unit VaultResult \<times> 's"
    and down :: "string \<Rightarrow> 's \<Rightarrow> bytes VaultResult \<times> 's"
    and del :: "string \<Rightarrow> 's \<Rightarrow> unit VaultResult \<times> 's"
  assumes up_law: "inv s \<Longrightarrow> ok_key p \<Longrightarrow> up p d s = (r, s') \<Longrightarrow>
      inv s' \<and> (\<forall>q. q \<noteq> p \<longrightarrow> view s' q = view s q) \<and> (r = Inr () \<longrightarrow> view s' p = Some d)"
    and down_law: "inv s \<Longrightarrow> ok_key p \<Longrightarrow> down p s = (got, s') \<Longrightarrow>
      inv s' \<and> view s' = view s \<and> (\<forall>d. got = Inr d \<longrightarrow> view s p = Some d)"
    and del_law: "inv s \<Longrightarrow> ok_key p \<Longrightarrow> del p s = (r, s') \<Longrightarrow>
      inv s' \<and> (\<forall>q. q \<noteq> p \<longrightarrow> view s' q = view s q) \<and> (r = Inr () \<longrightarrow> view s' p = None)"
begin

lemma up_step:
  assumes "inv s" "ok_key p" "up p d s = (r, s')"
  shows "inv s' \<and> storage_step (view s) (OpUpload p d) (Done r) (view s')"
proof (cases r)
  case (Inl e)
  from up_law [OF assms] have "view s' = (view s)(p := view s' p)" by (auto simp: fun_eq_iff)
  with up_law [OF assms] show ?thesis unfolding Inl by (metis storage_step.store_failed)
next
  case (Inr u)
  with up_law [OF assms] have "view s' = (view s)(p := Some d)" by (auto simp: fun_eq_iff)
  with up_law [OF assms] show ?thesis by (simp add: Inr storage_step.stored)
qed

lemma down_step:
  assumes "inv s" "ok_key p" "down p s = (r, s')"
  shows "inv s' \<and> storage_step (view s) (OpDownload p) (Got r) (view s')"
  using down_law [OF assms] by (cases r) (auto intro: storage_step.intros)

lemma del_step:
  assumes "inv s" "ok_key p" "del p s = (r, s')"
  shows "inv s' \<and> storage_step (view s) (OpDelete p) (Done r) (view s')"
proof (cases r)
  case (Inl e)
  from del_law [OF assms] have "view s' = (view s)(p := view s' p)" by (auto simp: fun_eq_iff)
  with del_law [OF assms] show ?thesis unfolding Inl by (metis storage_step.delete_failed)
next
  case (Inr u)
  with del_law [OF assms] have "view s' = (view s)(p := None)" by (auto simp: fun_eq_iff)
  with del_law [OF assms] show ?thesis by (simp add: Inr storage_step.deleted)
qed

lemma refines_map:
  "run_storage up down del ops s = (rs, s') \<Longrightarrow> inv s \<Longrightarrow> \<forall>op \<in> set ops. ok_key (key_of op) \<Longrightarrow>
     inv s' \<and> storage_trace (view s) ops rs (view s')"
proof (induction ops arbitrary: s rs)
  case Nil
  then show ?case by (simp add: storage_trace.trace_nil)
next
  case (Cons op ops)
  obtain r s1 rs1 where "inv s1 \<and> storage_step (view s) op r (view s1)"
    "run_storage up down del ops s1 = (rs1, s')" "rs = r # rs1"
  proof (cases op)
    case (OpUpload p d)
    obtain x s1 where "up p d s = (x, s1)" by fastforce
    with Cons.prems OpUpload up_step [of s p d x s1] that show ?thesis by (auto split: prod.splits)
  next
    case (OpDownload p)
    obtain x s1 where "down p s = (x, s1)" by fastforce
    with Cons.prems OpDownload down_step [of s p x s1] that show ?thesis by (auto split: prod.splits)
  next
    case (OpDelete p)
    obtain x s1 where "del p s = (x, s1)" by fastforce
    with Cons.prems OpDelete del_step [of s p x s1] that show ?thesis by (auto split: prod.splits)
  qed
  with Cons.IH [of s1 rs1] Cons.prems(3) show ?case by (auto intro: storage_trace.trace_step)
qed

lemma stored_is_fetched:
  assumes "run_storage up down del (OpUpload p d # ops @ [OpDownload p]) s
      = (Done (Inr ()) # rs @ [Got (Inr e)], s')"
    and "inv s" and "ok_key p" and "\<forall>op \<in> set ops. ok_key (key_of op) \<and> key_of op \<noteq> p"
  shows "e = d"
  by (rule read_your_write [of "view s" p d ops rs e "view s'"])
     (use refines_map [OF assms(1,2)] assms(3,4) in auto)

end

end
