(* ===== verification/Username.thy ===== *)
theory Username
  imports Crypto_Error Text
begin

text \<open>
  \<open>passkey-core/src/paths/username.rs\<close>: the validation of account names and of the names of
  user directories; and the lexical containment check of \<open>checked_user_dir\<close> in
  \<open>paths/mod.rs\<close>, with the path components of \<open>std::path\<close> on Unix.
\<close>

section \<open>Definitions\<close>

definition MAX_USERNAME_LEN :: nat where
  "MAX_USERNAME_LEN = 39"

definition RESERVED_USER_DIR_NAMES :: "string list" where
  "RESERVED_USER_DIR_NAMES = [''_pending_new'']"

definition WINDOWS_DEVICE_NAMES :: "string list" where
  "WINDOWS_DEVICE_NAMES =
     [''CON'', ''PRN'', ''AUX'', ''NUL'',
      ''COM0'', ''COM1'', ''COM2'', ''COM3'', ''COM4'', ''COM5'', ''COM6'', ''COM7'', ''COM8'', ''COM9'',
      ''LPT0'', ''LPT1'', ''LPT2'', ''LPT3'', ''LPT4'', ''LPT5'', ''LPT6'', ''LPT7'', ''LPT8'', ''LPT9'']"

text \<open>\<open>{:?}\<close> quotes the name; the argument \<open>debug\<close> is that rendering.\<close>

definition invalid_name :: "(string \<Rightarrow> string) \<Rightarrow> string \<Rightarrow> string \<Rightarrow> PasskeyError" where
  "invalid_name debug name why =
     PasskeyError.Other (''invalid username '' @ debug name @ '': '' @ why)"

definition validate_username :: "(string \<Rightarrow> string) \<Rightarrow> string \<Rightarrow> unit PasskeyResult" where
  "validate_username debug name =
     (if name = [] then Inl (invalid_name debug name ''empty'')
      else if MAX_USERNAME_LEN < length name
      then Inl (invalid_name debug name ''longer than 39 characters'')
      else if \<not> list_all (\<lambda>c. is_ascii_alphanumeric c \<or> c = CHR ''-'') name
      then Inl (invalid_name debug name ''only ASCII letters, digits and '-' are allowed'')
      else if hd name = CHR ''-'' \<or> last name = CHR ''-''
      then Inl (invalid_name debug name ''must start and end with a letter or digit'')
      else if contains_str ''--'' name
      then Inl (invalid_name debug name ''consecutive dashes'')
      else if list_ex (\<lambda>d. eq_ignore_ascii_case d name) WINDOWS_DEVICE_NAMES
      then Inl (invalid_name debug name ''a reserved device name'')
      else Inr ())"

definition is_valid_username :: "string \<Rightarrow> bool" where
  "is_valid_username name \<longleftrightarrow> validate_username (\<lambda>s. s) name = Inr ()"

definition validate_user_dir_name :: "(string \<Rightarrow> string) \<Rightarrow> string \<Rightarrow> unit PasskeyResult" where
  "validate_user_dir_name debug name =
     (if name \<in> set RESERVED_USER_DIR_NAMES then Inr () else validate_username debug name)"

definition is_valid_user_dir_name :: "string \<Rightarrow> bool" where
  "is_valid_user_dir_name name \<longleftrightarrow> validate_user_dir_name (\<lambda>s. s) name = Inr ()"

section \<open>Paths\<close>

datatype component = RootDir | CurDir | ParentDir | Normal string

definition path_component :: "string \<Rightarrow> component" where
  "path_component p = (if p = ''..'' then ParentDir else if p = ''.'' then CurDir else Normal p)"

text \<open>The components a relative path adds when it is joined to another: empty parts and \<open>.\<close>
  disappear. An absolute one replaces the base.\<close>

definition added_components :: "string \<Rightarrow> component list" where
  "added_components name =
     filter (\<lambda>c. c \<noteq> CurDir) (map path_component (filter (\<lambda>p. p \<noteq> []) (split_on (CHR ''/'') name)))"

definition path_join :: "component list \<Rightarrow> string \<Rightarrow> component list" where
  "path_join base name =
     (if name \<noteq> [] \<and> hd name = CHR ''/'' then RootDir # added_components name
      else base @ added_components name)"

definition path_strip_prefix :: "component list \<Rightarrow> component list \<Rightarrow> component list option" where
  "path_strip_prefix base p =
     (if take (length base) p = base then Some (drop (length base) p) else None)"

definition escape :: "(string \<Rightarrow> string) \<Rightarrow> string \<Rightarrow> PasskeyError" where
  "escape debug name =
     PasskeyError.Other (''invalid username '' @ debug name
       @ '': the user directory would fall outside users/'')"

definition lexical_child :: "(string \<Rightarrow> string) \<Rightarrow> component list \<Rightarrow> string \<Rightarrow> component list PasskeyResult" where
  "lexical_child debug users_dir name =
     (let dir = path_join users_dir name
      in case path_strip_prefix users_dir dir of
           None \<Rightarrow> Inl (escape debug name)
         | Some [Normal c] \<Rightarrow> if c = name then Inr dir else Inl (escape debug name)
         | Some _ \<Rightarrow> Inl (escape debug name))"

section \<open>Words between dashes\<close>

lemma split_on_parts: "w \<in> set (split_on d s) \<Longrightarrow> d \<notin> set w \<and> set w \<subseteq> set s"
proof (induction s arbitrary: w)
  case Nil
  then show ?case by simp
next
  case (Cons c cs)
  obtain p ps where split: "split_on d cs = p # ps" by (cases "split_on d cs") simp_all
  with Cons.IH [of p] Cons.IH [of w] Cons.prems show ?case by (auto split: if_splits)
qed

text \<open>An empty part is a dash at the start or the end, or two in a row.\<close>

lemma hd_split_on: "hd (split_on d s) = [] \<longleftrightarrow> s = [] \<or> hd s = d"
  by (cases s) (auto split: list.split)

lemma contains_dd_Cons:
  "contains_str [d, d] (c # cs) \<longleftrightarrow> c = d \<and> cs \<noteq> [] \<and> hd cs = d \<or> contains_str [d, d] cs"
  by (cases cs) auto

lemma empty_tail_part:
  "[] \<in> set (tl (split_on d s)) \<longleftrightarrow> s \<noteq> [] \<and> last s = d \<or> contains_str [d, d] s"
proof (induction s)
  case Nil
  then show ?case by simp
next
  case (Cons c cs)
  obtain p ps where split: "split_on d cs = p # ps" by (cases "split_on d cs") simp_all
  have p: "p = [] \<longleftrightarrow> cs = [] \<or> hd cs = d" using hd_split_on [of d cs] by (simp add: split)
  show ?case
    using Cons.IH p by (auto simp: split contains_dd_Cons simp del: contains_str.simps(2))
qed

lemma empty_part:
  assumes "s \<noteq> []"
  shows "[] \<in> set (split_on d s) \<longleftrightarrow> hd s = d \<or> last s = d \<or> contains_str [d, d] s"
proof -
  have "[] \<in> set (split_on d s) \<longleftrightarrow> hd (split_on d s) = [] \<or> [] \<in> set (tl (split_on d s))"
    by (cases "split_on d s") auto
  then show ?thesis using assms by (simp add: hd_split_on empty_tail_part)
qed

section \<open>Property\<close>

lemma validate_username_eq_Inr:
  "validate_username debug n = Inr () \<longleftrightarrow>
     n \<noteq> [] \<and> length n \<le> 39 \<and> list_all (\<lambda>c. is_ascii_alphanumeric c \<or> c = CHR ''-'') n
     \<and> [] \<notin> set (split_on (CHR ''-'') n)
     \<and> (\<forall>d \<in> set WINDOWS_DEVICE_NAMES. \<not> eq_ignore_ascii_case d n)"
  using empty_part [of n "CHR ''-''"]
  by (auto simp: validate_username_def MAX_USERNAME_LEN_def list_ex_iff)

definition dashed_words :: "string \<Rightarrow> bool" where
  "dashed_words n \<longleftrightarrow>
     (\<exists>ws. ws \<noteq> [] \<and> (\<forall>w \<in> set ws. w \<noteq> [] \<and> list_all is_ascii_alphanumeric w) \<and> n = join ''-'' ws)"

lemma dashed_words_iff:
  "dashed_words n \<longleftrightarrow>
     n \<noteq> [] \<and> list_all (\<lambda>c. is_ascii_alphanumeric c \<or> c = CHR ''-'') n
     \<and> [] \<notin> set (split_on (CHR ''-'') n)"
proof
  have no_dash: "\<not> is_ascii_alphanumeric (CHR ''-'')"
    by (simp add: is_ascii_alphanumeric_def code_of_def)
  assume "dashed_words n"
  then obtain ws where ws: "ws \<noteq> []" "\<forall>w \<in> set ws. w \<noteq> [] \<and> list_all is_ascii_alphanumeric w"
    and n: "n = join ''-'' ws" by (auto simp: dashed_words_def)
  have "split_on (CHR ''-'') n = ws"
    unfolding n by (rule split_on_join) (use ws no_dash in \<open>auto simp: list_all_iff\<close>)
  moreover have "join sep ws' \<noteq> []" if "ws' \<noteq> []" "\<forall>w \<in> set ws'. w \<noteq> []" for sep ws'
    using that by (induction sep ws' rule: join.induct) auto
  moreover have "c \<in> set (join sep ws') \<Longrightarrow> c \<in> set sep \<or> (\<exists>w \<in> set ws'. c \<in> set w)" for c sep ws'
    by (induction sep ws' rule: join.induct) auto
  ultimately show "n \<noteq> [] \<and> list_all (\<lambda>c. is_ascii_alphanumeric c \<or> c = CHR ''-'') n
     \<and> [] \<notin> set (split_on (CHR ''-'') n)"
    using ws unfolding n list_all_iff by (metis empty_iff insert_iff list.set(1) list.set(2))
next
  assume n: "n \<noteq> [] \<and> list_all (\<lambda>c. is_ascii_alphanumeric c \<or> c = CHR ''-'') n
     \<and> [] \<notin> set (split_on (CHR ''-'') n)"
  have "\<forall>w \<in> set (split_on (CHR ''-'') n). w \<noteq> [] \<and> list_all is_ascii_alphanumeric w"
    using n split_on_parts [of _ "CHR ''-''" n] by (fastforce simp: list_all_iff)
  then show "dashed_words n"
    unfolding dashed_words_def
    by (intro exI [of _ "split_on (CHR ''-'') n"]) (simp add: join_split_on)
qed

lemma plain_components:
  assumes "validate_user_dir_name debug n = Inr ()"
  shows "path_join base n = base @ [Normal n]"
proof -
  have "n \<noteq> [] \<and> CHR ''/'' \<notin> set n \<and> n \<noteq> ''..'' \<and> n \<noteq> ''.''"
  proof (cases "n \<in> set RESERVED_USER_DIR_NAMES")
    case True
    then show ?thesis by (simp add: RESERVED_USER_DIR_NAMES_def)
  next
    case False
    with assms have "validate_username debug n = Inr ()" by (simp add: validate_user_dir_name_def)
    then show ?thesis
      by (auto simp: validate_username_eq_Inr list_all_iff is_ascii_alphanumeric_def code_of_def)
  qed
  then show ?thesis
    by (cases n) (auto simp: path_join_def added_components_def split_on_no_sep path_component_def)
qed

text \<open>C32: An account name is accepted exactly if it is at most 39 bytes of non-empty ASCII
  alphanumeric words joined by single dashes and no Windows device name in any case; an accepted
  directory name is that or the one reserved name, which no account can have; and joined to any
  directory an accepted name is one plain component below it, so the containment check of
  \<open>checked_user_dir\<close> passes for it.\<close>

theorem usernames_are_plain_components:
  assumes "validate_user_dir_name debug d = Inr ()"
  shows "(validate_username debug n = Inr () \<longleftrightarrow>
        dashed_words n \<and> length n \<le> 39
        \<and> (\<forall>w \<in> set WINDOWS_DEVICE_NAMES. map ascii_lower w \<noteq> map ascii_lower n))
    \<and> (d = ''_pending_new'' \<or> validate_username debug d = Inr ())
    \<and> validate_username debug ''_pending_new'' \<noteq> Inr ()
    \<and> path_join base d = base @ [Normal d]
    \<and> lexical_child debug base d = Inr (base @ [Normal d])"
proof (intro conjI)
  show "validate_username debug n = Inr () \<longleftrightarrow>
        dashed_words n \<and> length n \<le> 39
        \<and> (\<forall>w \<in> set WINDOWS_DEVICE_NAMES. map ascii_lower w \<noteq> map ascii_lower n)"
    by (auto simp: validate_username_eq_Inr dashed_words_iff eq_ignore_ascii_case_def)
  show "d = ''_pending_new'' \<or> validate_username debug d = Inr ()"
    using assms by (auto simp: validate_user_dir_name_def RESERVED_USER_DIR_NAMES_def split: if_splits)
  show "validate_username debug ''_pending_new'' \<noteq> Inr ()"
    by (simp add: validate_username_eq_Inr is_ascii_alphanumeric_def code_of_def)
  show join: "path_join base d = base @ [Normal d]" by (rule plain_components [OF assms])
  show "lexical_child debug base d = Inr (base @ [Normal d])"
    by (simp add: lexical_child_def join path_strip_prefix_def)
qed

theorem usernames_are_plain_components_witness:
  "validate_username (\<lambda>s. s) ''a-1'' = Inr () \<and> path_join [RootDir] ''_pending_new'' = [RootDir, Normal ''_pending_new'']"
proof -
  have h: "validate_user_dir_name (\<lambda>s. s) ''_pending_new'' = Inr ()"
    by (simp add: validate_user_dir_name_def RESERVED_USER_DIR_NAMES_def)
  have "dashed_words ''a-1''"
    unfolding dashed_words_def
    by (intro exI [of _ "[''a'', ''1'']"]) (simp add: is_ascii_alphanumeric_def code_of_def)
  moreover have "\<forall>w \<in> set WINDOWS_DEVICE_NAMES. map ascii_lower w \<noteq> map ascii_lower ''a-1''"
    by (simp add: WINDOWS_DEVICE_NAMES_def ascii_lower_def code_of_def char_of_eq_iff)
  ultimately show ?thesis
    using usernames_are_plain_components [OF h, of "''a-1''" "[RootDir]"] by simp
qed

end
