(* ===== verification/File_System.thy ===== *)
theory File_System
  imports Username
begin

text \<open>
  The file system the storage code works on: \<open>std::fs\<close> and \<open>tokio::fs\<close> on absolute paths of a
  tree without links. A \<open>tree\<close> lists the nodes below the root directory in the order \<open>read_dir\<close>
  meets them. What can go wrong besides the state of the tree is the parameter \<open>faults\<close>: an
  operation that fails reports a text, a failed write may leave a part of the file, and
  \<open>read_dir\<close> fails when it is opened (\<open>True\<close>) or at an entry. A path with a trailing slash is the path without it.
\<close>

datatype node = Dir | File bytes

type_synonym tree = "(string list \<times> node) list"

datatype io_error = IoNotFound | IoOther string

record faults =
  ft_create_dir :: "string list \<Rightarrow> string option"
  ft_write :: "string list \<Rightarrow> bytes \<Rightarrow> (string \<times> bytes option) option"
  ft_read :: "string list \<Rightarrow> string option"
  ft_remove :: "string list \<Rightarrow> string option"
  ft_stat :: "string list \<Rightarrow> bool"
  ft_read_dir :: "string list \<Rightarrow> (bool \<times> string) option"
  ft_rename :: "string list \<Rightarrow> string list \<Rightarrow> string option"
  ft_chmod :: "string list \<Rightarrow> string option"
  ft_not_found :: string
  ft_not_a_directory :: string
  ft_is_a_directory :: string

definition io_text :: "faults \<Rightarrow> io_error \<Rightarrow> string" where
  "io_text F e = (case e of IoNotFound \<Rightarrow> ft_not_found F | IoOther m \<Rightarrow> m)"

definition node_at :: "tree \<Rightarrow> string list \<Rightarrow> node option" where
  "node_at t p = (if p = [] then Some Dir else map_of t p)"

text \<open>Replaces a node in place or adds it at the end; the content of a write.\<close>

fun put_node :: "string list \<Rightarrow> node \<Rightarrow> tree \<Rightarrow> tree" where
  "put_node p x [] = [(p, x)]"
| "put_node p x ((q, y) # t) = (if q = p then (q, x) # t else (q, y) # put_node p x t)"

definition remove_node :: "string list \<Rightarrow> tree \<Rightarrow> tree" where
  "remove_node p t = filter (\<lambda>(q, _). q \<noteq> p) t"

text \<open>The names in a directory, in the order of the tree.\<close>

definition children :: "tree \<Rightarrow> string list \<Rightarrow> string list" where
  "children t p = map (\<lambda>(q, _). last q) (filter (\<lambda>(q, _). q \<noteq> [] \<and> butlast q = p) t)"

fun descend :: "string list \<Rightarrow> component \<Rightarrow> string list" where
  "descend cur (Normal n) = cur @ [n]"
| "descend cur ParentDir = butlast cur"
| "descend cur RootDir = []"
| "descend cur CurDir = cur"

text \<open>Resolving a path: every component but the last must be a directory.\<close>

fun walk :: "faults \<Rightarrow> tree \<Rightarrow> string list \<Rightarrow> component list \<Rightarrow> io_error + string list" where
  "walk F t cur [] = Inr cur"
| "walk F t cur (c # cs) =
     (case node_at t cur of
        None \<Rightarrow> Inl IoNotFound
      | Some (File _) \<Rightarrow> Inl (IoOther (ft_not_a_directory F))
      | Some Dir \<Rightarrow> walk F t (descend cur c) cs)"

fun create_dir_all :: "faults \<Rightarrow> tree \<Rightarrow> string list \<Rightarrow> component list \<Rightarrow> (io_error + unit) \<times> tree" where
  "create_dir_all F t cur [] = (Inr (), t)"
| "create_dir_all F t cur (c # cs) =
     (let p = descend cur c
      in case node_at t p of
           Some Dir \<Rightarrow> create_dir_all F t p cs
         | Some (File _) \<Rightarrow> (Inl (IoOther (ft_not_a_directory F)), t)
         | None \<Rightarrow> (case ft_create_dir F p of
               Some e \<Rightarrow> (Inl (IoOther e), t)
             | None \<Rightarrow> create_dir_all F (put_node p Dir t) p cs))"

definition write_file :: "faults \<Rightarrow> tree \<Rightarrow> component list \<Rightarrow> bytes \<Rightarrow> (io_error + unit) \<times> tree" where
  "write_file F t path dat =
     (case walk F t [] path of
        Inl e \<Rightarrow> (Inl e, t)
      | Inr p \<Rightarrow>
          (if node_at t p = Some Dir then (Inl (IoOther (ft_is_a_directory F)), t)
           else if p \<noteq> [] \<and> node_at t (butlast p) \<noteq> Some Dir then (Inl IoNotFound, t)
           else case ft_write F p dat of
             Some (e, None) \<Rightarrow> (Inl (IoOther e), t)
           | Some (e, Some partial) \<Rightarrow> (Inl (IoOther e), put_node p (File partial) t)
           | None \<Rightarrow> (Inr (), put_node p (File dat) t)))"

definition read_file :: "faults \<Rightarrow> tree \<Rightarrow> component list \<Rightarrow> io_error + bytes" where
  "read_file F t path =
     try_bind (walk F t [] path) (\<lambda>p.
       case node_at t p of
         None \<Rightarrow> Inl IoNotFound
       | Some Dir \<Rightarrow> Inl (IoOther (ft_is_a_directory F))
       | Some (File d) \<Rightarrow> (case ft_read F p of Some e \<Rightarrow> Inl (IoOther e) | None \<Rightarrow> Inr d))"

definition remove_file :: "faults \<Rightarrow> tree \<Rightarrow> component list \<Rightarrow> (io_error + unit) \<times> tree" where
  "remove_file F t path =
     (case walk F t [] path of
        Inl e \<Rightarrow> (Inl e, t)
      | Inr p \<Rightarrow> (case node_at t p of
            None \<Rightarrow> (Inl IoNotFound, t)
          | Some Dir \<Rightarrow> (Inl (IoOther (ft_is_a_directory F)), t)
          | Some (File _) \<Rightarrow> (case ft_remove F p of
                Some e \<Rightarrow> (Inl (IoOther e), t)
              | None \<Rightarrow> (Inr (), remove_node p t))))"

text \<open>\<open>fs::rename\<close> of a file, which replaces a file at the target in one step; and \<open>metadata\<close> with
  \<open>set_permissions\<close>.\<close>

definition rename_node :: "faults \<Rightarrow> tree \<Rightarrow> string list \<Rightarrow> string list \<Rightarrow> (io_error + unit) \<times> tree" where
  "rename_node F t p q =
     (case node_at t p of
        None \<Rightarrow> (Inl IoNotFound, t)
      | Some Dir \<Rightarrow> (Inl (IoOther (ft_is_a_directory F)), t)
      | Some (File d) \<Rightarrow>
          (if node_at t q = Some Dir then (Inl (IoOther (ft_is_a_directory F)), t)
           else if q \<noteq> [] \<and> node_at t (butlast q) \<noteq> Some Dir then (Inl IoNotFound, t)
           else case ft_rename F p q of
             Some e \<Rightarrow> (Inl (IoOther e), t)
           | None \<Rightarrow> (Inr (), put_node q (File d) (remove_node p t))))"

definition rename_file :: "faults \<Rightarrow> tree \<Rightarrow> component list \<Rightarrow> component list \<Rightarrow> (io_error + unit) \<times> tree" where
  "rename_file F t source target =
     (case walk F t [] source of
        Inl e \<Rightarrow> (Inl e, t)
      | Inr p \<Rightarrow> (case walk F t [] target of
            Inl e \<Rightarrow> (Inl e, t)
          | Inr q \<Rightarrow> rename_node F t p q))"

definition set_mode :: "faults \<Rightarrow> tree \<Rightarrow> component list \<Rightarrow> io_error + unit" where
  "set_mode F t path =
     try_bind (walk F t [] path) (\<lambda>p.
       case node_at t p of
         None \<Rightarrow> Inl IoNotFound
       | Some _ \<Rightarrow> (case ft_chmod F p of Some e \<Rightarrow> Inl (IoOther e) | None \<Rightarrow> Inr ()))"

text \<open>\<open>Path::exists\<close> and \<open>is_dir\<close> answer false when the path cannot be examined.\<close>

definition stat :: "faults \<Rightarrow> tree \<Rightarrow> component list \<Rightarrow> node option" where
  "stat F t path =
     (case walk F t [] path of
        Inl _ \<Rightarrow> None
      | Inr p \<Rightarrow> if ft_stat F p then None else node_at t p)"

text \<open>\<open>Path::parent\<close> and \<open>Path::file_name\<close>.\<close>

definition path_parent :: "component list \<Rightarrow> component list option" where
  "path_parent cs = (if cs = [] \<or> last cs = RootDir then None else Some (butlast cs))"

definition path_file_name :: "component list \<Rightarrow> string option" where
  "path_file_name cs = (if cs = [] then None else case last cs of Normal n \<Rightarrow> Some n | _ \<Rightarrow> None)"

section \<open>Trees\<close>

text \<open>The parent of every node is a directory, and no node is listed twice.\<close>

definition tree_ok :: "tree \<Rightarrow> bool" where
  "tree_ok t \<longleftrightarrow> distinct (map fst t)
     \<and> (\<forall>p n. node_at t (p @ [n]) \<noteq> None \<longrightarrow> node_at t p = Some Dir)"

lemma node_at_Nil [simp]: "node_at t [] = Some Dir"
  by (simp add: node_at_def)

lemma map_of_put_node: "map_of (put_node p x t) q = (if q = p then Some x else map_of t q)"
  by (induction t) auto

lemma node_at_put [simp]: "p \<noteq> [] \<Longrightarrow> node_at (put_node p x t) q = (if q = p then Some x else node_at t q)"
  by (simp add: node_at_def map_of_put_node)

lemma fst_put_node: "map fst (put_node p x t) = (if p \<in> fst ` set t then map fst t else map fst t @ [p])"
  by (induction t) force+

lemma map_of_remove_node: "map_of (remove_node p t) q = (if q = p then None else map_of t q)"
  unfolding remove_node_def by (induction t) auto

lemma node_at_remove [simp]:
  "p \<noteq> [] \<Longrightarrow> node_at (remove_node p t) q = (if q = p then None else node_at t q)"
  by (simp add: node_at_def map_of_remove_node)

lemma tree_ok_ancestor: "tree_ok t \<Longrightarrow> node_at t (p @ q) \<noteq> None \<Longrightarrow> q \<noteq> [] \<Longrightarrow> node_at t p = Some Dir"
proof (induction q rule: rev_induct)
  case (snoc n q)
  then have "node_at t (p @ q) = Some Dir"
    using snoc.prems by (auto simp: tree_ok_def simp flip: append_assoc)
  with snoc show ?case by (cases q) auto
qed simp

lemma tree_ok_put:
  assumes "tree_ok t" and "p \<noteq> []" and "node_at t (butlast p) = Some Dir"
    and "x = Dir \<or> node_at t p \<noteq> Some Dir"
  shows "tree_ok (put_node p x t)"
proof -
  have "node_at (put_node p x t) q = Some Dir" if "node_at (put_node p x t) (q @ [n]) \<noteq> None" for q n
  proof (cases "q @ [n] = p")
    case True
    with assms(2,3) show ?thesis by (cases "q = p") auto
  next
    case False
    with that assms(1,2) have "node_at t q = Some Dir" by (auto simp: tree_ok_def)
    with assms(2,4) show ?thesis by auto
  qed
  moreover have "distinct (map fst (put_node p x t))"
    using assms(1) by (auto simp: tree_ok_def fst_put_node)
  ultimately show ?thesis by (simp add: tree_ok_def)
qed

lemma tree_ok_remove:
  assumes "tree_ok t" and "node_at t p = Some (File d)"
  shows "tree_ok (remove_node p t)"
proof -
  have p: "p \<noteq> []" using assms(2) by auto
  have "node_at t (p @ [n]) = None" for n
    using assms by (auto simp: tree_ok_def dest: spec [of _ p])
  with p assms(1) have "node_at (remove_node p t) q = Some Dir"
    if "node_at (remove_node p t) (q @ [n]) \<noteq> None" for q n
    using that by (auto simp: tree_ok_def split: if_splits)
  moreover have "distinct (map fst (remove_node p t))"
    using assms(1) by (auto simp: tree_ok_def remove_node_def distinct_map_filter)
  ultimately show ?thesis by (simp add: tree_ok_def)
qed

lemma walk_normal_eq: "walk F t cur (map Normal ns) = Inr p \<Longrightarrow> p = cur @ ns"
proof (induction ns arbitrary: cur)
  case (Cons n ns)
  then show ?case using Cons.IH [of "cur @ [n]"] by (simp split: option.splits node.splits)
qed simp

lemma walk_normal:
  assumes "tree_ok t" and "ns = [] \<or> node_at t (cur @ butlast ns) = Some Dir"
  shows "walk F t cur (map Normal ns) = Inr (cur @ ns)"
  using assms(2)
proof (induction ns arbitrary: cur)
  case Nil
  then show ?case by simp
next
  case (Cons n ns)
  have dir: "node_at t cur = Some Dir"
  proof (cases "butlast (n # ns) = []")
    case False
    with Cons.prems tree_ok_ancestor [OF assms(1), of cur "butlast (n # ns)"] show ?thesis by auto
  qed (use Cons.prems in auto)
  then show ?case using Cons.IH [of "cur @ [n]"] Cons.prems by (cases ns) auto
qed

lemma walk_abs:
  "tree_ok t \<Longrightarrow> ns = [] \<or> node_at t (butlast ns) = Some Dir \<Longrightarrow>
     walk F t [] (RootDir # map Normal ns) = Inr ns"
  using walk_normal [of t ns "[]" F] by simp

lemma walk_abs_eq: "walk F t [] (RootDir # map Normal ns) = Inr p \<Longrightarrow> p = ns"
  using walk_normal_eq [of F t "[]" ns p] by simp

text \<open>Creating directories adds directories along the path and nothing else.\<close>

lemma create_dir_all_normal:
  assumes "create_dir_all F t cur (map Normal ns) = (r, t')" and "tree_ok t" and "node_at t cur = Some Dir"
  shows "tree_ok t' \<and> (\<forall>q. node_at t q \<noteq> None \<longrightarrow> node_at t' q = node_at t q)
    \<and> (\<forall>q. node_at t q = None \<longrightarrow> node_at t' q = None \<or> node_at t' q = Some Dir)
    \<and> (r = Inr () \<longrightarrow> node_at t' (cur @ ns) = Some Dir)"
  using assms
proof (induction ns arbitrary: cur t)
  case Nil
  then show ?case by auto
next
  case (Cons n ns)
  let ?p = "cur @ [n]"
  consider (dir) "node_at t ?p = Some Dir" | (plain) d where "node_at t ?p = Some (File d)"
    | (none) "node_at t ?p = None" by (metis node.exhaust option.exhaust)
  then show ?case
  proof cases
    case dir
    with Cons.IH [of t ?p] Cons.prems show ?thesis by simp
  next
    case plain
    with Cons.prems show ?thesis by auto
  next
    case none
    show ?thesis
    proof (cases "ft_create_dir F ?p")
      case None
      have ok: "tree_ok (put_node ?p Dir t)" by (rule tree_ok_put) (use Cons.prems in simp_all)
      have "create_dir_all F (put_node ?p Dir t) ?p (map Normal ns) = (r, t')"
        using Cons.prems(1) none None by (simp add: Let_def)
      note ih = Cons.IH [OF this ok]
      have at: "node_at (put_node ?p Dir t) q = (if q = ?p then Some Dir else node_at t q)" for q
        by simp
      show ?thesis
        using ih none unfolding at by (auto split: if_splits) (metis option.distinct(1))+
    qed (use none Cons.prems in auto)
  qed
qed

lemma create_dir_all_longer:
  "create_dir_all F t cur (map Normal ns) = (r, t') \<Longrightarrow> length (cur @ ns) < length q \<Longrightarrow>
     node_at t' q = node_at t q"
  by (induction ns arbitrary: t cur) (fastforce simp: Let_def split: option.splits node.splits)+

text \<open>Reading and removing the file at an absolute path.\<close>

lemma read_file_abs:
  "tree_ok t \<Longrightarrow> read_file F t (RootDir # map Normal ns) = Inr d \<longleftrightarrow>
     node_at t ns = Some (File d) \<and> ft_read F ns = None"
proof -
  assume ok: "tree_ok t"
  show ?thesis
  proof (cases "walk F t [] (RootDir # map Normal ns)")
    case (Inl e)
    have "node_at t ns \<noteq> Some (File d)"
    proof
      assume at: "node_at t ns = Some (File d)"
      then have "ns = [] \<or> node_at t (butlast ns) = Some Dir"
        using ok by (cases ns rule: rev_cases) (auto simp: tree_ok_def)
      from walk_abs [OF ok this, of F] Inl show False by simp
    qed
    with Inl show ?thesis by (simp add: read_file_def del: walk.simps)
  next
    case (Inr p)
    moreover from Inr have "p = ns" by (rule walk_abs_eq)
    ultimately show ?thesis
      by (auto simp: read_file_def simp del: walk.simps split: option.splits node.splits)
  qed
qed

lemma remove_file_abs:
  assumes "remove_file F t (RootDir # map Normal ns) = (r, t')"
  shows "(\<exists>e. r = Inl e) \<and> t' = t
    \<or> r = Inr () \<and> t' = remove_node ns t \<and> (\<exists>d. node_at t ns = Some (File d))"
proof (cases "walk F t [] (RootDir # map Normal ns)")
  case (Inl e)
  with assms show ?thesis by (auto simp: remove_file_def simp del: walk.simps)
next
  case (Inr p)
  moreover from Inr have "p = ns" by (rule walk_abs_eq)
  ultimately show ?thesis using assms
    by (auto simp: remove_file_def simp del: walk.simps split: option.splits node.splits)
qed

lemma write_file_abs:
  assumes "write_file F t (RootDir # map Normal ns) d = (r, t')" and "tree_ok t"
  shows "tree_ok t' \<and> (\<forall>q. q \<noteq> ns \<longrightarrow> node_at t' q = node_at t q)
    \<and> (r = Inr () \<longrightarrow> node_at t' ns = Some (File d))
    \<and> (t' = t \<or> node_at t ns \<noteq> Some Dir \<and> (\<exists>x. node_at t' ns = Some (File x)))"
proof (cases "walk F t [] (RootDir # map Normal ns)")
  case (Inl e)
  with assms show ?thesis by (auto simp: write_file_def simp del: walk.simps)
next
  case (Inr p)
  then have [simp]: "p = ns" by (rule walk_abs_eq)
  consider (none) "t' = t" "r \<noteq> Inr ()"
    | (some) x where "t' = put_node ns (File x) t" "r = Inr () \<longrightarrow> x = d"
        "node_at t ns \<noteq> Some Dir" "node_at t (butlast ns) = Some Dir"
    using assms(1) Inr
    by (auto simp: write_file_def simp del: walk.simps split: if_splits option.splits)
  then show ?thesis
  proof cases
    case some
    then have "ns \<noteq> []" by auto
    with some assms(2) show ?thesis by (auto intro!: tree_ok_put)
  qed (use assms(2) in auto)
qed

lemma rename_node_cases:
  assumes "rename_node F t p q = (r, t')"
  shows "(\<exists>e. r = Inl e) \<and> t' = t
    \<or> (\<exists>d. node_at t p = Some (File d) \<and> node_at t q \<noteq> Some Dir \<and> r = Inr ()
        \<and> node_at t (butlast q) = Some Dir \<and> t' = put_node q (File d) (remove_node p t))"
proof (cases "node_at t p")
  case None
  with assms show ?thesis by (simp add: rename_node_def) blast
next
  case (Some x)
  show ?thesis
  proof (cases x)
    case Dir
    with assms Some show ?thesis by (simp add: rename_node_def) blast
  next
    case (File d)
    show ?thesis
    proof (cases "node_at t q = Some Dir \<or> node_at t (butlast q) \<noteq> Some Dir")
      case True
      then have "(\<exists>e. r = Inl e) \<and> t' = t"
        using assms Some File
        by (cases "node_at t q = Some Dir"; cases "q = []") (auto simp: rename_node_def)
      then show ?thesis ..
    next
      case False
      then show ?thesis using assms Some File
        by (cases "ft_rename F p q") (simp_all add: rename_node_def, blast+)
    qed
  qed
qed

lemma rename_file_abs:
  assumes "rename_file F t (RootDir # map Normal p) (RootDir # map Normal q) = (r, t')"
    and "tree_ok t" and "p \<noteq> q"
  shows "(\<exists>e. r = Inl e) \<and> t' = t
    \<or> r = Inr () \<and> tree_ok t' \<and> (\<exists>d. node_at t p = Some (File d) \<and> node_at t' q = Some (File d))
      \<and> node_at t' p = None \<and> (\<forall>x. x \<noteq> p \<and> x \<noteq> q \<longrightarrow> node_at t' x = node_at t x)"
proof -
  consider "\<exists>e. r = Inl e" "t' = t" | "rename_node F t p q = (r, t')"
    using assms(1) walk_abs_eq [of F t p] walk_abs_eq [of F t q]
    by (cases "walk F t [] (RootDir # map Normal p)"; cases "walk F t [] (RootDir # map Normal q)")
       (auto simp: rename_file_def simp del: walk.simps)
  then show ?thesis
  proof cases
    case 2
    from rename_node_cases [OF this] show ?thesis
    proof
      assume "\<exists>d. node_at t p = Some (File d) \<and> node_at t q \<noteq> Some Dir \<and> r = Inr ()
        \<and> node_at t (butlast q) = Some Dir \<and> t' = put_node q (File d) (remove_node p t)"
      then obtain d where moved: "node_at t p = Some (File d)" "node_at t q \<noteq> Some Dir" "r = Inr ()"
        "node_at t (butlast q) = Some Dir" "t' = put_node q (File d) (remove_node p t)" by blast
      have p: "p \<noteq> []" and q: "q \<noteq> []" using moved by auto
      have "butlast q \<noteq> p" using moved by auto
      then have "tree_ok t'"
        unfolding moved(5) using moved p q
        by (intro tree_ok_put tree_ok_remove [OF assms(2) moved(1)]) simp_all
      with moved p q assms(3) show ?thesis by simp
    qed simp
  qed simp
qed

lemma create_dir_all_abs:
  assumes "create_dir_all F t [] (RootDir # map Normal ns) = (r, t')" and "tree_ok t"
  shows "tree_ok t' \<and> (\<forall>q. node_at t q \<noteq> None \<longrightarrow> node_at t' q = node_at t q)
    \<and> (\<forall>q. node_at t q = None \<longrightarrow> node_at t' q = None \<or> node_at t' q = Some Dir)
    \<and> (\<forall>q. length ns < length q \<longrightarrow> node_at t' q = node_at t q)
    \<and> (r = Inr () \<longrightarrow> node_at t' ns = Some Dir)"
proof -
  have "create_dir_all F t [] (map Normal ns) = (r, t')" using assms(1) by simp
  from create_dir_all_normal [OF this assms(2)] create_dir_all_longer [OF this] show ?thesis by simp
qed

lemma create_dir_all_existing:
  assumes "tree_ok t" and "node_at t ns = Some Dir"
  shows "create_dir_all F t [] (RootDir # map Normal ns) = (Inr (), t)"
proof -
  have "create_dir_all F t cur (map Normal ms) = (Inr (), t)" if "node_at t (cur @ ms) = Some Dir" for cur ms
    using that
  proof (induction ms arbitrary: cur)
    case (Cons m ms)
    have "node_at t (cur @ [m]) = Some Dir"
      using tree_ok_ancestor [OF assms(1), of "cur @ [m]" ms] Cons.prems by (cases "ms = []") auto
    with Cons show ?case by simp
  qed simp
  from this [of "[]" ns] assms(2) show ?thesis by simp
qed

lemma stat_abs:
  assumes "tree_ok t"
  shows "stat F t (RootDir # map Normal ns) = (if ft_stat F ns then None else node_at t ns)"
proof (cases "walk F t [] (RootDir # map Normal ns)")
  case (Inl e)
  have "node_at t ns = None"
  proof (rule ccontr)
    assume "node_at t ns \<noteq> None"
    then have "ns = [] \<or> node_at t (butlast ns) = Some Dir"
      using assms by (cases ns rule: rev_cases) (auto simp: tree_ok_def)
    from walk_abs [OF assms this, of F] Inl show False by simp
  qed
  with Inl show ?thesis by (simp add: stat_def del: walk.simps)
next
  case (Inr p)
  with walk_abs_eq [OF Inr] show ?thesis by (simp add: stat_def del: walk.simps)
qed

text \<open>A directory of plain names below the root.\<close>

definition key_dir :: "string list \<Rightarrow> component list" where
  "key_dir ds = RootDir # map Normal ds"

lemma key_dir_file: "key_dir ds @ [Normal n] = RootDir # map Normal (ds @ [n])"
  by (simp add: key_dir_def)

text \<open>The files of two trees agree.\<close>

definition same_files :: "tree \<Rightarrow> tree \<Rightarrow> bool" where
  "same_files t t' \<longleftrightarrow> (\<forall>q d. node_at t' q = Some (File d) \<longleftrightarrow> node_at t q = Some (File d))"

text \<open>A file system whose files can be read and examined.\<close>

definition readable :: "faults \<Rightarrow> bool" where
  "readable F \<longleftrightarrow> (\<forall>p. ft_read F p = None \<and> \<not> ft_stat F p)"

text \<open>A file system that never fails, for the witnesses.\<close>

definition calm :: faults where
  "calm = \<lparr>ft_create_dir = \<lambda>_. None, ft_write = \<lambda>_ _. None, ft_read = \<lambda>_. None, ft_remove = \<lambda>_. None,
     ft_stat = \<lambda>_. False, ft_read_dir = \<lambda>_. None, ft_rename = \<lambda>_ _. None,
     ft_chmod = \<lambda>_. None, ft_not_found = ''not found'',
     ft_not_a_directory = ''not a directory'', ft_is_a_directory = ''is a directory''\<rparr>"

end
