(* ===== verification/File_Storage.thy ===== *)
theory File_Storage
  imports Storage File_System
begin

text \<open>
  \<open>vault-core/src/storage/file.rs\<close>: the storage backend on the local file system, over the trees
  of \<open>File_System\<close>, and its refinement of the map of keys.

  A \<open>PathBuf\<close> is its components and whether it ends in a slash; the operating system reads a
  trailing slash as a trailing \<open>.\<close>. Paths are compared by components, so \<open>a//b\<close> is the path
  \<open>a/b\<close>. \<open>{:?}\<close> of a path is the parameter \<open>debug\<close>.
\<close>

section \<open>Definitions\<close>

type_synonym path_buf = "component list \<times> bool"

definition os_path :: "path_buf \<Rightarrow> component list" where
  "os_path p = fst p @ (if snd p then [CurDir] else [])"

fun component_text :: "component \<Rightarrow> string" where
  "component_text RootDir = ''/''"
| "component_text CurDir = ''.''"
| "component_text ParentDir = ''..''"
| "component_text (Normal n) = n"

definition full_path :: "path_buf \<Rightarrow> string \<Rightarrow> path_buf" where
  "full_path root path = (path_join (fst root) path, path = [] \<or> last path = CHR ''/'')"

definition file_storage_new ::
    "(path_buf \<Rightarrow> string) \<Rightarrow> faults \<Rightarrow> path_buf \<Rightarrow> tree \<Rightarrow> path_buf VaultResult \<times> tree" where
  "file_storage_new debug F root t =
     (case create_dir_all F t [] (os_path root) of
        (Inl e, t1) \<Rightarrow> (Inl (Storage (CreateStorageDirFailed (debug root) (io_text F e))), t1)
      | (Inr _, t1) \<Rightarrow> (Inr root, t1))"

definition file_upload ::
    "(path_buf \<Rightarrow> string) \<Rightarrow> faults \<Rightarrow> path_buf \<Rightarrow> string \<Rightarrow> bytes \<Rightarrow> tree \<Rightarrow> unit VaultResult \<times> tree" where
  "file_upload debug F root path dat t =
     (let full = full_path root path;
          made = (case path_parent (fst full) of
              None \<Rightarrow> (Inr (), t)
            | Some parent \<Rightarrow> (case create_dir_all F t [] parent of
                  (Inl e, t1) \<Rightarrow> (Inl (Storage (CreateDirFailed (debug (parent, False)) (io_text F e))), t1)
                | (Inr _, t1) \<Rightarrow> (Inr (), t1)))
      in case made of
           (Inl e, t1) \<Rightarrow> (Inl e, t1)
         | (Inr _, t1) \<Rightarrow> (case write_file F t1 (os_path full) dat of
               (Inl e, t2) \<Rightarrow> (Inl (Storage (FileWriteFailed (debug full) (io_text F e))), t2)
             | (Inr _, t2) \<Rightarrow> (Inr (), t2)))"

definition file_download ::
    "(path_buf \<Rightarrow> string) \<Rightarrow> faults \<Rightarrow> path_buf \<Rightarrow> string \<Rightarrow> tree \<Rightarrow> bytes VaultResult" where
  "file_download debug F root path t =
     (let full = full_path root path
      in map_err (\<lambda>e. if e = IoNotFound then Storage (FileNotFound (debug full))
           else Storage (FileReadFailed (debug full) (io_text F e))) (read_file F t (os_path full)))"

definition file_exists :: "faults \<Rightarrow> path_buf \<Rightarrow> string \<Rightarrow> tree \<Rightarrow> bool VaultResult" where
  "file_exists F root path t = Inr (stat F t (os_path (full_path root path)) \<noteq> None)"

text \<open>\<open>read_dir\<close> of a directory and its entries; an entry that fails ends the listing.\<close>

definition read_entries ::
    "(path_buf \<Rightarrow> string) \<Rightarrow> faults \<Rightarrow> tree \<Rightarrow> path_buf \<Rightarrow> string list VaultResult" where
  "read_entries debug F t dir =
     (case walk F t [] (os_path dir) of
        Inl e \<Rightarrow> Inl (Storage (ReadDirFailed (debug dir) (io_text F e)))
      | Inr p \<Rightarrow> (case node_at t p of
            None \<Rightarrow> Inl (Storage (ReadDirFailed (debug dir) (ft_not_found F)))
          | Some (File _) \<Rightarrow> Inl (Storage (ReadDirFailed (debug dir) (ft_not_a_directory F)))
          | Some Dir \<Rightarrow> (case ft_read_dir F p of
                Some (True, e) \<Rightarrow> Inl (Storage (ReadDirFailed (debug dir) e))
              | Some (False, e) \<Rightarrow> Inl (Storage (ReadEntryFailed e))
              | None \<Rightarrow> Inr (children t p))))"

definition file_list ::
    "(path_buf \<Rightarrow> string) \<Rightarrow> faults \<Rightarrow> path_buf \<Rightarrow> string \<Rightarrow> tree \<Rightarrow> string list VaultResult" where
  "file_list debug F root prefix t =
     (let search_path = full_path root prefix;
          (dir_path, file_prefix) =
            (if stat F t (os_path search_path) = Some Dir then (search_path, [])
             else ((case path_parent (fst search_path) of None \<Rightarrow> root | Some p \<Rightarrow> (p, False)),
                   (case path_file_name (fst search_path) of None \<Rightarrow> [] | Some n \<Rightarrow> n)))
      in if stat F t (os_path dir_path) = None then Inr []
         else try_bind (read_entries debug F t dir_path) (\<lambda>names.
           Inr (concat (map (\<lambda>n.
             if file_prefix = [] \<or> starts_with file_prefix n
             then (case path_strip_prefix (fst root) (fst dir_path @ [Normal n]) of
                 Some relative \<Rightarrow>
                   [map (\<lambda>c. if c = CHR 0x5C then CHR ''/'' else c) (join ''/'' (map component_text relative))]
               | None \<Rightarrow> [])
             else []) names))))"

definition file_delete ::
    "(path_buf \<Rightarrow> string) \<Rightarrow> faults \<Rightarrow> path_buf \<Rightarrow> string \<Rightarrow> tree \<Rightarrow> unit VaultResult \<times> tree" where
  "file_delete debug F root path t =
     (let full = full_path root path
      in case remove_file F t (os_path full) of
           (Inl e, t1) \<Rightarrow>
             (Inl (if e = IoNotFound then Storage (FileNotFound (debug full))
                   else Storage (FileDeleteFailed (debug full) (io_text F e))), t1)
         | (Inr _, t1) \<Rightarrow> (Inr (), t1))"

definition file_backend_name :: string where
  "file_backend_name = ''file''"

section \<open>Keys that are paths\<close>

text \<open>A key whose parts are plain names is one path below the root.\<close>

definition plain_path :: "string \<Rightarrow> bool" where
  "plain_path p \<longleftrightarrow> list_all (\<lambda>n. n \<noteq> [] \<and> n \<noteq> ''.'' \<and> n \<noteq> ''..'') (split_on (CHR ''/'') p)"

definition dir_path :: "string list \<Rightarrow> path_buf" where
  "dir_path rs = (RootDir # map Normal rs, False)"

definition place :: "string list \<Rightarrow> string \<Rightarrow> string list" where
  "place rs p = rs @ split_on (CHR ''/'') p"

definition file_view :: "string list \<Rightarrow> tree \<Rightarrow> contents" where
  "file_view rs t p =
     (if plain_path p then (case node_at t (place rs p) of Some (File d) \<Rightarrow> Some d | _ \<Rightarrow> None) else None)"

lemma place_inject [simp]: "place rs p = place rs q \<longleftrightarrow> p = q"
  by (metis join_split_on place_def same_append_eq)

lemma place_nonempty [simp]: "place rs p \<noteq> []"
  by (simp add: place_def)

lemma plain_full_path:
  assumes "plain_path p"
  shows "full_path (dir_path rs) p = (RootDir # map Normal (place rs p), False)"
proof -
  let ?ps = "split_on (CHR ''/'') p"
  have ps: "\<forall>n \<in> set ?ps. n \<noteq> [] \<and> n \<noteq> ''.'' \<and> n \<noteq> ''..''"
    using assms by (simp add: plain_path_def list_all_iff)
  have p: "p \<noteq> []"
  proof
    assume "p = []"
    with ps show False by simp
  qed
  have "[] \<notin> set ?ps" using ps by blast
  then have ends: "hd p \<noteq> CHR ''/'' \<and> last p \<noteq> CHR ''/''"
    unfolding empty_part [OF p] by blast
  have "filter (\<lambda>n. n \<noteq> []) ?ps = ?ps" using ps by (simp add: filter_id_conv)
  moreover have "map path_component ?ps = map Normal ?ps"
    using ps by (simp add: path_component_def)
  moreover have "filter (\<lambda>c. c \<noteq> CurDir) (map Normal ?ps) = map Normal ?ps"
    by (simp add: filter_id_conv)
  ultimately have "added_components p = map Normal ?ps" by (simp add: added_components_def)
  with p ends show ?thesis by (simp add: full_path_def path_join_def dir_path_def place_def)
qed

lemma plain_os_path: "plain_path p \<Longrightarrow> os_path (full_path (dir_path rs) p) = RootDir # map Normal (place rs p)"
  by (simp add: plain_full_path os_path_def)

lemma plain_parent:
  "plain_path p \<Longrightarrow> path_parent (fst (full_path (dir_path rs) p)) = Some (RootDir # map Normal (butlast (place rs p)))"
  by (simp add: plain_full_path path_parent_def last_map map_butlast)

section \<open>The laws\<close>

lemma file_view_cong: "node_at t' (place rs p) = node_at t (place rs p) \<Longrightarrow> file_view rs t' p = file_view rs t p"
  by (simp add: file_view_def)

lemma create_dirs:
  assumes "create_dir_all F t [] (RootDir # map Normal ns) = (r, t')" and "tree_ok t"
  shows "tree_ok t' \<and> (\<forall>rs p. file_view rs t' p = file_view rs t p)
    \<and> (\<forall>q d. node_at t q = Some (File d) \<longrightarrow> node_at t' q = Some (File d))
    \<and> (r = Inr () \<longrightarrow> node_at t' ns = Some Dir)"
proof -
  have "create_dir_all F t [] (map Normal ns) = (r, t')" using assms(1) by simp
  note * = create_dir_all_normal [OF this assms(2)]
  have "file_view rs t' p = file_view rs t p" for rs p
  proof (cases "node_at t (place rs p)")
    case None
    with * have "node_at t' (place rs p) = None \<or> node_at t' (place rs p) = Some Dir" by simp
    with None show ?thesis by (auto simp: file_view_def)
  next
    case (Some x)
    with * have "node_at t' (place rs p) = Some x" by simp
    with Some show ?thesis by (simp add: file_view_cong)
  qed
  with * show ?thesis by auto
qed

lemma file_view_remove: "file_view rs (remove_node (place rs p) t) = (file_view rs t)(p := None)"
  by (auto simp: fun_eq_iff file_view_def)

lemma write_plain:
  assumes "write_file F t (RootDir # map Normal (place rs p)) d = (r, t')" and "tree_ok t" and "plain_path p"
  shows "tree_ok t' \<and> (\<forall>q. q \<noteq> p \<longrightarrow> file_view rs t' q = file_view rs t q)
    \<and> (r = Inr () \<longrightarrow> file_view rs t' p = Some d)"
proof -
  note * = write_file_abs [OF assms(1,2)]
  moreover have "file_view rs t' q = file_view rs t q" if "q \<noteq> p" for q
    using * that by (auto intro: file_view_cong)
  ultimately show ?thesis using assms(3) by (simp add: file_view_def)
qed

lemma file_upload_law:
  assumes "file_upload debug F (dir_path rs) p d t = (r, t')" and "tree_ok t" and "plain_path p"
  shows "tree_ok t' \<and> (\<forall>q. q \<noteq> p \<longrightarrow> file_view rs t' q = file_view rs t q)
    \<and> (r = Inr () \<longrightarrow> file_view rs t' p = Some d)"
proof -
  let ?parent = "RootDir # map Normal (butlast (place rs p))"
  obtain r1 t1 where made: "create_dir_all F t [] ?parent = (r1, t1)" by fastforce
  note dirs = create_dirs [OF made assms(2)]
  show ?thesis
  proof (cases r1)
    case (Inl e)
    with assms(1,3) made dirs show ?thesis
      by (auto simp: file_upload_def plain_parent simp del: create_dir_all.simps)
  next
    case (Inr u)
    obtain r2 t2 where w: "write_file F t1 (RootDir # map Normal (place rs p)) d = (r2, t2)" by fastforce
    have "t' = t2 \<and> (r = Inr () \<longrightarrow> r2 = Inr ())"
      using assms(1,3) made Inr w
      by (auto simp: file_upload_def plain_parent plain_os_path simp del: create_dir_all.simps split: sum.splits)
    with write_plain [OF w _ assms(3)] dirs show ?thesis by auto
  qed
qed

lemma file_download_eq:
  assumes "tree_ok t" and "plain_path p"
  shows "file_download debug F (dir_path rs) p t = Inr d \<longleftrightarrow>
     file_view rs t p = Some d \<and> ft_read F (place rs p) = None"
  unfolding file_download_def Let_def map_err_eq_Inr plain_os_path [OF assms(2)] read_file_abs [OF assms(1)]
  by (auto simp: file_view_def assms(2) split: option.splits node.splits)

lemma file_delete_law:
  assumes "file_delete debug F (dir_path rs) p t = (r, t')" and "tree_ok t" and "plain_path p"
  shows "tree_ok t' \<and> (\<forall>q. q \<noteq> p \<longrightarrow> file_view rs t' q = file_view rs t q)
    \<and> (r = Inr () \<longrightarrow> file_view rs t' p = None)"
proof -
  obtain r1 t1 where rm: "remove_file F t (RootDir # map Normal (place rs p)) = (r1, t1)" by fastforce
  have "t' = t1 \<and> (r = Inr () \<longleftrightarrow> r1 = Inr ())"
    using assms(1,3) rm by (auto simp: file_delete_def Let_def plain_os_path split: sum.splits)
  with remove_file_abs [OF rm] show ?thesis
    using assms(2) tree_ok_remove by (auto simp: file_view_remove)
qed

interpretation fs: storage_backend tree_ok "file_view rs" plain_path
  "file_upload debug F (dir_path rs)" "\<lambda>p t. (file_download debug F (dir_path rs) p t, t)"
  "file_delete debug F (dir_path rs)" for debug F rs
proof (unfold_locales, goal_cases)
  case (1 s p d r s')
  then show ?case by (blast dest: file_upload_law)
next
  case (2 s p got s')
  then show ?case by (auto simp: file_download_eq)
next
  case (3 s p r s')
  then show ?case by (blast dest: file_delete_law)
qed

section \<open>Success\<close>

text \<open>No operation fails of itself.\<close>

definition quiet :: "faults \<Rightarrow> bool" where
  "quiet F \<longleftrightarrow> (\<forall>p. ft_create_dir F p = None \<and> (\<forall>d. ft_write F p d = None) \<and> ft_read F p = None)"

text \<open>A stored file lies where the path needs a directory, or a directory where it needs the file.\<close>

definition blocked :: "tree \<Rightarrow> string list \<Rightarrow> bool" where
  "blocked t p \<longleftrightarrow> node_at t p = Some Dir \<or> (\<exists>q d. node_at t q = Some (File d) \<and> (\<exists>z. p = q @ z \<and> z \<noteq> []))"

lemma create_dirs_succeed:
  assumes "quiet F" and "\<forall>q d. node_at t q = Some (File d) \<longrightarrow> (\<forall>z. cur @ ns \<noteq> q @ z)"
  shows "\<exists>t'. create_dir_all F t cur (map Normal ns) = (Inr (), t')"
  using assms(2)
proof (induction ns arbitrary: cur t)
  case (Cons n ns)
  have nofile: "node_at t (cur @ [n]) \<noteq> Some (File d)" for d
    using Cons.prems by (metis append.assoc append_Cons append_Nil)
  show ?case
  proof (cases "node_at t (cur @ [n])")
    case None
    have "\<forall>q d. node_at (put_node (cur @ [n]) Dir t) q = Some (File d) \<longrightarrow> (\<forall>z. (cur @ [n]) @ ns \<noteq> q @ z)"
      using Cons.prems by (auto simp: node_at_put)
    from Cons.IH [OF this] None assms(1) show ?thesis by (simp add: quiet_def Let_def)
  next
    case (Some x)
    with nofile have "x = Dir" by (cases x) auto
    with Some Cons.IH [of t "cur @ [n]"] Cons.prems show ?thesis by simp
  qed
qed simp

lemma file_upload_succeeds:
  assumes "tree_ok t" and "plain_path p" and "quiet F" and "\<not> blocked t (place rs p)"
  shows "fst (file_upload debug F (dir_path rs) p d t) = Inr ()"
proof -
  let ?ns = "place rs p"
  have "cur \<noteq> q @ z" if "node_at t q = Some (File e)" "cur = butlast ?ns" for q e z cur
  proof
    assume "cur = q @ z"
    then have "?ns = q @ (z @ [last ?ns])"
      using that(2) by (metis append.assoc append_butlast_last_id place_nonempty)
    with assms(4) that(1) show False by (auto simp: blocked_def)
  qed
  with create_dirs_succeed [OF assms(3), of t "[]" "butlast ?ns"] obtain t1 where
    "create_dir_all F t [] (map Normal (butlast ?ns)) = (Inr (), t1)" by auto
  then have made: "create_dir_all F t [] (RootDir # map Normal (butlast ?ns)) = (Inr (), t1)" by simp
  from create_dir_all_normal [OF \<open>create_dir_all F t [] (map Normal _) = _\<close> assms(1)]
  have t1: "tree_ok t1" "node_at t1 (butlast ?ns) = Some Dir" by simp_all
  have free: "node_at t1 ?ns \<noteq> Some Dir"
    using create_dir_all_longer [OF \<open>create_dir_all F t [] (map Normal _) = _\<close>, of ?ns] assms(4)
    by (simp add: blocked_def)
  show ?thesis
    using assms(2,3) made walk_abs [OF t1(1), of ?ns F] t1(2) free
    by (simp add: file_upload_def plain_parent plain_os_path write_file_def quiet_def
        del: create_dir_all.simps walk.simps)
qed

text \<open>C11: On any tree, with any failures, a sequence of uploads, downloads and deletions of plain
  paths is a run of a map from keys to contents: what succeeds has its effect on its own key, what
  fails leaves any content there (a part of the file, say) but no other key changes, and the tree
  stays one. When the file system does not fail, a download afterwards returns exactly the content
  of the map, and an upload succeeds unless a file stands where a directory is needed or a directory
  where the file is.\<close>

theorem file_storage_refines_map:
  assumes "run_storage (file_upload debug F (dir_path rs))
      (\<lambda>p t. (file_download debug F (dir_path rs) p t, t)) (file_delete debug F (dir_path rs)) ops t = (out, t')"
    and "tree_ok t" and "\<forall>op \<in> set ops. plain_path (key_of op)"
  shows "tree_ok t' \<and> storage_trace (file_view rs t) ops out (file_view rs t')
    \<and> (plain_path p \<and> quiet F \<longrightarrow>
        (file_download debug F (dir_path rs) p t' = Inr d \<longleftrightarrow> file_view rs t' p = Some d)
        \<and> (\<not> blocked t' (place rs p) \<longrightarrow> fst (file_upload debug F (dir_path rs) p d t') = Inr ()))"
proof -
  from fs.refines_map [OF assms]
  have *: "tree_ok t'" "storage_trace (file_view rs t) ops out (file_view rs t')" by auto
  then show ?thesis using file_download_eq [OF *(1)] file_upload_succeeds [OF *(1)]
    by (auto simp: quiet_def)
qed

theorem file_storage_refines_map_witness:
  "\<exists>t'. run_storage (file_upload (\<lambda>_. []) calm (dir_path [''r'']))
      (\<lambda>p t. (file_download (\<lambda>_. []) calm (dir_path [''r'']) p t, t))
      (file_delete (\<lambda>_. []) calm (dir_path [''r''])) [OpUpload ''c/1'' [7], OpDownload ''c/1''] []
      = ([Done (Inr ()), Got (Inr [7])], t')
    \<and> storage_trace (\<lambda>_. None) [OpUpload ''c/1'' [7], OpDownload ''c/1''] [Done (Inr ()), Got (Inr [7])]
        (file_view [''r''] t')
    \<and> file_download (\<lambda>_. []) calm (dir_path [''r'']) ''c/1'' t' = Inr [7]"
proof -
  let ?t = "[([''r''], Dir), ([''r'', ''c''], Dir), ([''r'', ''c'', ''1''], File [7])]"
  have plain: "plain_path ''c/1''" by (simp add: plain_path_def)
  have run: "run_storage (file_upload (\<lambda>_. []) calm (dir_path [''r'']))
      (\<lambda>p t. (file_download (\<lambda>_. []) calm (dir_path [''r'']) p t, t))
      (file_delete (\<lambda>_. []) calm (dir_path [''r''])) [OpUpload ''c/1'' [7], OpDownload ''c/1''] []
      = ([Done (Inr ()), Got (Inr [7])], ?t)"
    by (simp add: file_upload_def file_download_def plain_parent [OF plain] plain_os_path [OF plain]
        place_def Let_def calm_def write_file_def read_file_def node_at_def)
  have ok: "tree_ok []" by (simp add: tree_ok_def node_at_def)
  have empty: "file_view [''r''] [] = (\<lambda>_. None)" by (simp add: fun_eq_iff file_view_def node_at_def place_def)
  have "quiet calm" by (simp add: quiet_def calm_def)
  moreover have "file_view [''r''] ?t ''c/1'' = Some [7]"
    using plain by (simp add: file_view_def place_def node_at_def)
  ultimately show ?thesis
    using file_storage_refines_map [OF run ok, of "''c/1''" "[7]"] run plain by (auto simp: empty)
qed

text \<open>A listing is one level deep and names directories: with one object \<open>c/1\<close> stored, the prefix
  \<open>""\<close> lists \<open>c\<close>, which is no object, and the prefix of the object's directory lists it.\<close>

lemma file_list_one_level:
  fixes t :: tree
  defines "t \<equiv> [([''r''], Dir), ([''r'', ''c''], Dir), ([''r'', ''c'', ''1''], File [7])]"
  shows "file_list (\<lambda>_. []) calm (dir_path [''r'']) [] t = Inr [''c'']"
    and "file_view [''r''] t ''c'' = None"
    and "file_list (\<lambda>_. []) calm (dir_path [''r'']) ''c/'' t = Inr [''c/1'']"
    and "file_list (\<lambda>_. []) calm (dir_path [''r'']) ''c/1'' t = Inr [''c/1'']"
  by (simp_all add: t_def file_list_def full_path_def path_join_def added_components_def dir_path_def
      path_component_def os_path_def stat_def calm_def node_at_def read_entries_def children_def
      path_strip_prefix_def starts_with_def path_parent_def path_file_name_def file_view_def place_def)

end
