(* ===== verification/Bounded_Http.thy ===== *)
theory Bounded_Http
  imports Codec
begin

text \<open>
  \<open>bounded-http/src/lib.rs\<close>: reading the body of an HTTP response of an untrusted provider into
  a bounded buffer.

  A \<open>reqwest\<close> response is its declared length and the sequence of what \<open>chunk()\<close> yields: bytes or
  an error (as it displays); after the last one \<open>chunk()\<close> yields \<open>None\<close>. Lengths of vectors are
  below \<open>2^63\<close>, so the sum the code forms in \<open>u64\<close> is the sum of the natural numbers. Lossy
  UTF-8 decoding is the parameter \<open>lossy\<close>.
\<close>

section \<open>Definitions\<close>

definition DEFAULT_MAX_OBJECT_BYTES :: u64 where
  "DEFAULT_MAX_OBJECT_BYTES = 64 * 1024 * 1024"

definition DEFAULT_MAX_DIAGNOSTIC_BYTES :: u64 where
  "DEFAULT_MAX_DIAGNOSTIC_BYTES = 64 * 1024"

datatype BoundedReadError =
    DeclaredTooLarge u64 u64
  | StreamedTooLarge u64
  | ReadIo string

fun bounded_read_error_text :: "BoundedReadError \<Rightarrow> string" where
  "bounded_read_error_text (DeclaredTooLarge declared mx) =
     ''response declared '' @ nat_to_string (unat declared) @ '' bytes, over the ''
     @ nat_to_string (unat mx) @ ''-byte ceiling''"
| "bounded_read_error_text (StreamedTooLarge mx) =
     ''response body exceeded the '' @ nat_to_string (unat mx)
     @ ''-byte ceiling (a declared length, if any, was a lie)''"
| "bounded_read_error_text (ReadIo e) = ''failed to read response body: '' @ e"

record response =
  rs_status :: nat
  rs_content_length :: "u64 option"
  rs_chunks :: "(string + bytes) list"

fun read_chunks :: "u64 \<Rightarrow> bytes \<Rightarrow> (string + bytes) list \<Rightarrow> BoundedReadError + bytes" where
  "read_chunks mx buf [] = Inr buf"
| "read_chunks mx buf (Inl e # rest) = Inl (ReadIo e)"
| "read_chunks mx buf (Inr chunk # rest) =
     (if length buf + length chunk > unat mx then Inl (StreamedTooLarge mx)
      else read_chunks mx (buf @ chunk) rest)"

definition read_body_bounded :: "response \<Rightarrow> u64 \<Rightarrow> BoundedReadError + bytes" where
  "read_body_bounded r mx =
     (case rs_content_length r of
        Some declared \<Rightarrow>
          if declared > mx then Inl (DeclaredTooLarge declared mx) else read_chunks mx [] (rs_chunks r)
      | None \<Rightarrow> read_chunks mx [] (rs_chunks r))"

definition read_text_bounded :: "(bytes \<Rightarrow> string) \<Rightarrow> response \<Rightarrow> u64 \<Rightarrow> string" where
  "read_text_bounded lossy r mx =
     (case read_body_bounded r mx of
        Inr b \<Rightarrow> lossy b
      | Inl (DeclaredTooLarge declared mx) \<Rightarrow>
          ''<error body suppressed: declared '' @ nat_to_string (unat declared)
          @ '' bytes, over the '' @ nat_to_string (unat mx) @ ''-byte diagnostic ceiling>''
      | Inl (StreamedTooLarge mx) \<Rightarrow>
          ''<error body truncated at the '' @ nat_to_string (unat mx) @ ''-byte diagnostic ceiling>''
      | Inl e \<Rightarrow> ''<error body unreadable: '' @ bounded_read_error_text e @ ''>'')"

section \<open>What is read\<close>

definition declares_more :: "response \<Rightarrow> u64 \<Rightarrow> bool" where
  "declares_more r mx \<longleftrightarrow> (\<exists>d. rs_content_length r = Some d \<and> mx < d)"

lemma read_body_bounded_eq:
  "read_body_bounded r mx = (if declares_more r mx
     then Inl (DeclaredTooLarge (the (rs_content_length r)) mx) else read_chunks mx [] (rs_chunks r))"
  by (auto simp: read_body_bounded_def declares_more_def split: option.split)

lemma read_chunks_Inr:
  assumes "length buf \<le> unat mx"
  shows "read_chunks mx buf cs = Inr d \<longleftrightarrow>
     (\<exists>bs. cs = map Inr bs \<and> d = buf @ concat bs \<and> length d \<le> unat mx)"
  using assms
proof (induction mx buf cs rule: read_chunks.induct)
  case (1 mx buf)
  then show ?case by auto
next
  case (2 mx buf e rest)
  then show ?case by (auto simp: Cons_eq_map_conv)
next
  case (3 mx buf chunk rest)
  show ?case
  proof (cases "length buf + length chunk > unat mx")
    case True
    then show ?thesis by (auto simp: Cons_eq_map_conv)
  next
    case False
    then show ?thesis using 3 by (auto simp: Cons_eq_map_conv)
  qed
qed

lemma read_chunks_too_large:
  assumes "length buf \<le> unat mx"
  shows "read_chunks mx buf cs = Inl (StreamedTooLarge mx') \<longleftrightarrow> mx' = mx \<and>
     (\<exists>bs b rest. cs = map Inr bs @ Inr b # rest \<and> length (buf @ concat bs) \<le> unat mx
        \<and> unat mx < length (buf @ concat bs @ b))"
  using assms
proof (induction mx buf cs rule: read_chunks.induct)
  case (3 mx buf chunk rest)
  show ?case
  proof (cases "length buf + length chunk > unat mx")
    case True
    then have "\<exists>bs b r. Inr chunk # rest = map Inr bs @ Inr b # r \<and> length (buf @ concat bs) \<le> unat mx
        \<and> unat mx < length (buf @ concat bs @ b)"
      using "3.prems" by (intro exI [of _ "[]"] exI [of _ chunk] exI [of _ rest]) simp
    with True show ?thesis by auto
  next
    case False
    let ?P = "\<lambda>buf cs. \<exists>bs b r. cs = map Inr bs @ Inr b # r \<and> length (buf @ concat bs) \<le> unat mx
        \<and> unat mx < length (buf @ concat bs @ b)"
    have "?P buf (Inr chunk # rest) \<longleftrightarrow> ?P (buf @ chunk) rest"
    proof
      assume "?P buf (Inr chunk # rest)"
      then obtain bs b r where *: "Inr chunk # rest = map Inr bs @ Inr b # r"
        "length (buf @ concat bs) \<le> unat mx" "unat mx < length (buf @ concat bs @ b)" by blast
      show "?P (buf @ chunk) rest"
      proof (cases bs)
        case Nil
        with * False show ?thesis by simp
      next
        case (Cons c cs)
        with * show ?thesis by (intro exI [of _ cs] exI [of _ b] exI [of _ r]) simp
      qed
    next
      assume "?P (buf @ chunk) rest"
      then obtain bs b r where "rest = map Inr bs @ Inr b # r"
        "length ((buf @ chunk) @ concat bs) \<le> unat mx" "unat mx < length ((buf @ chunk) @ concat bs @ b)"
        by blast
      then show "?P buf (Inr chunk # rest)"
        by (intro exI [of _ "chunk # bs"] exI [of _ b] exI [of _ r]) simp
    qed
    with False 3 show ?thesis by simp
  qed
qed (auto simp: Cons_eq_append_conv append_eq_Cons_conv)

text \<open>C33: A body is returned exactly if no larger length was declared and its chunks, all read
  without an error, fit the ceiling together; it is refused while streaming exactly if some chunk
  goes over a buffer that still fits, whatever follows that chunk; so at no time more than the
  ceiling is buffered, and what a peer sends after the refused chunk, or declares, does not matter.\<close>

theorem bounded_read_exact:
  "(read_body_bounded r mx = Inr d \<longleftrightarrow> \<not> declares_more r mx
      \<and> (\<exists>bs. rs_chunks r = map Inr bs \<and> d = concat bs) \<and> length d \<le> unat mx)
   \<and> (read_body_bounded r mx = Inl (StreamedTooLarge mx') \<longleftrightarrow> mx' = mx \<and> \<not> declares_more r mx
      \<and> (\<exists>bs b rest. rs_chunks r = map Inr bs @ Inr b # rest \<and> length (concat bs) \<le> unat mx
           \<and> unat mx < length (concat bs @ b)))
   \<and> (declares_more r mx \<longleftrightarrow> (\<exists>n. read_body_bounded r mx = Inl (DeclaredTooLarge n mx)))"
proof -
  have "read_chunks mx buf cs \<noteq> Inl (DeclaredTooLarge n mx)" for buf cs n
    by (induction mx buf cs rule: read_chunks.induct) simp_all
  then show ?thesis
    by (auto simp: read_body_bounded_eq read_chunks_Inr read_chunks_too_large)
qed

end
