(* ===== verification/S3_Storage.thy ===== *)
theory S3_Storage
  imports Storage Bounded_Http Text "HOL-Library.List_Lexorder" "HOL-Library.Char_ord"
begin

text \<open>
  \<open>vault-core/src/storage/s3.rs\<close>: the storage backend on an S3 service, and what it keeps to when the
  service is hostile and when it is not.

  Parameters: \<open>s3_env\<close> holds what other crates compute (\<open>url::Url::parse\<close>, SHA-256, HMAC-SHA-256,
  \<open>urlencoding::encode\<close>, lossy UTF-8) and the time of \<open>Utc::now()\<close>; \<open>send\<close> is \<open>reqwest\<close> and the service
  behind it, with its state. A header \<open>reqwest\<close> cannot send is an error of \<open>send\<close>. A status in a
  message is its number.
\<close>

section \<open>Configuration\<close>

record S3Config =
  endpoint :: string
  bucket :: string
  access_key_id :: string
  secret_access_key :: string
  region :: string
  s3_prefix :: "string option"
  max_object_bytes :: u64

definition S3_DEFAULT_MAX_OBJECT_BYTES :: u64 where
  "S3_DEFAULT_MAX_OBJECT_BYTES = 64 * 1024 * 1024"

definition b2 :: "string \<Rightarrow> string \<Rightarrow> string \<Rightarrow> string \<Rightarrow> S3Config" where
  "b2 key_id app_key bkt reg =
     \<lparr>endpoint = ''https://s3.'' @ reg @ ''.backblazeb2.com'', bucket = bkt, access_key_id = key_id,
      secret_access_key = app_key, region = reg, s3_prefix = None,
      max_object_bytes = S3_DEFAULT_MAX_OBJECT_BYTES\<rparr>"

definition wasabi :: "string \<Rightarrow> string \<Rightarrow> string \<Rightarrow> string \<Rightarrow> S3Config" where
  "wasabi access secret bkt reg =
     \<lparr>endpoint = ''https://s3.'' @ reg @ ''.wasabisys.com'', bucket = bkt, access_key_id = access,
      secret_access_key = secret, region = reg, s3_prefix = None,
      max_object_bytes = S3_DEFAULT_MAX_OBJECT_BYTES\<rparr>"

definition aws :: "string \<Rightarrow> string \<Rightarrow> string \<Rightarrow> string \<Rightarrow> S3Config" where
  "aws access secret bkt reg =
     \<lparr>endpoint = ''https://s3.'' @ reg @ ''.amazonaws.com'', bucket = bkt, access_key_id = access,
      secret_access_key = secret, region = reg, s3_prefix = None,
      max_object_bytes = S3_DEFAULT_MAX_OBJECT_BYTES\<rparr>"

definition minio :: "string \<Rightarrow> string \<Rightarrow> string \<Rightarrow> string \<Rightarrow> S3Config" where
  "minio endp access secret bkt =
     \<lparr>endpoint = endp, bucket = bkt, access_key_id = access, secret_access_key = secret,
      region = ''us-east-1'', s3_prefix = None, max_object_bytes = S3_DEFAULT_MAX_OBJECT_BYTES\<rparr>"

definition trim_matches :: "char \<Rightarrow> string \<Rightarrow> string" where
  "trim_matches d s = rev (dropWhile (\<lambda>c. c = d) (rev (dropWhile (\<lambda>c. c = d) s)))"

definition with_prefix :: "S3Config \<Rightarrow> string \<Rightarrow> S3Config" where
  "with_prefix c p = c\<lparr>s3_prefix := Some (trim_matches (CHR ''/'') p)\<rparr>"

definition with_max_object_bytes :: "S3Config \<Rightarrow> u64 \<Rightarrow> S3Config" where
  "with_max_object_bytes c n = c\<lparr>max_object_bytes := n\<rparr>"

text \<open>\<open>S3Storage\<close> is its configuration; the client it builds is behind \<open>send\<close>.\<close>

definition s3_new :: "string + unit \<Rightarrow> S3Config \<Rightarrow> S3Config VaultResult" where
  "s3_new built c = try_bind (map_err (\<lambda>e. Network (Text (''Failed to create HTTP client: '' @ e))) built)
     (\<lambda>_. Inr c)"

definition object_key :: "S3Config \<Rightarrow> string \<Rightarrow> string" where
  "object_key c path = (case s3_prefix c of Some p \<Rightarrow> p @ ''/'' @ path | None \<Rightarrow> path)"

definition object_url :: "S3Config \<Rightarrow> string \<Rightarrow> string" where
  "object_url c key = endpoint c @ ''/'' @ bucket c @ ''/'' @ key"

section \<open>Signing\<close>

record parsed_url =
  pu_host :: "string option"
  pu_path :: string
  pu_query :: "string option"

record utc =
  u_year :: nat
  u_month :: nat
  u_day :: nat
  u_hour :: nat
  u_minute :: nat
  u_second :: nat

record s3_env =
  url_parse :: "string \<Rightarrow> string + parsed_url"
  se_sha256 :: "bytes \<Rightarrow> bytes"
  se_hmac_sha256 :: "bytes \<Rightarrow> bytes \<Rightarrow> string + bytes"
  urlencode :: "string \<Rightarrow> string"
  utf8_lossy :: "bytes \<Rightarrow> string"
  now :: utc

definition zero_pad :: "nat \<Rightarrow> nat \<Rightarrow> string" where
  "zero_pad w n = replicate (w - length (nat_to_string n)) (CHR ''0'') @ nat_to_string n"

definition ymd :: "utc \<Rightarrow> string" where
  "ymd t = zero_pad 4 (u_year t) @ zero_pad 2 (u_month t) @ zero_pad 2 (u_day t)"

definition amz_time :: "utc \<Rightarrow> string" where
  "amz_time t = ymd t @ ''T'' @ zero_pad 2 (u_hour t) @ zero_pad 2 (u_minute t) @ zero_pad 2 (u_second t) @ ''Z''"

definition NL :: string where
  "NL = [CHR 0x0A]"

definition canonical_request :: "string \<Rightarrow> parsed_url \<Rightarrow> string \<Rightarrow> string \<Rightarrow> string \<Rightarrow> string" where
  "canonical_request mth u host amz_date phash =
     (let headers = sort [''host:'' @ host, ''x-amz-content-sha256:'' @ phash, ''x-amz-date:'' @ amz_date];
          headers_str = join NL headers @ NL
      in mth @ NL @ pu_path u @ NL @ (case pu_query u of None \<Rightarrow> [] | Some q \<Rightarrow> q) @ NL @ headers_str @ NL
         @ ''host;x-amz-content-sha256;x-amz-date'' @ NL @ phash)"

definition hmac_step :: "s3_env \<Rightarrow> bytes \<Rightarrow> bytes \<Rightarrow> bytes VaultResult" where
  "hmac_step E key dat = map_err (\<lambda>e. Internal (HmacFailed e)) (se_hmac_sha256 E key dat)"

definition signing_key :: "s3_env \<Rightarrow> S3Config \<Rightarrow> string \<Rightarrow> bytes VaultResult" where
  "signing_key E c date_stamp =
     try_bind (hmac_step E (as_bytes (''AWS4'' @ secret_access_key c)) (as_bytes date_stamp)) (\<lambda>k_date.
     try_bind (hmac_step E k_date (as_bytes (region c))) (\<lambda>k_region.
     try_bind (hmac_step E k_region (as_bytes ''s3'')) (\<lambda>k_service.
     hmac_step E k_service (as_bytes ''aws4_request''))))"

definition sign_request ::
    "s3_env \<Rightarrow> S3Config \<Rightarrow> string \<Rightarrow> string \<Rightarrow> string \<Rightarrow> (string \<times> string) list VaultResult" where
  "sign_request E c mth url phash =
     (let date_stamp = ymd (now E); amz_date = amz_time (now E)
      in try_bind (map_err (\<lambda>e. Network (InvalidUrl e)) (url_parse E url)) (\<lambda>u.
         try_bind (ok_or (Network UrlWithoutHost) (pu_host u)) (\<lambda>host.
         let request_hash = hex_encode (se_sha256 E (as_bytes (canonical_request mth u host amz_date phash)));
             scope = date_stamp @ ''/'' @ region c @ ''/s3/aws4_request'';
             to_sign = ''AWS4-HMAC-SHA256'' @ NL @ amz_date @ NL @ scope @ NL @ request_hash
         in try_bind (signing_key E c date_stamp) (\<lambda>k_signing.
            try_bind (hmac_step E k_signing (as_bytes to_sign)) (\<lambda>mac.
            let signature = hex_encode mac;
                authorization = ''AWS4-HMAC-SHA256 Credential='' @ access_key_id c @ ''/'' @ scope
                  @ '', SignedHeaders=host;x-amz-content-sha256;x-amz-date, Signature='' @ signature
            in Inr [(''Authorization'', authorization), (''x-amz-date'', amz_date),
                    (''x-amz-content-sha256'', phash), (''Host'', host)])))))"

definition payload_hash :: "s3_env \<Rightarrow> bytes \<Rightarrow> string" where
  "payload_hash E dat = hex_encode (se_sha256 E dat)"

section \<open>Operations\<close>

record request =
  rq_method :: string
  rq_url :: string
  rq_headers :: "(string \<times> string) list"
  rq_body :: bytes

type_synonym 'w send = "request \<Rightarrow> 'w \<Rightarrow> (string + response) \<times> 'w"

definition is_success :: "nat \<Rightarrow> bool" where
  "is_success status \<longleftrightarrow> 200 \<le> status \<and> status < 300"

text \<open>Signs a request and sends it; a failure to sign sends nothing.\<close>

definition signed_send ::
    "s3_env \<Rightarrow> S3Config \<Rightarrow> 'w send \<Rightarrow> string \<Rightarrow> string \<Rightarrow> string \<Rightarrow> bytes \<Rightarrow> 'w \<Rightarrow> response VaultResult \<times> 'w" where
  "signed_send E c send what mth url body w =
     (case sign_request E c mth url (payload_hash E body) of
        Inl e \<Rightarrow> (Inl e, w)
      | Inr headers \<Rightarrow> (case send \<lparr>rq_method = mth, rq_url = url, rq_headers = headers, rq_body = body\<rparr> w of
            (r, w') \<Rightarrow> (map_err (\<lambda>e. Network (RequestFailed what e)) r, w')))"

definition status_failed :: "s3_env \<Rightarrow> string \<Rightarrow> response \<Rightarrow> VaultError" where
  "status_failed E what r =
     Storage (StatusFailed what (rs_status r) (read_text_bounded (utf8_lossy E) r DEFAULT_MAX_DIAGNOSTIC_BYTES))"

definition s3_upload ::
    "s3_env \<Rightarrow> S3Config \<Rightarrow> 'w send \<Rightarrow> string \<Rightarrow> bytes \<Rightarrow> 'w \<Rightarrow> unit VaultResult \<times> 'w" where
  "s3_upload E c send path dat w =
     (let key = object_key c path; url = object_url c key
      in case signed_send E c send ''Upload'' ''PUT'' url dat w of
           (Inl e, w') \<Rightarrow> (Inl e, w')
         | (Inr r, w') \<Rightarrow>
             (if \<not> is_success (rs_status r) then Inl (status_failed E ''Upload'' r) else Inr (), w'))"

definition read_object :: "s3_env \<Rightarrow> S3Config \<Rightarrow> string \<Rightarrow> response \<Rightarrow> bytes VaultResult" where
  "read_object E c key r =
     (if rs_status r = 404 then Inl (Storage (ObjectNotFound (bucket c) key))
      else if \<not> is_success (rs_status r) then Inl (status_failed E ''Download'' r)
      else map_err (\<lambda>e. case e of
               ReadIo err \<Rightarrow> Network (BodyReadFailed err)
             | _ \<Rightarrow> Storage (ObjectRefused (bucket c) key (bounded_read_error_text e)))
             (read_body_bounded r (max_object_bytes c)))"

definition s3_download ::
    "s3_env \<Rightarrow> S3Config \<Rightarrow> 'w send \<Rightarrow> string \<Rightarrow> 'w \<Rightarrow> bytes VaultResult \<times> 'w" where
  "s3_download E c send path w =
     (let key = object_key c path; url = object_url c key
      in case signed_send E c send ''Download'' ''GET'' url [] w of
           (r, w') \<Rightarrow> (try_bind r (read_object E c key), w'))"

definition s3_exists :: "s3_env \<Rightarrow> S3Config \<Rightarrow> 'w send \<Rightarrow> string \<Rightarrow> 'w \<Rightarrow> bool VaultResult \<times> 'w" where
  "s3_exists E c send path w =
     (case signed_send E c send ''HEAD'' ''HEAD'' (object_url c (object_key c path)) [] w of
        (r, w') \<Rightarrow> (try_bind r (\<lambda>r. Inr (is_success (rs_status r))), w'))"

text \<open>The matches of \<open><Key>([^<]+)</Key>\<close>, from left to right.\<close>

function scan_keys :: "string \<Rightarrow> string list" where
  "scan_keys [] = []"
| "scan_keys (c # cs) =
     (case strip_prefix ''<Key>'' (c # cs) of
        None \<Rightarrow> scan_keys cs
      | Some rest \<Rightarrow>
          let key = takeWhile (\<lambda>x. x \<noteq> CHR ''<'') rest
          in if key = [] then scan_keys cs
             else case strip_prefix ''</Key>'' (dropWhile (\<lambda>x. x \<noteq> CHR ''<'') rest) of
                 None \<Rightarrow> scan_keys cs
               | Some after \<Rightarrow> key # scan_keys after)"
  by pat_completeness auto
termination
proof (relation "measure length", goal_cases)
  case (5 c cs rest key after)
  then have "c # cs = ''<Key>'' @ rest" and "dropWhile (\<lambda>x. x \<noteq> CHR ''<'') rest = ''</Key>'' @ after"
    by (simp_all only: strip_prefix_eq_Some)
  moreover from this(2) have "length after \<le> length rest"
    using length_dropWhile_le [of "\<lambda>x. x \<noteq> CHR ''<''" rest] by simp
  ultimately show ?case by simp
qed simp_all

definition relative_key :: "S3Config \<Rightarrow> string \<Rightarrow> string" where
  "relative_key c key =
     (case s3_prefix c of
        Some p \<Rightarrow> (case strip_prefix (p @ ''/'') key of Some r \<Rightarrow> r | None \<Rightarrow> key)
      | None \<Rightarrow> key)"

definition read_listing :: "s3_env \<Rightarrow> S3Config \<Rightarrow> response \<Rightarrow> string list VaultResult" where
  "read_listing E c r =
     (if \<not> is_success (rs_status r) then Inl (status_failed E ''List'' r)
      else try_bind (map_err (\<lambda>e. Network (ListReadFailed (bounded_read_error_text e)))
             (read_body_bounded r (max_object_bytes c)))
           (\<lambda>body. Inr (map (relative_key c) (scan_keys (utf8_lossy E body)))))"

definition s3_list :: "s3_env \<Rightarrow> S3Config \<Rightarrow> 'w send \<Rightarrow> string \<Rightarrow> 'w \<Rightarrow> string list VaultResult \<times> 'w" where
  "s3_list E c send prefix w =
     (let url = endpoint c @ ''/'' @ bucket c @ ''?list-type=2&prefix='' @ urlencode E (object_key c prefix)
      in case signed_send E c send ''List'' ''GET'' url [] w of
           (r, w') \<Rightarrow> (try_bind r (read_listing E c), w'))"

definition s3_delete :: "s3_env \<Rightarrow> S3Config \<Rightarrow> 'w send \<Rightarrow> string \<Rightarrow> 'w \<Rightarrow> unit VaultResult \<times> 'w" where
  "s3_delete E c send path w =
     (let key = object_key c path; url = object_url c key
      in case signed_send E c send ''Delete'' ''DELETE'' url [] w of
           (Inl e, w') \<Rightarrow> (Inl e, w')
         | (Inr r, w') \<Rightarrow>
             (if \<not> is_success (rs_status r) \<and> rs_status r \<noteq> 404
              then Inl (status_failed E ''Delete'' r) else Inr (), w'))"

definition s3_backend_name :: string where
  "s3_backend_name = ''s3''"

section \<open>What a request signs\<close>

lemma sorted_headers:
  "sort [''host:'' @ h, ''x-amz-content-sha256:'' @ p, ''x-amz-date:'' @ d]
     = [''host:'' @ h, ''x-amz-content-sha256:'' @ p, ''x-amz-date:'' @ d]"
  by (simp add: less_eq_char_def less_char_def)

definition request_lines :: "string \<Rightarrow> parsed_url \<Rightarrow> string \<Rightarrow> string \<Rightarrow> string \<Rightarrow> string list" where
  "request_lines mth u host amz_date phash =
     [mth, pu_path u, case pu_query u of None \<Rightarrow> [] | Some q \<Rightarrow> q, ''host:'' @ host,
      ''x-amz-content-sha256:'' @ phash, ''x-amz-date:'' @ amz_date, [],
      ''host;x-amz-content-sha256;x-amz-date'', phash]"

lemma canonical_request_lines:
  "canonical_request mth u host amz_date phash = join NL (request_lines mth u host amz_date phash)"
  by (simp only: canonical_request_def request_lines_def sorted_headers Let_def join.simps append_assoc append_Nil)

definition one_line :: "string \<Rightarrow> bool" where
  "one_line s \<longleftrightarrow> CHR 0x0A \<notin> set s"

text \<open>The text that is hashed and signed determines everything in it.\<close>

lemma canonical_request_inject:
  assumes "canonical_request mth u host d h = canonical_request mth' u' host' d' h'"
    and "\<forall>w \<in> set (request_lines mth u host d h). one_line w"
    and "\<forall>w \<in> set (request_lines mth' u' host' d' h'). one_line w"
  shows "mth = mth' \<and> pu_path u = pu_path u' \<and> host = host' \<and> d = d' \<and> h = h'
    \<and> (case pu_query u of None \<Rightarrow> [] | Some q \<Rightarrow> q) = (case pu_query u' of None \<Rightarrow> [] | Some q \<Rightarrow> q)"
proof -
  have "request_lines mth u host d h = request_lines mth' u' host' d' h'"
    by (rule join_inject [where d = "CHR 0x0A"])
       (use assms in \<open>simp_all only: canonical_request_lines one_line_def NL_def\<close>,
        simp_all add: request_lines_def)
  then show ?thesis by (simp add: request_lines_def)
qed

section \<open>A hostile service\<close>

text \<open>What the service answered to a signed request.\<close>

definition answered ::
    "s3_env \<Rightarrow> S3Config \<Rightarrow> 'w send \<Rightarrow> string \<Rightarrow> string \<Rightarrow> bytes \<Rightarrow> 'w \<Rightarrow> response \<Rightarrow> bool" where
  "answered E c send mth url body w r \<longleftrightarrow>
     (\<exists>headers. sign_request E c mth url (payload_hash E body) = Inr headers
        \<and> fst (send \<lparr>rq_method = mth, rq_url = url, rq_headers = headers, rq_body = body\<rparr> w) = Inr r)"

lemma signed_send_Inr:
  "fst (signed_send E c send what mth url body w) = Inr r \<longleftrightarrow> answered E c send mth url body w r"
  by (auto simp: signed_send_def answered_def split: sum.splits prod.splits)

text \<open>C25: Whatever the service answers: an object is returned exactly if the service answered a signed
  GET of its URL with success and a body it did not declare larger than the ceiling, whose chunks
  arrive without an error and fit the ceiling, and it is those bytes; a listing likewise comes from a
  body within the ceiling; an upload succeeds exactly on an answer of success, a deletion also on
  "not found".\<close>

theorem s3_hostile_service:
  "(fst (s3_download E c send p w) = Inr d \<longleftrightarrow>
      (\<exists>r bs. answered E c send ''GET'' (object_url c (object_key c p)) [] w r \<and> is_success (rs_status r)
         \<and> \<not> declares_more r (max_object_bytes c) \<and> rs_chunks r = map Inr bs \<and> d = concat bs)
      \<and> length d \<le> unat (max_object_bytes c))
   \<and> (fst (s3_list E c send pre w) = Inr ks \<longleftrightarrow>
      (\<exists>r bs. answered E c send ''GET'' (endpoint c @ ''/'' @ bucket c @ ''?list-type=2&prefix=''
            @ urlencode E (object_key c pre)) [] w r \<and> is_success (rs_status r)
         \<and> \<not> declares_more r (max_object_bytes c) \<and> rs_chunks r = map Inr bs
         \<and> length (concat bs) \<le> unat (max_object_bytes c)
         \<and> ks = map (relative_key c) (scan_keys (utf8_lossy E (concat bs)))))
   \<and> (fst (s3_upload E c send p dat w) = Inr () \<longleftrightarrow>
      (\<exists>r. answered E c send ''PUT'' (object_url c (object_key c p)) dat w r \<and> is_success (rs_status r)))
   \<and> (fst (s3_delete E c send p w) = Inr () \<longleftrightarrow>
      (\<exists>r. answered E c send ''DELETE'' (object_url c (object_key c p)) [] w r
         \<and> (is_success (rs_status r) \<or> rs_status r = 404)))"
proof (intro conjI)
  have body: "read_body_bounded r mx = Inr d \<longleftrightarrow> \<not> declares_more r mx
      \<and> (\<exists>bs. rs_chunks r = map Inr bs \<and> d = concat bs) \<and> length d \<le> unat mx" for r mx d
    by (auto simp: read_body_bounded_eq read_chunks_Inr)
  have object: "read_object E c key r = Inr d \<longleftrightarrow> is_success (rs_status r)
      \<and> read_body_bounded r (max_object_bytes c) = Inr d" for key r d
    by (auto simp: read_object_def is_success_def)
  show "fst (s3_download E c send p w) = Inr d \<longleftrightarrow>
      (\<exists>r bs. answered E c send ''GET'' (object_url c (object_key c p)) [] w r \<and> is_success (rs_status r)
         \<and> \<not> declares_more r (max_object_bytes c) \<and> rs_chunks r = map Inr bs \<and> d = concat bs)
      \<and> length d \<le> unat (max_object_bytes c)"
    by (auto simp: s3_download_def Let_def case_prod_beta try_bind_eq_Inr signed_send_Inr object body)
  have listing: "read_listing E c r = Inr ks \<longleftrightarrow> is_success (rs_status r)
      \<and> (\<exists>b. read_body_bounded r (max_object_bytes c) = Inr b
           \<and> ks = map (relative_key c) (scan_keys (utf8_lossy E b)))" for r ks
    by (auto simp: read_listing_def try_bind_eq_Inr)
  show "fst (s3_list E c send pre w) = Inr ks \<longleftrightarrow>
      (\<exists>r bs. answered E c send ''GET'' (endpoint c @ ''/'' @ bucket c @ ''?list-type=2&prefix=''
            @ urlencode E (object_key c pre)) [] w r \<and> is_success (rs_status r)
         \<and> \<not> declares_more r (max_object_bytes c) \<and> rs_chunks r = map Inr bs
         \<and> length (concat bs) \<le> unat (max_object_bytes c)
         \<and> ks = map (relative_key c) (scan_keys (utf8_lossy E (concat bs))))"
    by (auto simp: s3_list_def Let_def case_prod_beta try_bind_eq_Inr signed_send_Inr listing body)
  have sent: "fst (case signed_send E c send what mth url b w of
        (Inl e, w') \<Rightarrow> (Inl e, w') | (Inr r, w') \<Rightarrow> (if P r then Inl (g r) else Inr (), w')) = Inr ()
      \<longleftrightarrow> (\<exists>r. answered E c send mth url b w r \<and> \<not> P r)" for what mth url b P g
  proof -
    obtain a w1 where a: "signed_send E c send what mth url b w = (a, w1)" by fastforce
    have "answered E c send mth url b w r \<longleftrightarrow> a = Inr r" for r
      by (simp add: a flip: signed_send_Inr [of _ _ _ what])
    then show ?thesis by (cases a) (simp_all add: a)
  qed
  show "fst (s3_upload E c send p dat w) = Inr () \<longleftrightarrow>
      (\<exists>r. answered E c send ''PUT'' (object_url c (object_key c p)) dat w r \<and> is_success (rs_status r))"
    by (simp add: s3_upload_def Let_def sent)
  show "fst (s3_delete E c send p w) = Inr () \<longleftrightarrow>
      (\<exists>r. answered E c send ''DELETE'' (object_url c (object_key c p)) [] w r
         \<and> (is_success (rs_status r) \<or> rs_status r = 404))"
    by (auto simp: s3_delete_def Let_def sent)
qed

section \<open>An honest service\<close>

text \<open>
  What \<open>url\<close> and an S3 service document: an endpoint without a path, and a path of unreserved
  characters without \<open>.\<close> parts, parse to themselves; and the service keeps an object under each
  path, which a successful PUT replaces, a successful or 404 DELETE removes, and a successful GET
  with an undisturbed body returns. Of a request that fails, the effect on its own object is open.
\<close>

definition url_char :: "char \<Rightarrow> bool" where
  "url_char x \<longleftrightarrow> is_ascii_alphanumeric x \<or> x \<in> set ''-._~/''"

definition url_key :: "string \<Rightarrow> bool" where
  "url_key p \<longleftrightarrow> list_all url_char p \<and> list_all (\<lambda>n. n \<noteq> ''.'' \<and> n \<noteq> ''..'') (split_on (CHR ''/'') p)"

definition parses_plain :: "s3_env \<Rightarrow> string \<Rightarrow> string \<Rightarrow> bool" where
  "parses_plain E endp host \<longleftrightarrow>
     (\<forall>p. url_key p \<longrightarrow> url_parse E (endp @ ''/'' @ p)
        = Inr \<lparr>pu_host = Some host, pu_path = ''/'' @ p, pu_query = None\<rparr>)"

definition honest :: "s3_env \<Rightarrow> ('w \<Rightarrow> contents) \<Rightarrow> 'w send \<Rightarrow> bool" where
  "honest E objects send \<longleftrightarrow>
     (\<forall>q w r w' u. send q w = (r, w') \<and> url_parse E (rq_url q) = Inr u \<longrightarrow>
        (\<forall>k. k \<noteq> pu_path u \<longrightarrow> objects w' k = objects w k)
        \<and> (rq_method q = ''PUT'' \<longrightarrow> (\<forall>a. r = Inr a \<and> is_success (rs_status a) \<longrightarrow>
             objects w' (pu_path u) = Some (rq_body q)))
        \<and> (rq_method q = ''DELETE'' \<longrightarrow> (\<forall>a. r = Inr a \<and> (is_success (rs_status a) \<or> rs_status a = 404) \<longrightarrow>
             objects w' (pu_path u) = None))
        \<and> (rq_method q = ''GET'' \<longrightarrow> objects w' = objects w
             \<and> (\<forall>a bs. r = Inr a \<and> is_success (rs_status a) \<and> rs_chunks a = map Inr bs \<longrightarrow>
                  objects w (pu_path u) = Some (concat bs))))"

definition stored_key :: "S3Config \<Rightarrow> string \<Rightarrow> bool" where
  "stored_key c p \<longleftrightarrow> url_key (bucket c @ ''/'' @ object_key c p)"

definition s3_view :: "S3Config \<Rightarrow> ('w \<Rightarrow> contents) \<Rightarrow> 'w \<Rightarrow> contents" where
  "s3_view c objects w p = objects w (''/'' @ bucket c @ ''/'' @ object_key c p)"

lemma object_key_inject [simp]: "object_key c p = object_key c q \<longleftrightarrow> p = q"
  by (auto simp: object_key_def split: option.splits)

lemma object_url_parse:
  assumes "parses_plain E (endpoint c) host" and "stored_key c p"
  shows "url_parse E (object_url c (object_key c p))
    = Inr \<lparr>pu_host = Some host, pu_path = ''/'' @ bucket c @ ''/'' @ object_key c p, pu_query = None\<rparr>"
  using assms by (simp add: parses_plain_def stored_key_def object_url_def)

text \<open>What a signed request does to the objects.\<close>

lemma signed_send_effect:
  assumes "honest E objects send" and "parses_plain E (endpoint c) host" and "stored_key c p"
    and "signed_send E c send what mth (object_url c (object_key c p)) body w = (r, w')"
  shows "(\<forall>q. q \<noteq> p \<longrightarrow> s3_view c objects w' q = s3_view c objects w q)
    \<and> (mth = ''PUT'' \<longrightarrow> (\<forall>a. r = Inr a \<and> is_success (rs_status a) \<longrightarrow> s3_view c objects w' p = Some body))
    \<and> (mth = ''DELETE'' \<longrightarrow> (\<forall>a. r = Inr a \<and> (is_success (rs_status a) \<or> rs_status a = 404) \<longrightarrow>
         s3_view c objects w' p = None))
    \<and> (mth = ''GET'' \<longrightarrow> s3_view c objects w' = s3_view c objects w
         \<and> (\<forall>a bs. r = Inr a \<and> is_success (rs_status a) \<and> rs_chunks a = map Inr bs \<longrightarrow>
              s3_view c objects w p = Some (concat bs)))"
proof (cases "sign_request E c mth (object_url c (object_key c p)) (payload_hash E body)")
  case (Inl e)
  with assms(4) show ?thesis by (auto simp: signed_send_def)
next
  case (Inr headers)
  let ?q = "\<lparr>rq_method = mth, rq_url = object_url c (object_key c p), rq_headers = headers, rq_body = body\<rparr>"
  obtain x where sent: "send ?q w = (x, w')" and r: "r = map_err (\<lambda>e. Network (RequestFailed what e)) x"
    using assms(4) Inr by (auto simp: signed_send_def split: prod.splits)
  have "send ?q w = (x, w') \<and> url_parse E (rq_url ?q)
      = Inr \<lparr>pu_host = Some host, pu_path = ''/'' @ bucket c @ ''/'' @ object_key c p, pu_query = None\<rparr>"
    using sent object_url_parse [OF assms(2,3)] by simp
  with assms(1) show ?thesis
    unfolding honest_def by (fastforce simp: r s3_view_def fun_eq_iff)
qed

lemma s3_backend:
  assumes "honest E objects send" and "parses_plain E (endpoint c) host"
  shows "storage_backend (\<lambda>_. True) (s3_view c objects) (stored_key c)
    (s3_upload E c send) (s3_download E c send) (s3_delete E c send)"
proof (unfold_locales, goal_cases)
  case (1 w p d r w')
  from 1(3) show ?case
    using signed_send_effect [OF assms 1(2), of "''Upload''" "''PUT''" d w]
    by (cases "signed_send E c send ''Upload'' ''PUT'' (object_url c (object_key c p)) d w")
       (auto simp: s3_upload_def Let_def split: sum.splits)
next
  case (2 w p got w')
  obtain r where sent: "signed_send E c send ''Download'' ''GET'' (object_url c (object_key c p)) [] w = (r, w')"
    and got: "got = try_bind r (read_object E c (object_key c p))"
    using 2(3) by (auto simp: s3_download_def Let_def split: prod.splits)
  from signed_send_effect [OF assms 2(2) sent] got show ?case
    by (auto simp: try_bind_eq_Inr read_object_def read_body_bounded_eq read_chunks_Inr split: if_splits)
next
  case (3 w p r w')
  from 3(3) show ?case
    using signed_send_effect [OF assms 3(2), of "''Delete''" "''DELETE''" "[]" w]
    by (cases "signed_send E c send ''Delete'' ''DELETE'' (object_url c (object_key c p)) [] w")
       (auto simp: s3_delete_def Let_def split: sum.splits if_splits)
qed

text \<open>C10: On an honest service, a sequence of uploads, downloads and deletions of keys made of
  unreserved characters is a run of a map from keys to contents, whatever requests fail: an upload
  that succeeds is what the next successful download of that key returns, keys do not interfere, and a
  download returns nothing that is not stored.\<close>

theorem s3_refines_map:
  assumes "honest E objects send" and "parses_plain E (endpoint c) host"
    and "run_storage (s3_upload E c send) (s3_download E c send) (s3_delete E c send) ops w = (out, w')"
    and "\<forall>op \<in> set ops. stored_key c (key_of op)"
  shows "storage_trace (s3_view c objects w) ops out (s3_view c objects w')"
  using storage_backend.refines_map [OF s3_backend [OF assms(1,2)] assms(3) _ assms(4)] by simp

definition demo_s3 :: s3_env where
  "demo_s3 = \<lparr>url_parse = \<lambda>u. Inr \<lparr>pu_host = Some ''h'', pu_path = drop 1 u, pu_query = None\<rparr>,
     se_sha256 = \<lambda>b. [0], se_hmac_sha256 = \<lambda>k d. Inr k, urlencode = \<lambda>s. s, utf8_lossy = \<lambda>b. [],
     now = \<lparr>u_year = 2026, u_month = 1, u_day = 2, u_hour = 3, u_minute = 4, u_second = 5\<rparr>\<rparr>"

definition demo_service :: "contents send" where
  "demo_service q w =
     (let k = drop 1 (rq_url q)
      in if rq_method q = ''PUT'' then (Inr \<lparr>rs_status = 200, rs_content_length = None, rs_chunks = []\<rparr>,
           w(k := Some (rq_body q)))
         else if rq_method q = ''DELETE'' then (Inr \<lparr>rs_status = 204, rs_content_length = None, rs_chunks = []\<rparr>,
           w(k := None))
         else case w k of
             None \<Rightarrow> (Inr \<lparr>rs_status = 404, rs_content_length = None, rs_chunks = []\<rparr>, w)
           | Some d \<Rightarrow> (Inr \<lparr>rs_status = 200, rs_content_length = None, rs_chunks = [Inr d]\<rparr>, w))"

lemma demo_signs: "\<exists>hs. sign_request demo_s3 c mth url h = Inr hs"
  by (simp add: sign_request_def demo_s3_def signing_key_def hmac_step_def Let_def)

theorem s3_refines_map_witness:
  "\<exists>w'. run_storage (s3_upload demo_s3 (minio ''h'' [] [] ''b'') demo_service)
      (s3_download demo_s3 (minio ''h'' [] [] ''b'') demo_service)
      (s3_delete demo_s3 (minio ''h'' [] [] ''b'') demo_service)
      [OpUpload ''k'' [7], OpDownload ''k'', OpDelete ''k''] (\<lambda>_. None)
      = ([Done (Inr ()), Got (Inr [7]), Done (Inr ())], w')
    \<and> storage_trace (\<lambda>_. None) [OpUpload ''k'' [7], OpDownload ''k'', OpDelete ''k'']
        [Done (Inr ()), Got (Inr [7]), Done (Inr ())]
        (s3_view (minio ''h'' [] [] ''b'') (\<lambda>w. w) w')"
proof -
  let ?c = "minio ''h'' [] [] ''b''" and ?ops = "[OpUpload ''k'' [7], OpDownload ''k'', OpDelete ''k'']"
  have honest: "honest demo_s3 (\<lambda>w. w) demo_service"
    by (auto simp: honest_def demo_s3_def demo_service_def Let_def is_success_def split: option.splits)
  have plain: "parses_plain demo_s3 (endpoint ?c) ''h''"
    by (simp add: parses_plain_def demo_s3_def minio_def)
  have key: "stored_key ?c ''k''"
    by (simp add: stored_key_def minio_def object_key_def url_key_def url_char_def
        is_ascii_alphanumeric_def code_of_def)
  have "\<exists>w'. run_storage (s3_upload demo_s3 ?c demo_service) (s3_download demo_s3 ?c demo_service)
      (s3_delete demo_s3 ?c demo_service) ?ops (\<lambda>_. None)
      = ([Done (Inr ()), Got (Inr [7]), Done (Inr ())], w')"
  proof -
    have signed: "signed_send demo_s3 c demo_service what mth url b w
        = (let (r, w') = demo_service \<lparr>rq_method = mth, rq_url = url, rq_headers = [], rq_body = b\<rparr> w
           in (map_err (\<lambda>e. Network (RequestFailed what e)) r, w'))" for c what mth url b w
      using demo_signs [of c mth url "payload_hash demo_s3 b"]
      by (auto simp: signed_send_def demo_service_def Let_def split: prod.split)
    show ?thesis
      by (simp add: s3_upload_def s3_download_def s3_delete_def signed Let_def demo_service_def is_success_def
          read_object_def read_body_bounded_def minio_def object_url_def object_key_def
          S3_DEFAULT_MAX_OBJECT_BYTES_def)
  qed
  then obtain w' where run: "run_storage (s3_upload demo_s3 ?c demo_service)
      (s3_download demo_s3 ?c demo_service) (s3_delete demo_s3 ?c demo_service) ?ops (\<lambda>_. None)
      = ([Done (Inr ()), Got (Inr [7]), Done (Inr ())], w')" by blast
  have "s3_view ?c (\<lambda>w. w) (\<lambda>_. None) = (\<lambda>_. None)" by (simp add: fun_eq_iff s3_view_def)
  with s3_refines_map [OF honest plain run] run key show ?thesis by auto
qed

section \<open>Listings\<close>

text \<open>A listing of keys without \<open><\<close> reads back as the keys: what stands between the elements is
  skipped when it has no \<open><Key>\<close> of its own.\<close>

lemma scan_keys_skip: "CHR ''<'' \<notin> set x \<Longrightarrow> scan_keys (x @ y) = scan_keys y"
proof (induction x)
  case (Cons c cs)
  then have "strip_prefix ''<Key>'' (c # cs @ y) = None" by (auto simp: strip_prefix_def)
  with Cons show ?case by simp
qed simp

lemma scan_keys_element:
  assumes "k \<noteq> []" and "CHR ''<'' \<notin> set k"
  shows "scan_keys (''<Key>'' @ k @ ''</Key>'' @ z) = k # scan_keys z"
proof -
  have "takeWhile (\<lambda>x. x \<noteq> CHR ''<'') (k @ ''</Key>'' @ z) = k"
    and "dropWhile (\<lambda>x. x \<noteq> CHR ''<'') (k @ ''</Key>'' @ z) = ''</Key>'' @ z"
    using assms(2) by (auto simp: takeWhile_append dropWhile_append takeWhile_eq_all_conv)
  then show ?thesis using assms(1) by (simp add: strip_prefix_def)
qed

lemma scan_keys_listing:
  "\<forall>k \<in> set ks. k \<noteq> [] \<and> CHR ''<'' \<notin> set k \<Longrightarrow>
     scan_keys (concat (map (\<lambda>k. ''<Key>'' @ k @ ''</Key>'') ks)) = ks"
  by (induction ks) (simp_all add: scan_keys_element [simplified])

text \<open>Only the first page is asked for, and XML escapes stay in the keys.\<close>

lemma list_ignores_truncation_and_escapes:
  "scan_keys ''<IsTruncated>true</IsTruncated><Contents><Key>a&amp;b</Key></Contents>'' = [''a&amp;b'']"
  by (simp add: strip_prefix_def)

end
