(* ===== verification/Credential_Store.thy ===== *)
theory Credential_Store
  imports Crypto_Error
begin

text \<open>
  \<open>passkey-core/src/credential_store\<close>: the interface of a credential backend (\<open>mod.rs\<close>), the one in
  memory (\<open>memory.rs\<close>), the one on the OS keyring (\<open>keyring_impl.rs\<close>), and the session built on it.

  The keyring is a parameter: an \<open>Entry\<close> is its service and key, and each call of it reads or
  changes the state of the store of the operating system. The in-memory store is the map behind
  its lock.
\<close>

section \<open>In memory\<close>

type_synonym memory = "string \<Rightarrow> string option"

definition memory_new :: memory where
  "memory_new = Map.empty"

definition memory_store :: "string \<Rightarrow> string \<Rightarrow> memory \<Rightarrow> unit PasskeyResult \<times> memory" where
  "memory_store key val m = (Inr (), m(key \<mapsto> val))"

definition memory_get :: "string \<Rightarrow> memory \<Rightarrow> string option PasskeyResult" where
  "memory_get key m = Inr (m key)"

definition memory_delete :: "string \<Rightarrow> memory \<Rightarrow> unit PasskeyResult \<times> memory" where
  "memory_delete key m = (Inr (), m(key := None))"

definition memory_contains :: "string \<Rightarrow> memory \<Rightarrow> bool" where
  "memory_contains key m \<longleftrightarrow> m key \<noteq> None"

definition memory_clear :: "memory \<Rightarrow> memory" where
  "memory_clear m = Map.empty"

definition memory_len :: "memory \<Rightarrow> nat" where
  "memory_len m = card (dom m)"

definition memory_is_empty :: "memory \<Rightarrow> bool" where
  "memory_is_empty m \<longleftrightarrow> memory_len m = 0"

section \<open>On the OS keyring\<close>

datatype credential_error = CredNoEntry | CredAmbiguous | CredOther string

record 'k keyring =
  kr_entry :: "string \<Rightarrow> string \<Rightarrow> 'k \<Rightarrow> string option"
  kr_set :: "string \<Rightarrow> string \<Rightarrow> string \<Rightarrow> 'k \<Rightarrow> (credential_error + unit) \<times> 'k"
  kr_get :: "string \<Rightarrow> string \<Rightarrow> 'k \<Rightarrow> credential_error + string"
  kr_del :: "string \<Rightarrow> string \<Rightarrow> 'k \<Rightarrow> (credential_error + unit) \<times> 'k"
  kr_text :: "credential_error \<Rightarrow> string"

definition no_entry :: "string \<Rightarrow> PasskeyError" where
  "no_entry e = CredentialStore (''Failed to create entry: '' @ e)"

definition keyring_store ::
    "'k keyring \<Rightarrow> string \<Rightarrow> string \<Rightarrow> string \<Rightarrow> 'k \<Rightarrow> unit PasskeyResult \<times> 'k" where
  "keyring_store K service_name key val s =
     (case kr_entry K service_name key s of
        Some e \<Rightarrow> (Inl (no_entry e), s)
      | None \<Rightarrow> (case kr_set K service_name key val s of
            (r, s') \<Rightarrow> (map_err (\<lambda>e. CredentialStore (''Failed to set value: '' @ kr_text K e)) r, s')))"

definition keyring_get :: "'k keyring \<Rightarrow> string \<Rightarrow> string \<Rightarrow> 'k \<Rightarrow> string option PasskeyResult" where
  "keyring_get K service_name key s =
     (case kr_entry K service_name key s of
        Some e \<Rightarrow> Inl (no_entry e)
      | None \<Rightarrow> (case kr_get K service_name key s of
            Inr v \<Rightarrow> Inr (Some v)
          | Inl CredNoEntry \<Rightarrow> Inr None
          | Inl CredAmbiguous \<Rightarrow> Inr None
          | Inl e \<Rightarrow> Inl (CredentialStore (''Failed to retrieve '' @ [CHR 0x27] @ key @ [CHR 0x27] @ '': ''
              @ kr_text K e))))"

definition keyring_delete :: "'k keyring \<Rightarrow> string \<Rightarrow> string \<Rightarrow> 'k \<Rightarrow> unit PasskeyResult \<times> 'k" where
  "keyring_delete K service_name key s =
     (case kr_entry K service_name key s of
        Some e \<Rightarrow> (Inl (no_entry e), s)
      | None \<Rightarrow> (case kr_del K service_name key s of
            (Inr _, s') \<Rightarrow> (Inr (), s')
          | (Inl CredNoEntry, s') \<Rightarrow> (Inr (), s')
          | (Inl e, s') \<Rightarrow> (Inl (CredentialStore (''Failed to delete '' @ [CHR 0x27] @ key @ [CHR 0x27]
              @ '': '' @ kr_text K e)), s')))"

section \<open>The session\<close>

definition ACCESS_TOKEN :: string where "ACCESS_TOKEN = ''access_token''"
definition REFRESH_TOKEN :: string where "REFRESH_TOKEN = ''refresh_token''"
definition USER_ID :: string where "USER_ID = ''user_id''"
definition USER_EMAIL :: string where "USER_EMAIL = ''user_email''"
definition TOKEN_EXPIRES_AT :: string where "TOKEN_EXPIRES_AT = ''token_expires_at''"
definition RECOVERY_HASH :: string where "RECOVERY_HASH = ''recovery_hash''"

lemmas credential_keys =
  ACCESS_TOKEN_def REFRESH_TOKEN_def USER_ID_def USER_EMAIL_def TOKEN_EXPIRES_AT_def RECOVERY_HASH_def

text \<open>The methods of \<open>CredentialStore\<close> over its own \<open>store\<close>, \<open>get\<close> and \<open>delete\<close>.\<close>

type_synonym 's store_fn = "string \<Rightarrow> string \<Rightarrow> 's \<Rightarrow> unit PasskeyResult \<times> 's"
type_synonym 's get_fn = "string \<Rightarrow> 's \<Rightarrow> string option PasskeyResult"
type_synonym 's delete_fn = "string \<Rightarrow> 's \<Rightarrow> unit PasskeyResult \<times> 's"

definition store_access_token :: "'s store_fn \<Rightarrow> string \<Rightarrow> 's \<Rightarrow> unit PasskeyResult \<times> 's" where
  "store_access_token st token = st ACCESS_TOKEN token"

definition get_access_token :: "'s get_fn \<Rightarrow> 's \<Rightarrow> string option PasskeyResult" where
  "get_access_token gt = gt ACCESS_TOKEN"

definition store_refresh_token :: "'s store_fn \<Rightarrow> string \<Rightarrow> 's \<Rightarrow> unit PasskeyResult \<times> 's" where
  "store_refresh_token st token = st REFRESH_TOKEN token"

definition get_refresh_token :: "'s get_fn \<Rightarrow> 's \<Rightarrow> string option PasskeyResult" where
  "get_refresh_token gt = gt REFRESH_TOKEN"

definition store_user_id :: "'s store_fn \<Rightarrow> string \<Rightarrow> 's \<Rightarrow> unit PasskeyResult \<times> 's" where
  "store_user_id st uid = st USER_ID uid"

definition get_user_id :: "'s get_fn \<Rightarrow> 's \<Rightarrow> string option PasskeyResult" where
  "get_user_id gt = gt USER_ID"

definition store_user_email :: "'s store_fn \<Rightarrow> string \<Rightarrow> 's \<Rightarrow> unit PasskeyResult \<times> 's" where
  "store_user_email st email = st USER_EMAIL email"

definition get_user_email :: "'s get_fn \<Rightarrow> 's \<Rightarrow> string option PasskeyResult" where
  "get_user_email gt = gt USER_EMAIL"

definition store_token_expires_at :: "'s store_fn \<Rightarrow> int \<Rightarrow> 's \<Rightarrow> unit PasskeyResult \<times> 's" where
  "store_token_expires_at st expires_at = st TOKEN_EXPIRES_AT (int_to_string expires_at)"

text \<open>\<open>str::parse::<i64>\<close>: an optional sign, digits, and a value of the type.\<close>

definition is_digit :: "char \<Rightarrow> bool" where
  "is_digit c \<longleftrightarrow> 48 \<le> (of_char c :: nat) \<and> of_char c < (58 :: nat)"

definition parse_i64 :: "string \<Rightarrow> int option" where
  "parse_i64 s =
     (let (neg, ds) = (case s of
            [] \<Rightarrow> (False, [])
          | c # cs \<Rightarrow> if c = CHR ''-'' then (True, cs) else if c = CHR ''+'' then (False, cs) else (False, s));
          v = (if neg then - int (string_to_nat ds) else int (string_to_nat ds))
      in if ds \<noteq> [] \<and> list_all is_digit ds \<and> - (2 ^ 63) \<le> v \<and> v < 2 ^ 63 then Some v else None)"

definition get_token_expires_at :: "'s get_fn \<Rightarrow> 's \<Rightarrow> int option PasskeyResult" where
  "get_token_expires_at gt s =
     try_bind (gt TOKEN_EXPIRES_AT s) (\<lambda>v.
       case v of
         None \<Rightarrow> Inr None
       | Some t \<Rightarrow> (case parse_i64 t of
             Some i \<Rightarrow> Inr (Some i)
           | None \<Rightarrow> Inl (CredentialStore ''Invalid expiration timestamp'')))"

text \<open>\<open>?\<close> between operations that change the state.\<close>

definition and_then :: "('s \<Rightarrow> 'a PasskeyResult \<times> 's) \<Rightarrow> ('s \<Rightarrow> 'b PasskeyResult \<times> 's) \<Rightarrow> 's
    \<Rightarrow> 'b PasskeyResult \<times> 's" where
  "and_then f g s = (case f s of (Inl e, s') \<Rightarrow> (Inl e, s') | (Inr _, s') \<Rightarrow> g s')"

definition store_all ::
    "'s store_fn \<Rightarrow> string \<Rightarrow> string \<Rightarrow> string \<Rightarrow> string \<Rightarrow> int \<Rightarrow> 's \<Rightarrow> unit PasskeyResult \<times> 's" where
  "store_all st access_token refresh_token user_id email expires_at =
     and_then (store_access_token st access_token)
    (and_then (store_refresh_token st refresh_token)
    (and_then (store_user_id st user_id)
    (and_then (store_user_email st email)
              (store_token_expires_at st expires_at))))"

definition is_logged_in :: "'s get_fn \<Rightarrow> 's \<Rightarrow> bool" where
  "is_logged_in gt s = (case get_access_token gt s of Inl _ \<Rightarrow> False | Inr opt \<Rightarrow> opt \<noteq> None)"

definition store_recovery_hash :: "'s store_fn \<Rightarrow> string \<Rightarrow> 's \<Rightarrow> unit PasskeyResult \<times> 's" where
  "store_recovery_hash st hash = st RECOVERY_HASH hash"

definition get_recovery_hash :: "'s get_fn \<Rightarrow> 's \<Rightarrow> string option PasskeyResult" where
  "get_recovery_hash gt = gt RECOVERY_HASH"

definition keys_to_clear :: "string list" where
  "keys_to_clear = [ACCESS_TOKEN, REFRESH_TOKEN, USER_ID, USER_EMAIL, TOKEN_EXPIRES_AT]"

text \<open>A deletion that fails is logged and passed over.\<close>

fun delete_each :: "'s delete_fn \<Rightarrow> string list \<Rightarrow> 's \<Rightarrow> 's" where
  "delete_each dl [] s = s"
| "delete_each dl (key # rest) s = delete_each dl rest (snd (dl key s))"

definition clear_all :: "'s delete_fn \<Rightarrow> 's \<Rightarrow> unit PasskeyResult \<times> 's" where
  "clear_all dl s = (Inr (), delete_each dl keys_to_clear s)"

section \<open>The expiry as text\<close>

lemma is_digit_nat_to_string: "list_all is_digit (nat_to_string n)"
  using nat_to_string_digits by (fastforce simp: list_all_iff is_digit_def)

lemma parse_i64_int_to_string:
  assumes "- (2 ^ 63) \<le> i" and "i < 2 ^ 63"
  shows "parse_i64 (int_to_string i) = Some i"
proof (cases "i < 0")
  case True
  then show ?thesis using assms
    by (simp add: parse_i64_def int_to_string_def is_digit_nat_to_string)
next
  case False
  obtain c cs where n: "nat_to_string (nat i) = c # cs" by (cases "nat_to_string (nat i)") auto
  then have "is_digit c" using is_digit_nat_to_string [of "nat i"] by simp
  then have "c \<noteq> CHR ''-''" "c \<noteq> CHR ''+''" by (auto simp: is_digit_def)
  moreover have "list_all is_digit (c # cs)" "string_to_nat (c # cs) = nat i"
    using is_digit_nat_to_string [of "nat i"] string_to_nat_to_string [of "nat i"] by (simp_all only: n)
  ultimately show ?thesis using assms False by (simp add: parse_i64_def int_to_string_def n)
qed

section \<open>The interface\<close>

locale credential_backend =
  fixes view :: "'s \<Rightarrow> memory"
    and st :: "'s store_fn" and gt :: "'s get_fn" and dl :: "'s delete_fn"
  assumes store_law: "st key val s = (r, s') \<Longrightarrow>
      (\<forall>q. q \<noteq> key \<longrightarrow> view s' q = view s q) \<and> (r = Inr () \<longrightarrow> view s' key = Some val)"
    and get_law: "gt key s = Inr v \<Longrightarrow> v = view s key"
    and delete_law: "dl key s = (r, s') \<Longrightarrow> (\<forall>q. q \<noteq> key \<longrightarrow> view s' q = view s q)
      \<and> view s' key \<in> {view s key, None} \<and> (r = Inr () \<longrightarrow> view s' key = None)"
begin

lemma store_view: "st key val s = (Inr (), s') \<Longrightarrow> view s' = (view s)(key \<mapsto> val)"
  using store_law [of key val s "Inr ()" s'] by auto

lemma store_all_view:
  "store_all st a rt u m x s = (Inr (), s') \<Longrightarrow> view s' = (view s)(ACCESS_TOKEN \<mapsto> a,
     REFRESH_TOKEN \<mapsto> rt, USER_ID \<mapsto> u, USER_EMAIL \<mapsto> m, TOKEN_EXPIRES_AT \<mapsto> int_to_string x)"
  by (auto simp: store_all_def and_then_def store_access_token_def store_refresh_token_def
      store_user_id_def store_user_email_def store_token_expires_at_def dest!: store_view
      split: prod.splits sum.splits)

lemma delete_each_view:
  "view (delete_each dl ks s) q \<in> {view s q, None} \<and> (q \<notin> set ks \<longrightarrow> view (delete_each dl ks s) q = view s q)
    \<and> (q \<in> set ks \<and> (\<forall>s. fst (dl q s) = Inr ()) \<longrightarrow> view (delete_each dl ks s) q = None)"
proof (induction ks arbitrary: s)
  case (Cons k ks)
  obtain r s1 where dl: "dl k s = (r, s1)" by fastforce
  from delete_law [OF dl] Cons.IH [of s1] dl show ?case
    by (cases "q = k") (auto, metis fst_conv)
qed simp

lemma session_reads:
  assumes "store_all st a rt u m x s = (Inr (), s')" and "- (2 ^ 63) \<le> x" "x < 2 ^ 63"
  shows "get_access_token gt s' = Inr v \<Longrightarrow> v = Some a"
    and "get_refresh_token gt s' = Inr v \<Longrightarrow> v = Some rt"
    and "get_user_id gt s' = Inr v \<Longrightarrow> v = Some u"
    and "get_user_email gt s' = Inr v \<Longrightarrow> v = Some m"
    and "get_token_expires_at gt s' = Inr i \<Longrightarrow> i = Some x"
    and "get_recovery_hash gt s' = Inr v \<Longrightarrow> v = view s RECOVERY_HASH"
  by (auto simp: get_access_token_def get_refresh_token_def get_user_id_def get_user_email_def
      get_token_expires_at_def get_recovery_hash_def store_all_view [OF assms(1)] credential_keys
      try_bind_eq_Inr parse_i64_int_to_string [OF assms(2,3)] dest!: get_law)

lemma session_login:
  "store_all st a rt u m x s = (Inr (), s') \<Longrightarrow> is_logged_in gt s' \<longleftrightarrow> (\<exists>v. gt ACCESS_TOKEN s' = Inr v)"
  by (auto simp: is_logged_in_def get_access_token_def store_all_view credential_keys
      dest!: get_law split: sum.splits)

lemma session_logout:
  assumes "clear_all dl s = (r, s')"
  shows "r = Inr () \<and> view s' RECOVERY_HASH = view s RECOVERY_HASH
    \<and> (\<forall>q. view s' q \<in> {view s q, None})
    \<and> ((\<forall>q s. fst (dl q s) = Inr ()) \<longrightarrow> (\<forall>q \<in> set keys_to_clear. view s' q = None) \<and> \<not> is_logged_in gt s')"
proof -
  have s': "s' = delete_each dl keys_to_clear s" and r: "r = Inr ()"
    using assms by (auto simp: clear_all_def)
  have rec: "RECOVERY_HASH \<notin> set keys_to_clear" and acc: "ACCESS_TOKEN \<in> set keys_to_clear"
    by (simp_all add: keys_to_clear_def credential_keys)
  have gone: "\<not> is_logged_in gt s'" if "view s' ACCESS_TOKEN = None"
    using that by (auto simp: is_logged_in_def get_access_token_def dest!: get_law split: sum.splits)
  with delete_each_view [of keys_to_clear s] rec acc show ?thesis by (simp add: s' r)
qed

end

interpretation mem: credential_backend "\<lambda>m. m" memory_store memory_get memory_delete
  by unfold_locales (auto simp: memory_store_def memory_get_def memory_delete_def)

section \<open>The keyring\<close>

text \<open>What the \<open>keyring\<close> crate documents of a store that holds one entry per service and key.\<close>

definition keyring_ok :: "'k keyring \<Rightarrow> ('k \<Rightarrow> string \<Rightarrow> memory) \<Rightarrow> bool" where
  "keyring_ok K held \<longleftrightarrow>
     (\<forall>sv key val s r s'. kr_set K sv key val s = (r, s') \<longrightarrow>
        (\<forall>q. q \<noteq> key \<longrightarrow> held s' sv q = held s sv q) \<and> (r = Inr () \<longrightarrow> held s' sv key = Some val))
   \<and> (\<forall>sv key s. kr_get K sv key s \<noteq> Inl CredAmbiguous
        \<and> (kr_get K sv key s = Inl CredNoEntry \<longrightarrow> held s sv key = None)
        \<and> (\<forall>v. kr_get K sv key s = Inr v \<longrightarrow> held s sv key = Some v))
   \<and> (\<forall>sv key s r s'. kr_del K sv key s = (r, s') \<longrightarrow>
        (\<forall>q. q \<noteq> key \<longrightarrow> held s' sv q = held s sv q) \<and> held s' sv key \<in> {held s sv key, None}
        \<and> (r = Inr () \<or> r = Inl CredNoEntry \<longrightarrow> held s' sv key = None))"

lemma keyring_backend:
  assumes "keyring_ok K held"
  shows "credential_backend (\<lambda>s. held s sv) (keyring_store K sv) (keyring_get K sv) (keyring_delete K sv)"
proof (unfold_locales, goal_cases)
  case (1 key val s r s')
  with assms show ?case
    by (auto simp: keyring_store_def keyring_ok_def split: option.splits prod.splits)
next
  case (2 key s v)
  with assms show ?case
    by (auto simp: keyring_get_def keyring_ok_def split: option.splits sum.splits credential_error.splits)
next
  case (3 key s r s')
  show ?case
  proof (cases "kr_entry K sv key s")
    case None
    obtain x s1 where del: "kr_del K sv key s = (x, s1)" by fastforce
    with assms have "(\<forall>q. q \<noteq> key \<longrightarrow> held s1 sv q = held s sv q) \<and> held s1 sv key \<in> {held s sv key, None}
        \<and> (x = Inr () \<or> x = Inl CredNoEntry \<longrightarrow> held s1 sv key = None)"
      unfolding keyring_ok_def by blast
    moreover have "s' = s1 \<and> (r = Inr () \<longrightarrow> x = Inr () \<or> x = Inl CredNoEntry)"
      using 3 None del by (auto simp: keyring_delete_def split: sum.splits credential_error.splits)
    ultimately show ?thesis by auto
  qed (use 3 in \<open>auto simp: keyring_delete_def\<close>)
qed

text \<open>An ambiguous entry is not the first of its values but none, so it also logs the user out.\<close>

lemma ambiguous_reads_as_absent:
  "kr_entry K sv key s = None \<Longrightarrow> kr_get K sv key s = Inl CredAmbiguous \<Longrightarrow> keyring_get K sv key s = Inr None"
  by (simp add: keyring_get_def)

text \<open>A logout reports success when nothing could be deleted.\<close>

lemma logout_hides_failure:
  "(\<forall>q s. dl q s = (Inl e, s)) \<Longrightarrow> clear_all dl s = (Inr (), s)"
  by (simp add: clear_all_def keys_to_clear_def)

text \<open>On a keyring that keeps what it documents: after a successful login every reader that does not
  fail returns what was stored, the expiry as the number it was, and the user is logged in exactly
  if the access token can be read; a logout reports success whatever happens, brings back no value and
  keeps the recovery hash, and when the keyring deletes what it is told to the session is gone.\<close>

theorem session_lifecycle:
  assumes "keyring_ok K held"
    and "store_all (keyring_store K sv) a rt u m x s = (Inr (), s1)" and "- (2 ^ 63) \<le> x" "x < 2 ^ 63"
    and "clear_all (keyring_delete K sv) s1 = (r, s2)"
  shows "get_access_token (keyring_get K sv) s1 \<in> {Inr (Some a)} \<union> range Inl
    \<and> get_refresh_token (keyring_get K sv) s1 \<in> {Inr (Some rt)} \<union> range Inl
    \<and> get_user_id (keyring_get K sv) s1 \<in> {Inr (Some u)} \<union> range Inl
    \<and> get_user_email (keyring_get K sv) s1 \<in> {Inr (Some m)} \<union> range Inl
    \<and> get_token_expires_at (keyring_get K sv) s1 \<in> {Inr (Some x)} \<union> range Inl
    \<and> (is_logged_in (keyring_get K sv) s1 \<longleftrightarrow> (\<exists>v. keyring_get K sv ACCESS_TOKEN s1 = Inr v))
    \<and> r = Inr () \<and> held s2 sv RECOVERY_HASH = held s sv RECOVERY_HASH
    \<and> ((\<forall>q s. fst (keyring_delete K sv q s) = Inr ()) \<longrightarrow>
         (\<forall>q \<in> set keys_to_clear. held s2 sv q = None) \<and> \<not> is_logged_in (keyring_get K sv) s2)"
proof -
  note be = keyring_backend [OF assms(1), of sv]
  have two: "y \<in> {Inr w} \<union> range Inl" if "\<And>v. y = Inr v \<Longrightarrow> v = w" for y :: "'z PasskeyResult" and w
    using that by (cases y) auto
  note reads = credential_backend.session_reads [OF be assms(2-4)]
  have "held s1 sv RECOVERY_HASH = held s sv RECOVERY_HASH"
    using credential_backend.store_all_view [OF be assms(2)] by (simp add: credential_keys)
  with credential_backend.session_logout [OF be assms(5)] credential_backend.session_login [OF be assms(2)]
  show ?thesis
    using reads(1-5) [THEN two] by simp
qed

definition demo_keyring :: "(string \<Rightarrow> memory) keyring" where
  "demo_keyring = \<lparr>kr_entry = \<lambda>_ _ _. None,
     kr_set = \<lambda>sv key val s. (Inr (), s(sv := (s sv)(key \<mapsto> val))),
     kr_get = \<lambda>sv key s. (case s sv key of None \<Rightarrow> Inl CredNoEntry | Some v \<Rightarrow> Inr v),
     kr_del = \<lambda>sv key s. (if s sv key = None then (Inl CredNoEntry, s) else (Inr (), s(sv := (s sv)(key := None)))),
     kr_text = \<lambda>_. []\<rparr>"

theorem session_lifecycle_witness:
  "\<exists>s1 s2. store_all (keyring_store demo_keyring ''app'') ''A'' ''R'' ''u'' ''m'' 99 (\<lambda>_. Map.empty) = (Inr (), s1)
    \<and> clear_all (keyring_delete demo_keyring ''app'') s1 = (Inr (), s2)
    \<and> get_token_expires_at (keyring_get demo_keyring ''app'') s1 \<in> {Inr (Some 99)} \<union> range Inl
    \<and> is_logged_in (keyring_get demo_keyring ''app'') s1 \<and> \<not> is_logged_in (keyring_get demo_keyring ''app'') s2"
proof -
  let ?st = "keyring_store demo_keyring ''app''" and ?gt = "keyring_get demo_keyring ''app''"
  let ?dl = "keyring_delete demo_keyring ''app''"
  have ok: "keyring_ok demo_keyring (\<lambda>s. s)"
    by (auto simp: keyring_ok_def demo_keyring_def split: option.splits if_splits)
  have "\<exists>s1. store_all ?st ''A'' ''R'' ''u'' ''m'' 99 (\<lambda>_. Map.empty) = (Inr (), s1)"
    by (simp add: store_all_def and_then_def store_access_token_def store_refresh_token_def
        store_user_id_def store_user_email_def store_token_expires_at_def keyring_store_def demo_keyring_def)
  then obtain s1 where s1: "store_all ?st ''A'' ''R'' ''u'' ''m'' 99 (\<lambda>_. Map.empty) = (Inr (), s1)" ..
  obtain s2 where s2: "clear_all ?dl s1 = (Inr (), s2)" by (simp add: clear_all_def)
  have "\<exists>v. ?gt ACCESS_TOKEN s1 = Inr v"
    by (simp add: keyring_get_def demo_keyring_def split: option.split)
  moreover have "\<forall>q s. fst (?dl q s) = Inr ()"
    by (simp add: keyring_delete_def demo_keyring_def)
  ultimately show ?thesis
    using session_lifecycle [OF ok s1 _ _ s2] s1 s2 by auto
qed

end
