(* ===== verification/Keywrap.thy ===== *)
theory Keywrap
  imports Crypto_Error Text Chunk_Encryption_Laws
begin

text \<open>
  \<open>passkey-core/src/keywrap.rs\<close>: sealing of key files under the Local Protection Key (LPK), and
  where that key comes from: the OS keyring, with a marker file recording that one was minted,
  or the headless secret.

  The state is \<open>lpk_state\<close>: the process cache, the OS keyring (of a type \<open>'w\<close> only its
  operations look into) and whether the marker file exists. What the process finds on its host
  is \<open>lpk_host\<close>: the keyring operations, base64, the configuration and whether the marker can be
  written (a failed write is only logged). Every function that resolves the key first looks
  at the test hooks of its thread; those branches are in \<open>Keywrap_Override\<close>.
  Texts of third-party errors appear where the parameter reports one.
\<close>

section \<open>Sealing\<close>

definition KEYWRAP_MAGIC :: bytes where
  "KEYWRAP_MAGIC = as_bytes ''GCKW0001''"

definition KW_NONCE_SIZE :: nat where
  "KW_NONCE_SIZE = 12"

definition is_wrapped :: "bytes \<Rightarrow> bool" where
  "is_wrapped dat \<longleftrightarrow> length KEYWRAP_MAGIC \<le> length dat \<and> take (length KEYWRAP_MAGIC) dat = KEYWRAP_MAGIC"

definition wrap_with_key :: "primitives \<Rightarrow> bytes \<Rightarrow> bytes \<Rightarrow> bytes \<Rightarrow> bytes PasskeyResult" where
  "wrap_with_key P drawn_nonce plaintext key =
     try_bind (ok_or (PasskeyError.Other ''at-rest cipher init failed: '') (aes_gcm_new P key)) (\<lambda>cipher.
     try_bind (ok_or (PasskeyError.Other ''at-rest seal failed: '')
                 (aead_seal cipher drawn_nonce [] plaintext)) (\<lambda>ciphertext.
     Inr (KEYWRAP_MAGIC @ drawn_nonce @ ciphertext)))"

definition unwrap_with_key :: "primitives \<Rightarrow> bytes \<Rightarrow> bytes \<Rightarrow> bytes PasskeyResult" where
  "unwrap_with_key P dat key =
     (if \<not> is_wrapped dat
      then Inl (PasskeyError.Other ''at-rest payload is not wrapped (missing magic header)'')
      else let body = drop (length KEYWRAP_MAGIC) dat
           in if length body < KW_NONCE_SIZE
              then Inl (PasskeyError.Other ''at-rest payload truncated (no nonce)'')
              else try_bind (ok_or (PasskeyError.Other ''at-rest cipher init failed: '') (aes_gcm_new P key))
                (\<lambda>cipher. ok_or (PasskeyError.Other ''at-rest open failed: wrong key or tampered data'')
                   (aead_open cipher (take KW_NONCE_SIZE body) [] (drop KW_NONCE_SIZE body))))"

section \<open>The host\<close>

definition LPK_MISSING_MARKER :: string where "LPK_MISSING_MARKER = ''LPK_MISSING''"
definition HEADLESS_LPK_ENV :: string where "HEADLESS_LPK_ENV = ''GITCELLAR_HEADLESS_LPK_SECRET''"
definition HEADLESS_LPK_FILE_ENV :: string where
  "HEADLESS_LPK_FILE_ENV = ''GITCELLAR_HEADLESS_LPK_SECRET_FILE''"
definition HEADLESS_LPK_MIN_LEN :: nat where "HEADLESS_LPK_MIN_LEN = 32"
definition HEADLESS_LPK_HKDF_SALT :: bytes where
  "HEADLESS_LPK_HKDF_SALT = as_bytes ''gitcellar-headless-lpk-salt/v1''"
definition HEADLESS_LPK_HKDF_INFO :: bytes where
  "HEADLESS_LPK_HKDF_INFO = as_bytes ''gitcellar-headless-lpk/v1''"

datatype LpkSource = OsKeyring | Headless

datatype LpkMode = Open | Seal | Remint

datatype keyring_error = NoEntry | KeyringFailure string

record 'w lpk_host =
  lh_persistent :: bool
  lh_prim :: primitives
  lh_uni :: unicode
  lh_b64_encode :: "bytes \<Rightarrow> string"
  lh_b64_decode :: "string \<Rightarrow> string + bytes"
  lh_entry_new :: "string + unit"
  lh_get_password :: "'w \<Rightarrow> keyring_error + string"
  lh_set_password :: "string \<Rightarrow> 'w \<Rightarrow> (string + unit) \<times> 'w"
  lh_marker_path :: string
  lh_marker_writable :: bool
  lh_secret :: "string option"
  lh_secret_file :: "string option"
  lh_read_file :: "string \<Rightarrow> string + string"

record 'w lpk_state =
  ls_cache :: "(bytes \<times> LpkSource) option"
  ls_ring :: 'w
  ls_marker :: bool

section \<open>The headless secret\<close>

definition derive_headless_lpk :: "primitives \<Rightarrow> unicode \<Rightarrow> string \<Rightarrow> panic + bytes" where
  "derive_headless_lpk P U raw =
     ok_or (ExpectFailed ''32 bytes is a valid HKDF-SHA256 output length'')
       (hkdf_sha256 P (Some HEADLESS_LPK_HKDF_SALT) (as_bytes (trim U raw)) HEADLESS_LPK_HKDF_INFO 32)"

definition not_blank :: "unicode \<Rightarrow> string option \<Rightarrow> string option" where
  "not_blank U v = (case v of Some s \<Rightarrow> if trim U s = [] then None else Some s | None \<Rightarrow> None)"

definition headless_lpk_from ::
    "primitives \<Rightarrow> unicode \<Rightarrow> string option \<Rightarrow> string option \<Rightarrow> (string \<Rightarrow> string + string)
     \<Rightarrow> panic + bytes option PasskeyResult" where
  "headless_lpk_from P U secret_opt file_opt read_file =
     (let source = (case (not_blank U secret_opt, not_blank U file_opt) of
          (None, None) \<Rightarrow> Inr None
        | (Some _, Some _) \<Rightarrow> Inl (CredentialStore
            (''both '' @ HEADLESS_LPK_ENV @ '' and '' @ HEADLESS_LPK_FILE_ENV
             @ '' are set; set exactly one''))
        | (Some v, None) \<Rightarrow> Inr (Some (v, HEADLESS_LPK_ENV))
        | (None, Some path) \<Rightarrow>
            (let path = trim U path
             in try_bind (map_err (\<lambda>e. CredentialStore (HEADLESS_LPK_FILE_ENV @ '' names '' @ path
                    @ '', which could not be read: '' @ e)) (read_file path)) (\<lambda>v.
                Inr (Some (v, HEADLESS_LPK_FILE_ENV @ '' ('' @ path @ '')'')))))
      in case source of
           Inl e \<Rightarrow> Inr (Inl e)
         | Inr None \<Rightarrow> Inr (Inr None)
         | Inr (Some (raw, origin)) \<Rightarrow>
             (let len = length (utf8_chars (trim U raw))
              in if len < HEADLESS_LPK_MIN_LEN
                 then Inr (Inl (CredentialStore (''the headless LPK secret from '' @ origin
                   @ '' is too short ('' @ nat_to_string len @ '' chars; at least ''
                   @ nat_to_string HEADLESS_LPK_MIN_LEN @ '' required)'')))
                 else try_bind (derive_headless_lpk P U raw) (\<lambda>key. Inr (Inr (Some key)))))"

definition headless_lpk_from_env :: "'w lpk_host \<Rightarrow> panic + bytes option PasskeyResult" where
  "headless_lpk_from_env h =
     headless_lpk_from (lh_prim h) (lh_uni h) (lh_secret h) (lh_secret_file h) (lh_read_file h)"

section \<open>The OS keyring\<close>

definition lpk_get :: "'w lpk_host \<Rightarrow> 'w \<Rightarrow> string + string option" where
  "lpk_get h w =
     (case lh_get_password h w of
        Inr v \<Rightarrow> Inr (Some v)
      | Inl NoEntry \<Rightarrow> Inr None
      | Inl (KeyringFailure e) \<Rightarrow> Inl e)"

definition lpk_set :: "'w lpk_host \<Rightarrow> string \<Rightarrow> 'w \<Rightarrow> (string + unit) \<times> 'w" where
  "lpk_set h b64 w = lh_set_password h b64 w"

definition lpk_decode :: "'w lpk_host \<Rightarrow> string \<Rightarrow> bytes PasskeyResult" where
  "lpk_decode h b64 =
     try_bind (map_err (\<lambda>e. CredentialStore (''LPK decode failed: '' @ e))
                 (lh_b64_decode h (trim (lh_uni h) b64))) (\<lambda>raw.
     if length raw = 32 then Inr raw else Inl (CredentialStore ''LPK is not 32 bytes''))"

definition write_minted_marker :: "'w lpk_host \<Rightarrow> 'w lpk_state \<Rightarrow> 'w lpk_state" where
  "write_minted_marker h s = (if lh_marker_writable h then s\<lparr>ls_marker := True\<rparr> else s)"

text \<open>\<open>drawn\<close> is the key the random generator would give.\<close>

definition mint_lpk :: "'w lpk_host \<Rightarrow> bytes \<Rightarrow> 'w lpk_state \<Rightarrow> bytes PasskeyResult \<times> 'w lpk_state" where
  "mint_lpk h drawn s =
     (case lpk_set h (lh_b64_encode h drawn) (ls_ring s) of
        (Inl e, w) \<Rightarrow> (Inl (CredentialStore (''LPK persist failed: '' @ e)), s\<lparr>ls_ring := w\<rparr>)
      | (Inr _, w) \<Rightarrow>
          (let s = s\<lparr>ls_ring := w\<rparr>;
               key = (case lpk_get h w of Inr (Some b64) \<Rightarrow> lpk_decode h b64 | _ \<Rightarrow> Inr drawn)
           in case key of
                Inl e \<Rightarrow> (Inl e, s)
              | Inr k \<Rightarrow> (Inr k, write_minted_marker h s)))"

definition lpk_missing_on_open :: PasskeyError where
  "lpk_missing_on_open = CredentialStore (LPK_MISSING_MARKER
     @ '': the Local Protection Key is missing from the OS ''
     @ ''credential store, so data sealed under it cannot be opened. It was not ''
     @ ''re-created: a new key cannot open what the lost one sealed.'')"

definition lpk_missing_on_seal :: "'w lpk_host \<Rightarrow> PasskeyError" where
  "lpk_missing_on_seal h = CredentialStore (LPK_MISSING_MARKER
     @ '': the Local Protection Key minted for this install ('' @ lh_marker_path h
     @ '') is missing from the OS credential store. Refusing to mint a replacement silently ''
     @ em_dash @ '' everything sealed under the lost key would become unreadable without ''
     @ ''notice. Restore the identity from its recovery phrase.'')"

definition resolve_lpk ::
    "'w lpk_host \<Rightarrow> LpkMode \<Rightarrow> bytes \<Rightarrow> 'w lpk_state \<Rightarrow> bytes PasskeyResult \<times> 'w lpk_state" where
  "resolve_lpk h mode drawn s =
     (case lpk_get h (ls_ring s) of
        Inl e \<Rightarrow> (Inl (CredentialStore (''LPK retrieval failed: '' @ e)), s)
      | Inr (Some b64) \<Rightarrow>
          (case lpk_decode h b64 of
             Inl e \<Rightarrow> (Inl e, s)
           | Inr key \<Rightarrow> (Inr key, if ls_marker s then s else write_minted_marker h s))
      | Inr None \<Rightarrow>
          if mode = Open
          then (Inl lpk_missing_on_open, s)
          else if mode = Seal \<and> ls_marker s
          then (Inl (lpk_missing_on_seal h), s)
          else mint_lpk h drawn s)"

section \<open>Choosing the source\<close>

definition how_to :: string where
  "how_to = ''Set '' @ HEADLESS_LPK_ENV @ '' (or '' @ HEADLESS_LPK_FILE_ENV
     @ '', a file holding it) to a secret of at least '' @ nat_to_string HEADLESS_LPK_MIN_LEN
     @ '' characters that this host keeps; every process that ''
     @ ''opens the same keys needs the same value. Nothing was written.''"

definition choose_lpk ::
    "bool \<Rightarrow> ('s \<Rightarrow> bytes PasskeyResult \<times> 's) \<Rightarrow> (panic + bytes option PasskeyResult) \<Rightarrow> 's
     \<Rightarrow> (panic + (bytes \<times> LpkSource) PasskeyResult) \<times> 's" where
  "choose_lpk os_persistent os headless s =
     (if \<not> os_persistent
      then (case headless of
              Inl p \<Rightarrow> Inl p
            | Inr (Inl e) \<Rightarrow> Inr (Inl e)
            | Inr (Inr (Some key)) \<Rightarrow> Inr (Inr (key, Headless))
            | Inr (Inr None) \<Rightarrow> Inr (Inl (CredentialStore
                (''no persistent place for the at-rest Local Protection Key: this host's OS ''
                 @ ''keyring (Linux kernel keyutils) forgets it at logout, reboot or container ''
                 @ ''restart, so it is not used. '' @ how_to))), s)
      else case os s of
        (Inr key, s') \<Rightarrow> (Inr (Inr (key, OsKeyring)), s')
      | (Inl os_err, s') \<Rightarrow>
          if contains_str LPK_MISSING_MARKER (passkey_error_text os_err) then (Inr (Inl os_err), s')
          else (case headless of
                  Inl p \<Rightarrow> Inl p
                | Inr (Inl e) \<Rightarrow> Inr (Inl e)
                | Inr (Inr (Some key)) \<Rightarrow> Inr (Inr (key, Headless))
                | Inr (Inr None) \<Rightarrow> Inr (Inl (CredentialStore
                    (''the OS keyring is unavailable for the at-rest Local Protection Key (''
                     @ passkey_error_text os_err @ ''). '' @ how_to))), s'))"

definition resolve_host_lpk ::
    "'w lpk_host \<Rightarrow> LpkMode \<Rightarrow> bytes \<Rightarrow> 'w lpk_state
     \<Rightarrow> (panic + (bytes \<times> LpkSource) PasskeyResult) \<times> 'w lpk_state" where
  "resolve_host_lpk h mode drawn s =
     choose_lpk (lh_persistent h)
       (\<lambda>s. case lh_entry_new h of
          Inl e \<Rightarrow> (Inl (CredentialStore (''LPK entry init failed: '' @ e)), s)
        | Inr _ \<Rightarrow> resolve_lpk h mode drawn s)
       (headless_lpk_from_env h) s"

definition cached_lpk ::
    "'w lpk_host \<Rightarrow> LpkMode \<Rightarrow> bytes \<Rightarrow> 'w lpk_state
     \<Rightarrow> (panic + bytes PasskeyResult) \<times> 'w lpk_state" where
  "cached_lpk h mode drawn s =
     (case ls_cache s of
        Some (cached, _) \<Rightarrow> (Inr (Inr cached), s)
      | None \<Rightarrow>
          (case resolve_host_lpk h mode drawn s of
             (Inr (Inr (key, source)), s') \<Rightarrow> (Inr (Inr key), s'\<lparr>ls_cache := Some (key, source)\<rparr>)
           | (Inr (Inl e), s') \<Rightarrow> (Inr (Inl e), s')
           | (Inl p, s') \<Rightarrow> (Inl p, s')))"

definition local_protection_key ::
    "'w lpk_host \<Rightarrow> bytes \<Rightarrow> 'w lpk_state \<Rightarrow> (panic + bytes PasskeyResult) \<times> 'w lpk_state" where
  "local_protection_key h drawn s = cached_lpk h Seal drawn s"

definition local_protection_source ::
    "'w lpk_host \<Rightarrow> bytes \<Rightarrow> 'w lpk_state \<Rightarrow> (panic + LpkSource PasskeyResult) \<times> 'w lpk_state" where
  "local_protection_source h drawn s =
     (case cached_lpk h Seal drawn s of
        (Inl p, s') \<Rightarrow> (Inl p, s')
      | (Inr (Inl e), s') \<Rightarrow> (Inr (Inl e), s')
      | (Inr (Inr _), s') \<Rightarrow>
          (Inr (Inr (case ls_cache s' of Some (_, source) \<Rightarrow> source | None \<Rightarrow> OsKeyring)), s'))"

definition remint_local_protection_key ::
    "'w lpk_host \<Rightarrow> bytes \<Rightarrow> 'w lpk_state \<Rightarrow> (panic + unit PasskeyResult) \<times> 'w lpk_state" where
  "remint_local_protection_key h drawn s =
     (case resolve_host_lpk h Remint drawn s of
        (Inr (Inr (key, source)), s') \<Rightarrow> (Inr (Inr ()), s'\<lparr>ls_cache := Some (key, source)\<rparr>)
      | (Inr (Inl e), s') \<Rightarrow> (Inr (Inl e), s')
      | (Inl p, s') \<Rightarrow> (Inl p, s'))"

definition wrap_at_rest ::
    "'w lpk_host \<Rightarrow> bytes \<Rightarrow> bytes \<Rightarrow> bytes \<Rightarrow> 'w lpk_state
     \<Rightarrow> (panic + bytes PasskeyResult) \<times> 'w lpk_state" where
  "wrap_at_rest h drawn drawn_nonce plaintext s =
     (case local_protection_key h drawn s of
        (Inl p, s') \<Rightarrow> (Inl p, s')
      | (Inr key, s') \<Rightarrow>
          (Inr (try_bind key (wrap_with_key (lh_prim h) drawn_nonce plaintext)), s'))"

definition unwrap_at_rest ::
    "'w lpk_host \<Rightarrow> bytes \<Rightarrow> bytes \<Rightarrow> 'w lpk_state
     \<Rightarrow> (panic + bytes PasskeyResult) \<times> 'w lpk_state" where
  "unwrap_at_rest h drawn dat s =
     (if \<not> is_wrapped dat then (Inr (Inr dat), s)
      else case cached_lpk h Open drawn s of
        (Inl p, s') \<Rightarrow> (Inl p, s')
      | (Inr key, s') \<Rightarrow> (Inr (try_bind key (unwrap_with_key (lh_prim h) dat)), s'))"

end
