(* ===== verification/Keystore.thy ===== *)
theory Keystore
  imports Keywrap Certs File_System
begin

text \<open>
  \<open>gitcellar-crypto/src/keystore.rs\<close>: the device key and its certificates in the identity
  directory, with the seed sealed at rest.

  The state is the key store with its cached public key, the file tree and whatever the sealer
  uses (the state \<open>'l\<close>, for the production sealer \<open>lpk_state\<close> of \<open>Keywrap\<close>). Signing is the
  parameter \<open>ed25519\<close>, CBOR the parameter \<open>cbor\<close>; \<open>drawn\<close> is the seed the random generator gives.
  An error of \<open>KeystoreError::Cert\<close> or \<open>SealUnavailable\<close> holds the error whose text it interpolates.
  The wiping of buffers is not modelled. The build is the one with the \<open>keyring\<close> feature.
\<close>

section \<open>Definitions\<close>

definition DEVICE_PRIVATE_FILENAME :: string where "DEVICE_PRIVATE_FILENAME = ''device.key.bin''"
definition DEVICE_PUBLIC_FILENAME :: string where "DEVICE_PUBLIC_FILENAME = ''device.pub.bin''"
definition DEVICE_CERT_FILENAME :: string where "DEVICE_CERT_FILENAME = ''device-cert.bin''"
definition MASTER_PUBLIC_FILENAME :: string where "MASTER_PUBLIC_FILENAME = ''master.pub.bin''"

datatype KeystoreError =
    Unavailable
  | SealUnavailable PasskeyError
  | NotInitialized
  | NoCertificate
  | NoMasterPubkey
  | KsIo io_error
  | InvalidKey string
  | KsCert CertError

type_synonym 'a KeystoreResult = "KeystoreError + 'a"

text \<open>The production sealer and opener, on the state of the Local Protection Key.\<close>

type_synonym ('l, 'a) sealing = "'l \<Rightarrow> (panic + 'a KeystoreResult) \<times> 'l"

definition try_seal_device_seed_at_rest ::
    "'w lpk_host \<Rightarrow> bytes \<Rightarrow> bytes \<Rightarrow> bytes \<Rightarrow> ('w lpk_state, bytes) sealing" where
  "try_seal_device_seed_at_rest h drawn drawn_nonce seed s =
     (case wrap_at_rest h drawn drawn_nonce seed s of
        (Inl p, s') \<Rightarrow> (Inl p, s')
      | (Inr r, s') \<Rightarrow> (Inr (map_err SealUnavailable r), s'))"

definition open_device_seed_at_rest ::
    "'w lpk_host \<Rightarrow> bytes \<Rightarrow> bytes \<Rightarrow> ('w lpk_state, bytes) sealing" where
  "open_device_seed_at_rest h drawn raw s =
     (if is_wrapped raw
      then (case unwrap_at_rest h drawn raw s of
              (Inl p, s') \<Rightarrow> (Inl p, s')
            | (Inr r, s') \<Rightarrow>
                (Inr (map_err (\<lambda>e. InvalidKey (''device seed at-rest open failed: '' @ passkey_error_text e)) r), s'))
      else (Inr (Inr raw), s))"

definition signing_key_from_seed :: "bytes \<Rightarrow> bytes KeystoreResult" where
  "signing_key_from_seed seed =
     (if length seed = 32 then Inr seed else Inl (InvalidKey ''device private key is not 32 bytes''))"

text \<open>The sealer is a field of the key store; the opener is fixed by the module.\<close>

record 'l FileSystemKeystore =
  identity_dir :: "component list"
  cached_pubkey :: "bytes option"
  sealer :: "bytes \<Rightarrow> ('l, bytes) sealing"

definition keystore_with_sealer :: "component list \<Rightarrow> (bytes \<Rightarrow> ('l, bytes) sealing) \<Rightarrow> 'l FileSystemKeystore" where
  "keystore_with_sealer d sl = \<lparr>identity_dir = d, cached_pubkey = None, sealer = sl\<rparr>"

definition keystore_new ::
    "'w lpk_host \<Rightarrow> bytes \<Rightarrow> bytes \<Rightarrow> component list \<Rightarrow> 'w lpk_state FileSystemKeystore" where
  "keystore_new h drawn drawn_nonce d = keystore_with_sealer d (try_seal_device_seed_at_rest h drawn drawn_nonce)"

definition ks_io :: "io_error + 'a \<Rightarrow> 'a KeystoreResult" where
  "ks_io = map_err KsIo"

definition ensure_dir :: "faults \<Rightarrow> 'l FileSystemKeystore \<Rightarrow> tree \<Rightarrow> unit KeystoreResult \<times> tree" where
  "ensure_dir F ks t = (case create_dir_all F t [] (identity_dir ks) of (r, t') \<Rightarrow> (ks_io r, t'))"

definition private_path :: "'l FileSystemKeystore \<Rightarrow> component list" where
  "private_path ks = identity_dir ks @ [Normal DEVICE_PRIVATE_FILENAME]"

definition public_path :: "'l FileSystemKeystore \<Rightarrow> component list" where
  "public_path ks = identity_dir ks @ [Normal DEVICE_PUBLIC_FILENAME]"

definition cert_path :: "'l FileSystemKeystore \<Rightarrow> component list" where
  "cert_path ks = identity_dir ks @ [Normal DEVICE_CERT_FILENAME]"

definition master_pub_path :: "'l FileSystemKeystore \<Rightarrow> component list" where
  "master_pub_path ks = identity_dir ks @ [Normal MASTER_PUBLIC_FILENAME]"

definition read_signing_key ::
    "faults \<Rightarrow> (bytes \<Rightarrow> ('l, bytes) sealing) \<Rightarrow> 'l FileSystemKeystore \<Rightarrow> tree \<Rightarrow> ('l, bytes) sealing" where
  "read_signing_key F opener ks t s =
     (if stat F t (private_path ks) = None then (Inr (Inl NotInitialized), s)
      else case ks_io (read_file F t (private_path ks)) of
        Inl e \<Rightarrow> (Inr (Inl e), s)
      | Inr raw \<Rightarrow> (case opener raw s of
            (Inl p, s') \<Rightarrow> (Inl p, s')
          | (Inr r, s') \<Rightarrow> (Inr (try_bind r signing_key_from_seed), s')))"

text \<open>The temporary file has the name of the target, a file name, and \<open>.tmp\<close>.\<close>

definition tmp_path :: "component list \<Rightarrow> component list" where
  "tmp_path target = butlast target @
     [Normal ((case last target of Normal n \<Rightarrow> n | _ \<Rightarrow> ''file'') @ ''.tmp'')]"

definition write_atomic :: "faults \<Rightarrow> component list \<Rightarrow> bytes \<Rightarrow> tree \<Rightarrow> unit KeystoreResult \<times> tree" where
  "write_atomic F target contents t =
     (case write_file F t (tmp_path target) contents of
        (Inl e, t1) \<Rightarrow> (Inl (KsIo e), t1)
      | (Inr _, t1) \<Rightarrow> (case rename_file F t1 (tmp_path target) target of
            (Inl e, t2) \<Rightarrow> (Inl (KsIo e), t2)
          | (Inr _, t2) \<Rightarrow> (ks_io (set_mode F t2 target), t2)))"

definition available :: "'l FileSystemKeystore \<Rightarrow> bool" where
  "available ks \<longleftrightarrow> True"

definition read_key :: "faults \<Rightarrow> ed25519 \<Rightarrow> component list \<Rightarrow> KeystoreError \<Rightarrow> string \<Rightarrow> tree \<Rightarrow> bytes KeystoreResult" where
  "read_key F D path absent bad t =
     (if stat F t path = None then Inl absent
      else try_bind (ks_io (read_file F t path)) (\<lambda>arr.
        if length arr \<noteq> 32 then Inl (InvalidKey bad)
        else try_bind (map_err InvalidKey (ed_parse D arr)) (\<lambda>_. Inr arr)))"

definition export_pubkey :: "faults \<Rightarrow> ed25519 \<Rightarrow> 'l FileSystemKeystore \<Rightarrow> tree \<Rightarrow> bytes KeystoreResult" where
  "export_pubkey F D ks t =
     (case cached_pubkey ks of
        Some p \<Rightarrow> Inr p
      | None \<Rightarrow> read_key F D (public_path ks) NotInitialized ''device public key is not 32 bytes'' t)"

text \<open>Generation, from where no complete keypair was found.\<close>

definition generate_fresh ::
    "faults \<Rightarrow> ed25519 \<Rightarrow> bytes \<Rightarrow> 'l FileSystemKeystore \<Rightarrow> tree \<Rightarrow> 'l
     \<Rightarrow> (panic + bytes KeystoreResult) \<times> 'l FileSystemKeystore \<times> tree \<times> 'l" where
  "generate_fresh F D drawn ks t s =
     (let pubkey = ed_public D drawn
      in case sealer ks drawn s of
        (Inl p, s') \<Rightarrow> (Inl p, ks, t, s')
      | (Inr (Inl e), s') \<Rightarrow> (Inr (Inl e), ks, t, s')
      | (Inr (Inr sealed), s') \<Rightarrow>
          (case write_atomic F (private_path ks) sealed t of
             (Inl e, t2) \<Rightarrow> (Inr (Inl e), ks, t2, s')
           | (Inr _, t2) \<Rightarrow>
               (case write_atomic F (public_path ks) pubkey t2 of
                  (Inl e, t3) \<Rightarrow> (Inr (Inl e), ks, t3, s')
                | (Inr _, t3) \<Rightarrow> (Inr (Inr pubkey), ks\<lparr>cached_pubkey := Some pubkey\<rparr>, t3, s'))))"

definition generate_device_keypair ::
    "faults \<Rightarrow> ed25519 \<Rightarrow> bytes \<Rightarrow> 'l FileSystemKeystore \<Rightarrow> tree \<Rightarrow> 'l
     \<Rightarrow> (panic + bytes KeystoreResult) \<times> 'l FileSystemKeystore \<times> tree \<times> 'l" where
  "generate_device_keypair F D drawn ks t s =
     (case ensure_dir F ks t of
        (Inl e, t1) \<Rightarrow> (Inr (Inl e), ks, t1, s)
      | (Inr _, t1) \<Rightarrow>
          if stat F t1 (private_path ks) \<noteq> None \<and> stat F t1 (public_path ks) \<noteq> None
          then (Inr (export_pubkey F D ks t1), ks, t1, s)
          else generate_fresh F D drawn ks t1 s)"

definition keystore_sign ::
    "faults \<Rightarrow> ed25519 \<Rightarrow> (bytes \<Rightarrow> ('l, bytes) sealing) \<Rightarrow> 'l FileSystemKeystore \<Rightarrow> tree \<Rightarrow> bytes
     \<Rightarrow> ('l, bytes) sealing" where
  "keystore_sign F D opener ks t message s =
     (case read_signing_key F opener ks t s of
        (Inl p, s') \<Rightarrow> (Inl p, s')
      | (Inr r, s') \<Rightarrow> (Inr (try_bind r (\<lambda>seed. Inr (ed_sign D seed message))), s'))"

definition export_cert :: "faults \<Rightarrow> cbor \<Rightarrow> 'l FileSystemKeystore \<Rightarrow> tree \<Rightarrow> DeviceCertificate KeystoreResult" where
  "export_cert F B ks t =
     (if stat F t (cert_path ks) = None then Inl NoCertificate
      else try_bind (ks_io (read_file F t (cert_path ks))) (\<lambda>raw. map_err KsCert (device_from_cbor B raw)))"

definition import_cert ::
    "faults \<Rightarrow> cbor \<Rightarrow> 'l FileSystemKeystore \<Rightarrow> DeviceCertificate \<Rightarrow> tree \<Rightarrow> unit KeystoreResult \<times> tree" where
  "import_cert F B ks cert t =
     (case ensure_dir F ks t of
        (Inl e, t1) \<Rightarrow> (Inl e, t1)
      | (Inr _, t1) \<Rightarrow> (case map_err KsCert (device_to_cbor B cert) of
            Inl e \<Rightarrow> (Inl e, t1)
          | Inr raw \<Rightarrow> write_atomic F (cert_path ks) raw t1))"

definition export_master_pubkey :: "faults \<Rightarrow> ed25519 \<Rightarrow> 'l FileSystemKeystore \<Rightarrow> tree \<Rightarrow> bytes KeystoreResult" where
  "export_master_pubkey F D ks t =
     read_key F D (master_pub_path ks) NoMasterPubkey ''master public key is not 32 bytes'' t"

definition import_master_pubkey ::
    "faults \<Rightarrow> ed25519 \<Rightarrow> 'l FileSystemKeystore \<Rightarrow> bytes \<Rightarrow> tree \<Rightarrow> unit KeystoreResult \<times> tree" where
  "import_master_pubkey F D ks master_pubkey t =
     (case ensure_dir F ks t of
        (Inl e, t1) \<Rightarrow> (Inl e, t1)
      | (Inr _, t1) \<Rightarrow> (case map_err InvalidKey (ed_parse D master_pubkey) of
            Inl e \<Rightarrow> (Inl e, t1)
          | Inr _ \<Rightarrow> write_atomic F (master_pub_path ks) master_pubkey t1))"

end
