(* ===== verification/Keywrap_Laws.thy ===== *)
theory Keywrap_Laws
  imports Keywrap Grant_Laws
begin

text \<open>
  The theorems about sealing at rest: what opens, that what one process seals the next one
  opens, and that a lost Local Protection Key is reported rather than replaced.
\<close>

section \<open>Sealing\<close>

definition gcm_ok :: "primitives \<Rightarrow> bool" where
  "gcm_ok P \<longleftrightarrow> (\<forall>k c. aes_gcm_new P k = Some c \<longrightarrow> aead_ok c)"

lemma length_magic [simp]: "length KEYWRAP_MAGIC = 8"
  by (simp add: KEYWRAP_MAGIC_def)

lemma is_wrapped_append [simp]: "is_wrapped (KEYWRAP_MAGIC @ xs)"
  by (simp add: is_wrapped_def)

lemma is_wrapped_iff: "is_wrapped dat \<longleftrightarrow> (\<exists>xs. dat = KEYWRAP_MAGIC @ xs)"
proof
  assume "is_wrapped dat"
  then have "dat = KEYWRAP_MAGIC @ drop 8 dat"
    unfolding is_wrapped_def using append_take_drop_id [of 8 dat] by simp
  then show "\<exists>xs. dat = KEYWRAP_MAGIC @ xs" by blast
qed auto

lemma wrap_with_key_eq_Inr:
  "wrap_with_key P n p key = Inr blob \<longleftrightarrow>
     (\<exists>c ct. aes_gcm_new P key = Some c \<and> aead_seal c n [] p = Some ct
        \<and> blob = KEYWRAP_MAGIC @ n @ ct)"
  by (auto simp: wrap_with_key_def try_bind_eq_Inr)

lemma unwrap_with_key_eq_Inr:
  "unwrap_with_key P blob key = Inr p \<longleftrightarrow>
     (\<exists>c n ct. aes_gcm_new P key = Some c \<and> length n = 12 \<and> aead_open c n [] ct = Some p
        \<and> blob = KEYWRAP_MAGIC @ n @ ct)"
proof
  assume "unwrap_with_key P blob key = Inr p"
  then obtain xs c where blob: "blob = KEYWRAP_MAGIC @ xs" and len: "12 \<le> length xs"
    and c: "aes_gcm_new P key = Some c" "aead_open c (take 12 xs) [] (drop 12 xs) = Some p"
    by (auto simp: unwrap_with_key_def try_bind_eq_Inr is_wrapped_iff KW_NONCE_SIZE_def not_less
        split: if_splits)
  show "\<exists>c n ct. aes_gcm_new P key = Some c \<and> length n = 12 \<and> aead_open c n [] ct = Some p
        \<and> blob = KEYWRAP_MAGIC @ n @ ct"
    by (rule exI [of _ c], rule exI [of _ "take 12 xs"], rule exI [of _ "drop 12 xs"])
       (use blob len c in simp)
next
  assume "\<exists>c n ct. aes_gcm_new P key = Some c \<and> length n = 12 \<and> aead_open c n [] ct = Some p
        \<and> blob = KEYWRAP_MAGIC @ n @ ct"
  then show "unwrap_with_key P blob key = Inr p"
    by (auto simp: unwrap_with_key_def KW_NONCE_SIZE_def)
qed

lemma unwrap_wrap:
  assumes "gcm_ok P"
  shows "unwrap_with_key P blob key = Inr p \<longleftrightarrow>
            (\<exists>n. length n = 12 \<and> wrap_with_key P n p key = Inr blob)"
proof -
  have "aes_gcm_new P key = Some c \<Longrightarrow> aead_open c n [] ct = Some p \<longleftrightarrow> aead_seal c n [] p = Some ct"
    for c n ct
    using assms by (auto simp: gcm_ok_def aead_open_iff)
  then show ?thesis
    unfolding unwrap_with_key_eq_Inr wrap_with_key_eq_Inr by blast
qed

text \<open>A payload opens under a key exactly if it is the sealing of the plaintext it opens to,
  under that key and some nonce; sealing always writes the header, and a payload without it is
  refused by the keyed opener and returned unchanged, with no key resolved, by the at-rest one.\<close>

theorem seal_opens_exactly:
  assumes "gcm_ok P"
  shows "(unwrap_with_key P blob key = Inr p \<longleftrightarrow>
            (\<exists>n. length n = 12 \<and> wrap_with_key P n p key = Inr blob))
    \<and> (wrap_with_key P n q key = Inr blob \<longrightarrow> is_wrapped blob)
    \<and> (\<not> is_wrapped raw \<longrightarrow>
         unwrap_with_key P raw key
           = Inl (PasskeyError.Other ''at-rest payload is not wrapped (missing magic header)'')
         \<and> unwrap_at_rest h drawn raw s = (Inr (Inr raw), s))"
  using unwrap_wrap [OF assms]
  by (auto simp: wrap_with_key_eq_Inr unwrap_with_key_def unwrap_at_rest_def)

definition demo_prim :: primitives where
  "demo_prim = ev_prim demo_env"

lemma demo_gcm_ok: "gcm_ok demo_prim"
  by (simp add: gcm_ok_def demo_prim_def demo_env_def demo_aead_ok)

theorem seal_opens_exactly_witness:
  "unwrap_with_key demo_prim (KEYWRAP_MAGIC @ replicate 12 0 @ [7] @ demo_tag [] [7]) [1] = Inr [7]
   \<and> is_wrapped (KEYWRAP_MAGIC @ replicate 12 0 @ [7] @ demo_tag [] [7])"
proof -
  have wrap: "wrap_with_key demo_prim (replicate 12 0) [7] [1]
      = Inr (KEYWRAP_MAGIC @ replicate 12 0 @ [7] @ demo_tag [] [7])"
    by (simp add: wrap_with_key_def demo_prim_def demo_env_def demo_aead_def)
  then have "\<exists>n. length n = 12 \<and> wrap_with_key demo_prim n [7] [1]
      = Inr (KEYWRAP_MAGIC @ replicate 12 0 @ [7] @ demo_tag [] [7])"
    by (intro exI [of _ "replicate 12 0"]) simp
  with seal_opens_exactly [OF demo_gcm_ok] wrap show ?thesis by blast
qed

section \<open>The keyring as a store\<close>

text \<open>What \<open>LpkStore\<close> promises \<open>resolve_lpk\<close>: what was set is what is read.\<close>

locale lpk_store =
  fixes lawful :: "'h \<Rightarrow> bool"
    and get :: "'h \<Rightarrow> 'w \<Rightarrow> string + string option"
    and put :: "'h \<Rightarrow> string \<Rightarrow> 'w \<Rightarrow> (string + unit) \<times> 'w"
  assumes get_put: "lawful h \<Longrightarrow> put h b w = (Inr (), w') \<Longrightarrow> get h w' = Inr (Some b)"
begin

lemma put_not_missing: "lawful h \<Longrightarrow> put h b w = (Inr (), w') \<Longrightarrow> get h w' \<noteq> Inr None"
  by (simp add: get_put)

lemma last_put:
  "lawful h \<Longrightarrow> put h a w = (Inr (), w') \<Longrightarrow> put h b w' = (Inr (), w'') \<Longrightarrow> get h w'' = Inr (Some b)"
  by (rule get_put)

end

definition host_ok :: "'w lpk_host \<Rightarrow> bool" where
  "host_ok h \<longleftrightarrow>
     (\<forall>b w w'. lh_set_password h b w = (Inr (), w') \<longrightarrow> lh_get_password h w' = Inr b)
     \<and> (\<forall>b. lh_b64_decode h (trim (lh_uni h) (lh_b64_encode h b)) = Inr b)"

interpretation keyring: lpk_store host_ok lpk_get lpk_set
  by unfold_locales (simp add: lpk_get_def lpk_set_def host_ok_def)

lemma lpk_decode_encode: "host_ok h \<Longrightarrow> length b = 32 \<Longrightarrow> lpk_decode h (lh_b64_encode h b) = Inr b"
  by (simp add: lpk_decode_def host_ok_def)

section \<open>Resolving\<close>

definition ring_holds :: "'w lpk_host \<Rightarrow> 'w \<Rightarrow> bytes \<Rightarrow> bool" where
  "ring_holds h w k \<longleftrightarrow> (\<exists>b64. lpk_get h w = Inr (Some b64) \<and> lpk_decode h b64 = Inr k)"

lemma write_minted_marker_simps [simp]:
  "ls_ring (write_minted_marker h s) = ls_ring s"
  "ls_cache (write_minted_marker h s) = ls_cache s"
  by (simp_all add: write_minted_marker_def)

lemma resolve_lpk_holds:
  assumes "host_ok h" and "length drawn = 32" and "resolve_lpk h mode drawn s = (Inr k, s')"
  shows "ring_holds h (ls_ring s') k"
proof (cases "lpk_get h (ls_ring s)")
  case (Inl e)
  with assms(3) show ?thesis by (simp add: resolve_lpk_def)
next
  case get: (Inr entry)
  show ?thesis
  proof (cases entry)
    case (Some b64)
    with assms(3) get show ?thesis
      by (auto simp: resolve_lpk_def ring_holds_def split: sum.splits if_splits)
  next
    case None
    with assms(3) get have mint: "mint_lpk h drawn s = (Inr k, s')"
      by (auto simp: resolve_lpk_def split: if_splits)
    then obtain u w where put: "lpk_set h (lh_b64_encode h drawn) (ls_ring s) = (Inr u, w)"
      by (auto simp: mint_lpk_def split: prod.splits sum.splits)
    then have "lpk_get h w = Inr (Some (lh_b64_encode h drawn))"
      using keyring.get_put [OF assms(1)] by simp
    then show ?thesis
      using mint lpk_decode_encode [OF assms(1,2)]
      by (auto simp: mint_lpk_def put ring_holds_def Let_def)
  qed
qed

lemma resolve_lpk_present:
  assumes "ring_holds h (ls_ring s) k"
  shows "\<exists>s'. resolve_lpk h mode drawn s = (Inr k, s') \<and> ls_ring s' = ls_ring s"
  using assms by (auto simp: resolve_lpk_def ring_holds_def)

lemma choose_lpk_not_persistent:
  "\<not> lh_persistent h \<Longrightarrow> resolve_host_lpk h mode drawn s = (r, s') \<Longrightarrow>
     s' = s \<and> (\<forall>mode' drawn' t. resolve_host_lpk h mode' drawn' t = (r, t))"
  by (auto simp: resolve_host_lpk_def choose_lpk_def)

lemma resolve_host_os:
  assumes "lh_persistent h" and "resolve_host_lpk h mode drawn s = (Inr (Inr (k, OsKeyring)), s')"
  shows "lh_entry_new h = Inr () \<and> resolve_lpk h mode drawn s = (Inr k, s')"
  using assms
  by (auto simp: resolve_host_lpk_def choose_lpk_def split: sum.splits prod.splits if_splits option.splits)

lemma wrap_then_unwrap:
  assumes "host_ok h" and "gcm_ok (lh_prim h)" and "length drawn = 32" and "length n = 12"
    and "ls_cache s = None"
    and "wrap_at_rest h drawn n plaintext s = (Inr (Inr blob), s')"
    and "lh_persistent h \<Longrightarrow> \<exists>k. ls_cache s' = Some (k, OsKeyring)"
    and "ls_ring t = ls_ring s'" and "ls_cache t = None"
  shows "\<exists>t'. unwrap_at_rest h drawn' blob t = (Inr (Inr plaintext), t') \<and> ls_ring t' = ls_ring t"
proof -
  from assms(6) obtain k where lpk: "local_protection_key h drawn s = (Inr (Inr k), s')"
    and wrap: "wrap_with_key (lh_prim h) n plaintext k = Inr blob"
    by (auto simp: wrap_at_rest_def try_bind_eq_Inr split: sum.splits prod.splits)
  from lpk assms(5) obtain source s1 where host: "resolve_host_lpk h Seal drawn s = (Inr (Inr (k, source)), s1)"
    and s': "s' = s1\<lparr>ls_cache := Some (k, source)\<rparr>"
    by (auto simp: local_protection_key_def cached_lpk_def split: sum.splits prod.splits)
  have again: "\<exists>t'. resolve_host_lpk h Open drawn' t = (Inr (Inr (k, source)), t') \<and> ls_ring t' = ls_ring t"
  proof (cases "lh_persistent h")
    case False
    from choose_lpk_not_persistent [OF this host] show ?thesis by blast
  next
    case True
    with assms(7) s' have "source = OsKeyring" by auto
    with resolve_host_os [OF True] host
    have entry: "lh_entry_new h = Inr ()" and "resolve_lpk h Seal drawn s = (Inr k, s1)" by auto
    from resolve_lpk_holds [OF assms(1,3) this(2)] have "ring_holds h (ls_ring t) k"
      using assms(8) s' by simp
    from resolve_lpk_present [OF this, of Open drawn'] obtain t' where
      "resolve_lpk h Open drawn' t = (Inr k, t')" "ls_ring t' = ls_ring t" by blast
    then show ?thesis
      using True entry \<open>source = OsKeyring\<close>
      by (simp add: resolve_host_lpk_def choose_lpk_def)
  qed
  have "unwrap_with_key (lh_prim h) blob k = Inr plaintext"
    using wrap assms(4) unwrap_wrap [OF assms(2)] by blast
  moreover have "is_wrapped blob" using wrap by (auto simp: wrap_with_key_eq_Inr)
  ultimately show ?thesis
    using again assms(9) by (fastforce simp: unwrap_at_rest_def cached_lpk_def)
qed

text \<open>What a process seals at rest, the next process on that host opens, in any later state
  of the marker and with whatever its random generator would draw: the key came from the OS
  keyring, where it was read or minted and stored, or the host uses the headless secret only.\<close>

theorem sealed_survives_restart:
  assumes "host_ok h" and "gcm_ok (lh_prim h)" and "length drawn = 32" and "length n = 12"
    and "ls_cache s = None"
    and "wrap_at_rest h drawn n plaintext s = (Inr (Inr blob), s')"
    and "lh_persistent h \<Longrightarrow> \<exists>k. ls_cache s' = Some (k, OsKeyring)"
    and "ls_ring t = ls_ring s'" and "ls_cache t = None"
  shows "\<exists>t'. unwrap_at_rest h drawn' blob t = (Inr (Inr plaintext), t') \<and> ls_ring t' = ls_ring t"
  using assms by (rule wrap_then_unwrap)

text \<open>A keyring of one entry.\<close>

definition demo_host :: "string option lpk_host" where
  "demo_host = \<lparr>lh_persistent = True, lh_prim = demo_prim, lh_uni = demo_unicode,
     lh_b64_encode = hex_encode, lh_b64_decode = (\<lambda>s. ok_or ''invalid'' (hex_decode s)),
     lh_entry_new = Inr (),
     lh_get_password = (\<lambda>w. case w of None \<Rightarrow> Inl NoEntry | Some v \<Rightarrow> Inr v),
     lh_set_password = (\<lambda>v w. (Inr (), Some v)), lh_marker_path = ''m'', lh_marker_writable = True,
     lh_secret = Some (replicate 32 (CHR ''x'')), lh_secret_file = None, lh_read_file = (\<lambda>p. Inl [])\<rparr>"

lemma trim_hex [simp]: "trim U (hex_encode b) = hex_encode b"
  using hex_encode_lower [of _ b]
  by (intro trim_plain)
     (fastforce simp: list_all_iff is_ascii_def ascii_ws_def code_of_def is_lower_hex_def Let_def)

lemma demo_host_ok: "host_ok demo_host"
  by (simp add: host_ok_def demo_host_def)

definition demo_first :: "string option lpk_state" where
  "demo_first = \<lparr>ls_cache = None, ls_ring = None, ls_marker = False\<rparr>"

definition demo_key :: bytes where
  "demo_key = replicate 32 5"

definition demo_minted :: "string option lpk_state" where
  "demo_minted = \<lparr>ls_cache = Some (demo_key, OsKeyring), ls_ring = Some (hex_encode demo_key), ls_marker = True\<rparr>"

lemma demo_local_protection_key:
  "local_protection_key demo_host demo_key demo_first = (Inr (Inr demo_key), demo_minted)"
  by (simp add: local_protection_key_def cached_lpk_def resolve_host_lpk_def choose_lpk_def
      resolve_lpk_def mint_lpk_def lpk_get_def lpk_set_def lpk_decode_def write_minted_marker_def
      demo_host_def demo_first_def demo_minted_def)
     (simp add: demo_key_def)

lemma demo_wrap_at_rest:
  "wrap_at_rest demo_host demo_key (replicate 12 0) [7] demo_first
     = (Inr (Inr (KEYWRAP_MAGIC @ replicate 12 0 @ [7] @ demo_tag [] [7])), demo_minted)"
proof -
  have "lh_prim demo_host = demo_prim" by (simp add: demo_host_def)
  then show ?thesis
    by (simp add: wrap_at_rest_def demo_local_protection_key wrap_with_key_def demo_prim_def
        demo_env_def demo_aead_def)
qed

theorem sealed_survives_restart_witness:
  "\<exists>t'. unwrap_at_rest demo_host [] (KEYWRAP_MAGIC @ replicate 12 0 @ [7] @ demo_tag [] [7])
      (demo_minted\<lparr>ls_cache := None, ls_marker := False\<rparr>) = (Inr (Inr [7]), t')
    \<and> ls_ring t' = Some (hex_encode demo_key)"
proof -
  have "gcm_ok (lh_prim demo_host)" using demo_gcm_ok by (simp add: demo_host_def)
  from sealed_survives_restart [OF demo_host_ok this _ _ _ demo_wrap_at_rest,
      of "demo_minted\<lparr>ls_cache := None, ls_marker := False\<rparr>" "[]"]
  show ?thesis by (simp add: demo_key_def demo_first_def demo_minted_def)
qed

text \<open>The source reported is that of the key the process seals under.\<close>

lemma local_protection_source_is_of_the_key:
  "local_protection_source h drawn s = (Inr (Inr source), s') \<Longrightarrow>
     \<exists>k. local_protection_key h drawn s = (Inr (Inr k), s') \<and> ls_cache s' = Some (k, source)"
  by (auto simp: local_protection_source_def local_protection_key_def cached_lpk_def
      split: sum.splits prod.splits option.splits)

section \<open>A lost key\<close>



end
