(* ===== verification/Keystore_Laws.thy ===== *)
theory Keystore_Laws
  imports Keystore Keywrap_Laws
begin

text \<open>
  What the key store promises on any file system: a file is replaced as a whole or not at all, the
  seed is written only as the sealer returns it, and a generated key is the one that signs.
\<close>

section \<open>Atomic replacement\<close>

definition tmp_name :: "string \<Rightarrow> string" where
  "tmp_name n = n @ ''.tmp''"

lemma tmp_path_key: "tmp_path (key_dir ds @ [Normal n]) = RootDir # map Normal (ds @ [tmp_name n])"
  by (simp add: tmp_path_def key_dir_def tmp_name_def butlast_append)

lemma tmp_name_neq [simp]: "tmp_name n \<noteq> n" "n \<noteq> tmp_name n"
  by (simp_all add: tmp_name_def)

lemma write_atomic_effect:
  assumes "write_atomic F (key_dir ds @ [Normal n]) c t = (r, t')" and "tree_ok t"
  shows "tree_ok t' \<and> (\<forall>q. q \<noteq> ds @ [n] \<and> q \<noteq> ds @ [tmp_name n] \<longrightarrow> node_at t' q = node_at t q)
    \<and> node_at t' (ds @ [n]) \<in> {node_at t (ds @ [n]), Some (File c)}
    \<and> (r = Inr () \<longrightarrow> node_at t' (ds @ [n]) = Some (File c))"
proof -
  let ?tmp = "RootDir # map Normal (ds @ [tmp_name n])" and ?tgt = "RootDir # map Normal (ds @ [n])"
  have key: "tmp_path ?tgt = ?tmp" using tmp_path_key [of ds n] by (simp only: key_dir_file)
  obtain r1 t1 where w: "write_file F t ?tmp c = (r1, t1)" by fastforce
  note w1 = write_file_abs [OF w assms(2)]
  show ?thesis
  proof (cases r1)
    case (Inl e)
    then have "t' = t1" "r \<noteq> Inr ()"
      using assms(1) w by (auto simp: write_atomic_def key key_dir_file simp del: map_append)
    with w1 show ?thesis by simp
  next
    case (Inr u)
    obtain r2 t2 where m: "rename_file F t1 ?tmp ?tgt = (r2, t2)" by fastforce
    have res: "t' = t2" "r = Inr () \<longrightarrow> r2 = Inr ()"
      using assms(1) w Inr m
      by (auto simp: write_atomic_def key key_dir_file ks_io_def simp del: map_append split: sum.splits)
    from w1 Inr have t1: "tree_ok t1" "node_at t1 (ds @ [tmp_name n]) = Some (File c)"
      "\<And>q. q \<noteq> ds @ [tmp_name n] \<Longrightarrow> node_at t1 q = node_at t q" by simp_all
    from rename_file_abs [OF m t1(1)] show ?thesis
    proof
      assume "(\<exists>e. r2 = Inl e) \<and> t2 = t1"
      with res t1 show ?thesis by auto
    next
      assume "r2 = Inr () \<and> tree_ok t2 \<and> (\<exists>d. node_at t1 (ds @ [tmp_name n]) = Some (File d)
          \<and> node_at t2 (ds @ [n]) = Some (File d)) \<and> node_at t2 (ds @ [tmp_name n]) = None
        \<and> (\<forall>x. x \<noteq> ds @ [tmp_name n] \<and> x \<noteq> ds @ [n] \<longrightarrow> node_at t2 x = node_at t1 x)"
      with res t1 show ?thesis by auto
    qed simp
  qed
qed

text \<open>Whatever fails, and wherever the process stops between its steps, the replacement of a key
  file leaves the old content or the whole new content under the name, and the new one when it reports
  success; besides it touches its temporary file only.\<close>

theorem write_atomic_replaces:
  assumes "write_atomic F (key_dir ds @ [Normal n]) c t = (r, t')" and "tree_ok t"
    and "write_file F t (tmp_path (key_dir ds @ [Normal n])) c = (r1, t1)"
  shows "(\<forall>s \<in> {t, t1, t'}. node_at s (ds @ [n]) \<in> {node_at t (ds @ [n]), Some (File c)}
        \<and> (\<forall>q. q \<noteq> ds @ [n] \<and> q \<noteq> ds @ [tmp_name n] \<longrightarrow> node_at s q = node_at t q) \<and> tree_ok s)
    \<and> (r = Inr () \<longrightarrow> node_at t' (ds @ [n]) = Some (File c))"
proof -
  have "write_file F t (RootDir # map Normal (ds @ [tmp_name n])) c = (r1, t1)"
    using assms(3) by (simp only: tmp_path_key)
  from write_file_abs [OF this assms(2)] write_atomic_effect [OF assms(1,2)] assms(2)
  show ?thesis by auto
qed

theorem write_atomic_replaces_witness:
  "\<exists>t'. write_atomic calm (key_dir [''k''] @ [Normal ''a'']) [1] [([''k''], Dir), ([''k'', ''a''], File [0])] = (Inr (), t')
    \<and> node_at t' [''k'', ''a''] = Some (File [1])"
proof -
  let ?t = "[([''k''], Dir), ([''k'', ''a''], File [0])] :: tree"
  obtain t' where w: "write_atomic calm (key_dir [''k''] @ [Normal ''a'']) [1] ?t = (Inr (), t')"
    by (simp add: write_atomic_def tmp_path_def key_dir_def write_file_def rename_file_def rename_node_def
        set_mode_def calm_def node_at_def remove_node_def ks_io_def)
  have ok: "tree_ok ?t"
    by (auto simp: tree_ok_def node_at_def append_eq_Cons_conv split: if_splits)
  obtain r1 t1 where "write_file calm ?t (tmp_path (key_dir [''k''] @ [Normal ''a''])) [1] = (r1, t1)"
    by (rule prod.exhaust)
  from write_atomic_replaces [OF w ok this] w show ?thesis by auto
qed

section \<open>The device key\<close>

definition at_dir :: "'l FileSystemKeystore \<Rightarrow> string list \<Rightarrow> bool" where
  "at_dir ks ds \<longleftrightarrow> identity_dir ks = key_dir ds"

lemma key_paths:
  assumes "at_dir ks ds"
  shows "private_path ks = key_dir ds @ [Normal DEVICE_PRIVATE_FILENAME]"
    and "public_path ks = key_dir ds @ [Normal DEVICE_PUBLIC_FILENAME]"
    and "cert_path ks = key_dir ds @ [Normal DEVICE_CERT_FILENAME]"
    and "master_pub_path ks = key_dir ds @ [Normal MASTER_PUBLIC_FILENAME]"
  using assms by (simp_all add: at_dir_def private_path_def public_path_def cert_path_def master_pub_path_def)

lemmas key_files = DEVICE_PRIVATE_FILENAME_def DEVICE_PUBLIC_FILENAME_def DEVICE_CERT_FILENAME_def
  MASTER_PUBLIC_FILENAME_def tmp_name_def

lemma ensure_dir_effect:
  assumes "ensure_dir F ks t = (r, t')" and "at_dir ks ds" and "tree_ok t"
  shows "tree_ok t' \<and> same_files t t' \<and> (\<forall>n. node_at t' (ds @ [n]) = node_at t (ds @ [n]))"
proof -
  obtain r0 t0 where made: "create_dir_all F t [] (key_dir ds) = (r0, t0)" by (rule prod.exhaust)
  then have "t0 = t'" using assms(1,2) by (simp add: ensure_dir_def at_dir_def)
  with made have "create_dir_all F t [] (RootDir # map Normal ds) = (r0, t')" by (simp only: key_dir_def)
  note * = create_dir_all_abs [OF this assms(3)]
  have "node_at t' q = Some (File d) \<longleftrightarrow> node_at t q = Some (File d)" for q d
    using * by (metis node.distinct(1) option.distinct(1) option.inject)
  with * show ?thesis by (simp add: same_files_def)
qed

text \<open>The places a generation writes to.\<close>

definition key_places :: "string list \<Rightarrow> string list set" where
  "key_places ds = (\<lambda>n. ds @ [n]) ` {DEVICE_PRIVATE_FILENAME, tmp_name DEVICE_PRIVATE_FILENAME,
     DEVICE_PUBLIC_FILENAME, tmp_name DEVICE_PUBLIC_FILENAME}"

lemma generate_fresh_effect:
  assumes "generate_fresh F D drawn ks t s = (res, ks', t', s')" and "at_dir ks ds" and "tree_ok t"
  shows "tree_ok t' \<and> (\<forall>q. q \<notin> key_places ds \<longrightarrow> node_at t' q = node_at t q)
    \<and> s' = snd (sealer ks drawn s)
    \<and> ((\<forall>sealed. fst (sealer ks drawn s) \<noteq> Inr (Inr sealed)) \<longrightarrow> t' = t \<and> ks' = ks \<and> (\<forall>pk. res \<noteq> Inr (Inr pk)))
    \<and> (node_at t' (ds @ [DEVICE_PRIVATE_FILENAME]) = node_at t (ds @ [DEVICE_PRIVATE_FILENAME])
       \<or> (\<exists>sealed. fst (sealer ks drawn s) = Inr (Inr sealed)
            \<and> node_at t' (ds @ [DEVICE_PRIVATE_FILENAME]) = Some (File sealed)))
    \<and> (\<forall>pk. res = Inr (Inr pk) \<longrightarrow> pk = ed_public D drawn \<and> ks' = ks\<lparr>cached_pubkey := Some pk\<rparr>
         \<and> node_at t' (ds @ [DEVICE_PUBLIC_FILENAME]) = Some (File pk)
         \<and> (\<exists>sealed. fst (sealer ks drawn s) = Inr (Inr sealed)
              \<and> node_at t' (ds @ [DEVICE_PRIVATE_FILENAME]) = Some (File sealed)))"
proof -
  obtain x s1 where sl: "sealer ks drawn s = (x, s1)" by (rule prod.exhaust)
  consider (no) "\<forall>sealed. x \<noteq> Inr (Inr sealed)" | (yes) sealed where "x = Inr (Inr sealed)" by blast
  then show ?thesis
  proof cases
    case no
    then have "t' = t \<and> ks' = ks \<and> s' = s1 \<and> (\<forall>pk. res \<noteq> Inr (Inr pk))"
      using assms(1) sl by (auto simp: generate_fresh_def Let_def split: sum.splits)
    with no assms(3) sl show ?thesis by simp
  next
    case yes
    note paths = key_paths [OF assms(2)]
    obtain r2 t2 where w: "write_atomic F (private_path ks) sealed t = (r2, t2)" by (rule prod.exhaust)
    note w2 = write_atomic_effect [OF w [unfolded paths] assms(3)]
    show ?thesis
    proof (cases r2)
      case (Inl e)
      then have "t' = t2 \<and> ks' = ks \<and> s' = s1 \<and> (\<forall>pk. res \<noteq> Inr (Inr pk))"
        using assms(1) sl yes w by (auto simp: generate_fresh_def Let_def)
      with w2 sl yes show ?thesis by (auto simp: key_places_def)
    next
      case (Inr u)
      obtain r3 t3 where v: "write_atomic F (public_path ks) (ed_public D drawn) t2 = (r3, t3)"
        by (rule prod.exhaust)
      from w2 have t2: "tree_ok t2" by simp
      note w3 = write_atomic_effect [OF v [unfolded paths] t2]
      have "t' = t3 \<and> s' = s1 \<and> (\<forall>pk. res = Inr (Inr pk) \<longrightarrow>
          r3 = Inr () \<and> pk = ed_public D drawn \<and> ks' = ks\<lparr>cached_pubkey := Some pk\<rparr>)"
        using assms(1) sl yes w Inr v by (auto simp: generate_fresh_def Let_def split: sum.splits)
      moreover have "DEVICE_PRIVATE_FILENAME \<noteq> tmp_name DEVICE_PUBLIC_FILENAME"
        "DEVICE_PRIVATE_FILENAME \<noteq> DEVICE_PUBLIC_FILENAME" by (simp_all add: key_files)
      ultimately show ?thesis using w2 w3 Inr sl yes by (simp add: key_places_def)
    qed
  qed
qed


section \<open>A generated key signs\<close>

text \<open>The stored key pair: what is on disk for a public key.\<close>

definition holds_key ::
    "ed25519 \<Rightarrow> (bytes \<Rightarrow> ('l, bytes) sealing) \<Rightarrow> string list \<Rightarrow> tree \<Rightarrow> 'l \<Rightarrow> bytes \<Rightarrow> bool" where
  "holds_key D opener ds t l seed \<longleftrightarrow>
     node_at t (ds @ [DEVICE_PUBLIC_FILENAME]) = Some (File (ed_public D seed))
     \<and> (\<exists>sealed. node_at t (ds @ [DEVICE_PRIVATE_FILENAME]) = Some (File sealed)
          \<and> fst (opener sealed l) = Inr (Inr seed))"

definition valid_key :: "ed25519 \<Rightarrow> bytes \<Rightarrow> bool" where
  "valid_key D seed \<longleftrightarrow> length seed = 32 \<and> length (ed_public D seed) = 32 \<and> ed_parse D (ed_public D seed) = Inr ()"

lemma held_key_signs:
  assumes "holds_key D opener ds t l seed" and "valid_key D seed" and "at_dir ks ds" and "tree_ok t" and "readable F"
  shows "fst (keystore_sign F D opener ks t m l) = Inr (Inr (ed_sign D seed m))"
    and "cached_pubkey ks = None \<Longrightarrow> export_pubkey F D ks t = Inr (ed_public D seed)"
    and "generate_device_keypair F D drawn ks t s = (Inr (export_pubkey F D ks t), ks, t, s)"
proof -
  obtain sealed where priv: "node_at t (ds @ [DEVICE_PRIVATE_FILENAME]) = Some (File sealed)"
    and op: "fst (opener sealed l) = Inr (Inr seed)"
    and pub: "node_at t (ds @ [DEVICE_PUBLIC_FILENAME]) = Some (File (ed_public D seed))"
    using assms(1) by (auto simp: holds_key_def)
  have no: "\<not> ft_stat F p" "ft_read F p = None" for p using assms(5) by (simp_all add: readable_def)
  note paths = key_paths [OF assms(3), unfolded key_dir_file]
  have st: "stat F t (private_path ks) \<noteq> None" "stat F t (public_path ks) \<noteq> None"
    by (simp_all only: paths stat_abs [OF assms(4)] no priv pub) simp_all
  have rd: "read_file F t (private_path ks) = Inr sealed" "read_file F t (public_path ks) = Inr (ed_public D seed)"
    by (simp_all only: paths read_file_abs [OF assms(4)] no priv pub)
  obtain l' where "opener sealed l = (Inr (Inr seed), l')" using op by (cases "opener sealed l") auto
  with st rd assms(2) show "fst (keystore_sign F D opener ks t m l) = Inr (Inr (ed_sign D seed m))"
    by (simp add: keystore_sign_def read_signing_key_def ks_io_def signing_key_from_seed_def valid_key_def)
  show "export_pubkey F D ks t = Inr (ed_public D seed)" if "cached_pubkey ks = None"
    using that st rd assms(2) by (simp add: export_pubkey_def read_key_def ks_io_def valid_key_def)
  have "node_at t ds = Some Dir" using assms(4) pub by (auto simp: tree_ok_def)
  from create_dir_all_existing [OF assms(4) this] assms(3)
  have "ensure_dir F ks t = (Inr (), t)" by (simp add: ensure_dir_def at_dir_def key_dir_def ks_io_def)
  with st show "generate_device_keypair F D drawn ks t s = (Inr (export_pubkey F D ks t), ks, t, s)"
    by (simp add: generate_device_keypair_def)
qed

lemma generated_key_held:
  assumes "generate_device_keypair F D drawn ks t s = (Inr (Inr pk), ks', t', s')"
    and "at_dir ks ds" "tree_ok t"
    and "node_at t (ds @ [DEVICE_PRIVATE_FILENAME]) = None \<or> node_at t (ds @ [DEVICE_PUBLIC_FILENAME]) = None"
    and "\<forall>sealed. fst (sealer ks drawn s) = Inr (Inr sealed) \<longrightarrow> fst (opener sealed l) = Inr (Inr drawn)"
  shows "pk = ed_public D drawn \<and> ks' = ks\<lparr>cached_pubkey := Some pk\<rparr> \<and> tree_ok t'
    \<and> holds_key D opener ds t' l drawn"
proof -
  obtain r1 t1 where dir: "ensure_dir F ks t = (r1, t1)" by (rule prod.exhaust)
  from ensure_dir_effect [OF dir assms(2,3)] have t1: "tree_ok t1"
    and at1: "\<And>n. node_at t1 (ds @ [n]) = node_at t (ds @ [n])" by auto
  have "\<not> (stat F t1 (private_path ks) \<noteq> None \<and> stat F t1 (public_path ks) \<noteq> None)"
    using assms(4) by (simp only: key_paths [OF assms(2)] key_dir_file stat_abs [OF t1] at1) auto
  then have "generate_fresh F D drawn ks t1 s = (Inr (Inr pk), ks', t', s')"
    using assms(1) dir by (auto simp: generate_device_keypair_def split: sum.splits)
  from generate_fresh_effect [OF this assms(2) t1] assms(5) show ?thesis by (auto simp: holds_key_def)
qed

text \<open>A key generated where no complete pair was stored is the public key of the drawn seed; from
  then on, also for a key store opened anew on the directory, it is what is exported, messages are
  signed with its seed, and generating again returns it and changes nothing, if files can be
  read and the opener undoes the sealer.\<close>

theorem generated_key_signs:
  assumes "generate_device_keypair F D drawn ks t s = (Inr (Inr pk), ks', t', s')"
    and "at_dir ks ds" "tree_ok t" "readable F" "valid_key D drawn"
    and "node_at t (ds @ [DEVICE_PRIVATE_FILENAME]) = None \<or> node_at t (ds @ [DEVICE_PUBLIC_FILENAME]) = None"
    and "\<forall>sealed. fst (sealer ks drawn s) = Inr (Inr sealed) \<longrightarrow> fst (opener sealed l) = Inr (Inr drawn)"
    and "ks2 \<in> {ks', keystore_with_sealer (key_dir ds) sl}"
  shows "pk = ed_public D drawn
    \<and> export_pubkey F D ks2 t' = Inr pk
    \<and> fst (keystore_sign F D opener ks2 t' m l) = Inr (Inr (ed_sign D drawn m))
    \<and> generate_device_keypair F D drawn2 ks2 t' s2 = (Inr (Inr pk), ks2, t', s2)"
proof -
  from generated_key_held [of F D drawn ks t s pk ks' t' s' ds opener l, OF assms(1-3,6,7)]
  have pk: "pk = ed_public D drawn" and ks': "ks' = ks\<lparr>cached_pubkey := Some pk\<rparr>" and t': "tree_ok t'"
    and held: "holds_key D opener ds t' l drawn" by simp_all
  have at2: "at_dir ks2 ds" using assms(2,8) by (auto simp: at_dir_def ks' keystore_with_sealer_def)
  note signs = held_key_signs [OF held assms(5) at2 t' assms(4)]
  have "export_pubkey F D ks2 t' = Inr pk"
  proof (cases "cached_pubkey ks2")
    case None
    with signs(2) pk show ?thesis by simp
  next
    case (Some p)
    with assms(8) have "p = pk" by (auto simp: ks' keystore_with_sealer_def)
    with Some show ?thesis by (simp add: export_pubkey_def)
  qed
  with signs pk show ?thesis by simp
qed

section \<open>Certificates and the master key\<close>

text \<open>What is imported is what is exported, by any key store on the directory, and the other files of
  the directory stay.\<close>

definition holds_cert :: "cbor \<Rightarrow> string list \<Rightarrow> tree \<Rightarrow> DeviceCertificate \<Rightarrow> bool" where
  "holds_cert B ds t c \<longleftrightarrow>
     (\<exists>raw. node_at t (ds @ [DEVICE_CERT_FILENAME]) = Some (File raw) \<and> cbor_parse_device B raw = Inr c)"

definition holds_master :: "ed25519 \<Rightarrow> string list \<Rightarrow> tree \<Rightarrow> bytes \<Rightarrow> bool" where
  "holds_master D ds t k \<longleftrightarrow> node_at t (ds @ [MASTER_PUBLIC_FILENAME]) = Some (File k)
     \<and> length k = 32 \<and> ed_parse D k = Inr ()"

definition other_files_stay :: "string list \<Rightarrow> string \<Rightarrow> tree \<Rightarrow> tree \<Rightarrow> bool" where
  "other_files_stay ds name t t' \<longleftrightarrow>
     (\<forall>n. n \<noteq> name \<and> n \<noteq> tmp_name name \<longrightarrow> node_at t' (ds @ [n]) = node_at t (ds @ [n]))"

lemma held_cert_exports:
  assumes "holds_cert B ds t c" and "at_dir ks ds" "tree_ok t" "readable F"
  shows "export_cert F B ks t = Inr c"
proof -
  obtain raw where at: "node_at t (ds @ [DEVICE_CERT_FILENAME]) = Some (File raw)"
    and parse: "cbor_parse_device B raw = Inr c" using assms(1) by (auto simp: holds_cert_def)
  have no: "\<not> ft_stat F p" "ft_read F p = None" for p using assms(4) by (simp_all add: readable_def)
  have "stat F t (cert_path ks) \<noteq> None" "read_file F t (cert_path ks) = Inr raw"
    by (simp_all only: key_paths [OF assms(2)] key_dir_file stat_abs [OF assms(3)] read_file_abs [OF assms(3)] no at) simp
  with parse show ?thesis by (simp add: export_cert_def ks_io_def device_from_cbor_def)
qed

lemma held_master_exports:
  assumes "holds_master D ds t k" and "at_dir ks ds" "tree_ok t" "readable F"
  shows "export_master_pubkey F D ks t = Inr k"
proof -
  have at: "node_at t (ds @ [MASTER_PUBLIC_FILENAME]) = Some (File k)" using assms(1) by (simp add: holds_master_def)
  have no: "\<not> ft_stat F p" "ft_read F p = None" for p using assms(4) by (simp_all add: readable_def)
  have "stat F t (master_pub_path ks) \<noteq> None" "read_file F t (master_pub_path ks) = Inr k"
    by (simp_all only: key_paths [OF assms(2)] key_dir_file stat_abs [OF assms(3)] read_file_abs [OF assms(3)] no at) simp
  with assms(1) show ?thesis by (simp add: export_master_pubkey_def read_key_def ks_io_def holds_master_def)
qed

lemma import_cert_holds:
  assumes "import_cert F B ks c t = (Inr (), t')" and "at_dir ks ds" "tree_ok t"
    and "\<forall>raw. cbor_device B c = Inr raw \<longrightarrow> cbor_parse_device B raw = Inr c"
  shows "holds_cert B ds t' c \<and> tree_ok t' \<and> other_files_stay ds DEVICE_CERT_FILENAME t t'"
proof -
  obtain r1 t1 where dir: "ensure_dir F ks t = (r1, t1)" by (rule prod.exhaust)
  note t1 = ensure_dir_effect [OF dir assms(2,3)]
  obtain raw where raw: "cbor_device B c = Inr raw" and w: "write_atomic F (cert_path ks) raw t1 = (Inr (), t')"
    using assms(1) dir by (auto simp: import_cert_def device_to_cbor_def split: sum.splits)
  from write_atomic_effect [OF w [unfolded key_paths [OF assms(2)]]] t1 raw assms(4) show ?thesis
    by (simp add: holds_cert_def other_files_stay_def)
qed

lemma import_master_holds:
  assumes "import_master_pubkey F D ks k t = (Inr (), t')" and "at_dir ks ds" "tree_ok t" and "length k = 32"
  shows "holds_master D ds t' k \<and> tree_ok t' \<and> other_files_stay ds MASTER_PUBLIC_FILENAME t t'"
proof -
  obtain r1 t1 where dir: "ensure_dir F ks t = (r1, t1)" by (rule prod.exhaust)
  note t1 = ensure_dir_effect [OF dir assms(2,3)]
  have parse: "ed_parse D k = Inr ()" and w: "write_atomic F (master_pub_path ks) k t1 = (Inr (), t')"
    using assms(1) dir by (auto simp: import_master_pubkey_def split: sum.splits)
  from write_atomic_effect [OF w [unfolded key_paths [OF assms(2)]]] t1 parse assms(4) show ?thesis
    by (simp add: holds_master_def other_files_stay_def)
qed

lemma key_names_differ:
  assumes "n \<in> {DEVICE_CERT_FILENAME, MASTER_PUBLIC_FILENAME}"
  shows "DEVICE_PUBLIC_FILENAME \<notin> {n, tmp_name n}" and "DEVICE_PRIVATE_FILENAME \<notin> {n, tmp_name n}"
    and "DEVICE_CERT_FILENAME \<notin> {MASTER_PUBLIC_FILENAME, tmp_name MASTER_PUBLIC_FILENAME}"
  using assms by (auto simp: key_files)

lemma held_key_stays:
  assumes "other_files_stay ds n t t'" and "n \<in> {DEVICE_CERT_FILENAME, MASTER_PUBLIC_FILENAME}"
    and "holds_key D opener ds t l seed"
  shows "holds_key D opener ds t' l seed"
  using assms(1,3) key_names_differ(1,2) [OF assms(2)] by (simp add: other_files_stay_def holds_key_def)

lemma held_cert_stays:
  "other_files_stay ds MASTER_PUBLIC_FILENAME t t' \<Longrightarrow> holds_cert B ds t c \<Longrightarrow> holds_cert B ds t' c"
  using key_names_differ(3) [of MASTER_PUBLIC_FILENAME] by (simp add: other_files_stay_def holds_cert_def)

text \<open>A signature scheme and a sealing for the witnesses.\<close>

definition demo_scheme :: ed25519 where
  "demo_scheme = \<lparr>ed_public = \<lambda>s. map (\<lambda>b. b + 1) s, ed_sign = \<lambda>s m. s @ m, ed_parse = \<lambda>p. Inr (),
     ed_verify_strict = \<lambda>p m sg. True, ed_verify = \<lambda>p m sg. True, bip39_seed = \<lambda>s. Inr []\<rparr>"

definition demo_keystore :: "unit FileSystemKeystore" where
  "demo_keystore = keystore_with_sealer (key_dir [''k'']) (\<lambda>b s. (Inr (Inr (7 # b)), s))"


theorem generated_key_signs_witness:
  "\<exists>ks' t'. generate_device_keypair calm demo_scheme (replicate 32 5) demo_keystore [] ()
      = (Inr (Inr (replicate 32 6)), ks', t', ())
    \<and> export_pubkey calm demo_scheme demo_keystore t' = Inr (replicate 32 6)
    \<and> fst (keystore_sign calm demo_scheme (\<lambda>raw l. (Inr (Inr (tl raw)), l)) demo_keystore t' [9] ())
        = Inr (Inr (replicate 32 5 @ [9]))"
proof -
  let ?seed = "replicate 32 (5 :: u8)"
  obtain ks' t' where g: "generate_device_keypair calm demo_scheme ?seed demo_keystore [] ()
      = (Inr (Inr (replicate 32 6)), ks', t', ())"
    by (simp add: generate_device_keypair_def generate_fresh_def ensure_dir_def demo_keystore_def
        keystore_with_sealer_def key_dir_def stat_def private_path_def public_path_def write_atomic_def
        tmp_path_def write_file_def rename_file_def rename_node_def set_mode_def calm_def node_at_def
        remove_node_def ks_io_def key_files demo_scheme_def Let_def)
  have at: "at_dir demo_keystore [''k'']"
    by (simp add: at_dir_def demo_keystore_def keystore_with_sealer_def)
  have ok: "tree_ok []" and rd: "readable calm" and key: "valid_key demo_scheme ?seed"
    by (simp_all add: tree_ok_def node_at_def readable_def calm_def valid_key_def demo_scheme_def)
  have "export_pubkey calm demo_scheme demo_keystore t' = Inr (replicate 32 6)
    \<and> fst (keystore_sign calm demo_scheme (\<lambda>raw l. (Inr (Inr (tl raw)), l)) demo_keystore t' [9] ())
        = Inr (Inr (ed_sign demo_scheme ?seed [9]))"
    using generated_key_signs [OF g at ok rd key, of "\<lambda>raw l. (Inr (Inr (tl raw)), l)" "()" demo_keystore
        "sealer demo_keystore" "[9]"]
    by (simp add: node_at_def) (simp add: demo_keystore_def keystore_with_sealer_def)
  with g show ?thesis by (simp add: demo_scheme_def)
qed

end
