(* ===== verification/Passkey_Config.thy ===== *)
theory Passkey_Config
  imports File_System
begin

text \<open>
  \<open>passkey-core/src/paths/mod.rs\<close> and \<open>platform.rs\<close>: the configuration of an application and the
  directories it gives.

  A path is its components. What \<open>std::env\<close>, the \<open>dirs\<close> crate and \<open>hostname\<close> report of the host is
  the record \<open>platform\<close>; \<open>canon\<close> is \<open>canonicalize\<close>, which resolves links, and fails on what does
  not exist.
\<close>

section \<open>The platform\<close>

record platform =
  pf_windows :: bool
  pf_appdata :: "component list option"
  pf_localappdata :: "component list option"
  pf_config_dir :: "component list option"
  pf_data_dir :: "component list option"
  pf_data_local_dir :: "component list option"
  pf_home_dir :: "component list option"
  pf_os :: string
  pf_hostname :: "string option"

definition or_else :: "'a option \<Rightarrow> 'a \<Rightarrow> 'a" where
  "or_else x d = (case x of Some v \<Rightarrow> v | None \<Rightarrow> d)"

definition platform_config_dir :: "platform \<Rightarrow> string \<Rightarrow> component list" where
  "platform_config_dir P app =
     (if pf_windows P
      then path_join (or_else (pf_appdata P) (or_else (pf_data_dir P) [CurDir])) app
      else path_join (or_else (pf_config_dir P)
             (or_else (map_option (\<lambda>h. path_join h ''.config'') (pf_home_dir P)) [CurDir])) app)"

definition platform_data_dir :: "platform \<Rightarrow> string \<Rightarrow> component list" where
  "platform_data_dir P app =
     (if pf_windows P
      then path_join (or_else (pf_localappdata P) (or_else (pf_data_local_dir P) [CurDir])) app
      else path_join (or_else (pf_data_dir P)
             (or_else (map_option (\<lambda>h. path_join (path_join h ''.local'') ''share'') (pf_home_dir P))
                [CurDir])) app)"

definition platform_name :: "platform \<Rightarrow> string" where
  "platform_name P = pf_os P"

definition hostname :: "platform \<Rightarrow> string" where
  "hostname P = or_else (pf_hostname P) ''unknown''"

section \<open>The configuration\<close>

record JwtConfig =
  jw_secret :: string
  jw_access_token_expiry_secs :: int
  jw_refresh_token_expiry_secs :: int

record PasskeyConfig =
  app_name :: string
  machine_id_prefix :: string
  config_dir_override :: "component list option"
  jwt_config :: "JwtConfig option"

definition passkey_config_new :: "unicode \<Rightarrow> string \<Rightarrow> PasskeyConfig" where
  "passkey_config_new U app = \<lparr>app_name = app,
     machine_id_prefix = to_lowercase U (concat (take 3 (utf8_chars app))),
     config_dir_override = None, jwt_config = None\<rparr>"

definition config_gitcellar :: PasskeyConfig where
  "config_gitcellar = \<lparr>app_name = ''gitcellar'', machine_id_prefix = ''gcm'',
     config_dir_override = None, jwt_config = None\<rparr>"

definition with_machine_id_prefix :: "PasskeyConfig \<Rightarrow> string \<Rightarrow> PasskeyConfig" where
  "with_machine_id_prefix c p = c\<lparr>machine_id_prefix := p\<rparr>"

definition with_config_dir :: "PasskeyConfig \<Rightarrow> component list \<Rightarrow> PasskeyConfig" where
  "with_config_dir c d = c\<lparr>config_dir_override := Some d\<rparr>"

definition with_jwt_config :: "PasskeyConfig \<Rightarrow> JwtConfig \<Rightarrow> PasskeyConfig" where
  "with_jwt_config c j = c\<lparr>jwt_config := Some j\<rparr>"

definition jwt_config_new :: "string \<Rightarrow> int \<Rightarrow> int \<Rightarrow> JwtConfig" where
  "jwt_config_new secret access refresh = \<lparr>jw_secret = secret,
     jw_access_token_expiry_secs = access, jw_refresh_token_expiry_secs = refresh\<rparr>"

definition jwt_config_with_secret :: "string \<Rightarrow> JwtConfig" where
  "jwt_config_with_secret secret = \<lparr>jw_secret = secret,
     jw_access_token_expiry_secs = 3600, jw_refresh_token_expiry_secs = 30 * 24 * 3600\<rparr>"

definition config_dir :: "platform \<Rightarrow> PasskeyConfig \<Rightarrow> component list" where
  "config_dir P c = or_else (config_dir_override c) (platform_config_dir P (app_name c))"

definition users_dir :: "platform \<Rightarrow> PasskeyConfig \<Rightarrow> component list" where
  "users_dir P c = path_join (config_dir P c) ''users''"

definition user_dir :: "platform \<Rightarrow> PasskeyConfig \<Rightarrow> string \<Rightarrow> component list" where
  "user_dir P c username = path_join (users_dir P c) username"

definition config_checked_user_dir ::
    "(string \<Rightarrow> string) \<Rightarrow> (component list \<Rightarrow> component list option) \<Rightarrow> platform \<Rightarrow> PasskeyConfig \<Rightarrow> string
     \<Rightarrow> component list PasskeyResult" where
  "config_checked_user_dir debug canon P c username =
     try_bind (validate_user_dir_name debug username) (\<lambda>_.
     try_bind (lexical_child debug (users_dir P c) username) (\<lambda>dir.
     case (canon (users_dir P c), canon dir) of
       (Some base, Some real) \<Rightarrow>
         if path_parent real \<noteq> Some base then Inl (escape debug username) else Inr dir
     | _ \<Rightarrow> Inr dir))"

definition checked_identity_dir ::
    "(string \<Rightarrow> string) \<Rightarrow> (component list \<Rightarrow> component list option) \<Rightarrow> platform \<Rightarrow> PasskeyConfig \<Rightarrow> string
     \<Rightarrow> component list PasskeyResult" where
  "checked_identity_dir debug canon P c username =
     try_bind (config_checked_user_dir debug canon P c username) (\<lambda>d. Inr (path_join d ''identity''))"

definition user_data_path :: "platform \<Rightarrow> PasskeyConfig \<Rightarrow> string \<Rightarrow> string \<Rightarrow> component list" where
  "user_data_path P c username subpath = path_join (user_dir P c username) subpath"

definition identity_dir_of :: "platform \<Rightarrow> PasskeyConfig \<Rightarrow> string \<Rightarrow> component list" where
  "identity_dir_of P c username = user_data_path P c username ''identity''"

definition active_user_path :: "platform \<Rightarrow> PasskeyConfig \<Rightarrow> component list" where
  "active_user_path P c = path_join (config_dir P c) ''active_user''"

definition machine_id_path :: "platform \<Rightarrow> PasskeyConfig \<Rightarrow> component list" where
  "machine_id_path P c = path_join (config_dir P c) ''machine_id''"

definition user_info_path :: "platform \<Rightarrow> PasskeyConfig \<Rightarrow> string \<Rightarrow> component list" where
  "user_info_path P c username = user_data_path P c username ''user_info.json''"

section \<open>Containment\<close>

text \<open>A name is accepted exactly if it is valid and its directory, when it and \<open>users/\<close> resolve,
  resolves to a direct child; it is then one plain component below \<open>users/\<close>.\<close>

lemma config_checked_user_dir_eq_Inr:
  "config_checked_user_dir debug canon P c u = Inr d \<longleftrightarrow>
     validate_user_dir_name debug u = Inr () \<and> d = users_dir P c @ [Normal u]
     \<and> (\<forall>base real. canon (users_dir P c) = Some base \<and> canon d = Some real \<longrightarrow> path_parent real = Some base)"
proof (cases "validate_user_dir_name debug u")
  case (Inr x)
  then have v: "validate_user_dir_name debug u = Inr ()" by simp
  note join = plain_components [OF v]
  have "lexical_child debug (users_dir P c) u = Inr (users_dir P c @ [Normal u])"
    by (simp add: lexical_child_def join path_strip_prefix_def)
  with v show ?thesis
    by (auto simp: config_checked_user_dir_def split: option.splits)
qed (simp add: config_checked_user_dir_def)

lemma plain_join: "CHR ''/'' \<notin> set n \<Longrightarrow> n \<noteq> [] \<Longrightarrow> n \<noteq> ''.'' \<Longrightarrow> n \<noteq> ''..'' \<Longrightarrow> path_join base n = base @ [Normal n]"
  by (cases n) (auto simp: path_join_def added_components_def split_on_no_sep path_component_def)

lemma checked_identity_dir_eq_Inr:
  "checked_identity_dir debug canon P c u = Inr d \<longleftrightarrow>
     (\<exists>e. config_checked_user_dir debug canon P c u = Inr e) \<and> d = users_dir P c @ [Normal u, Normal ''identity'']"
  by (auto simp: checked_identity_dir_def try_bind_eq_Inr config_checked_user_dir_eq_Inr plain_join)

end
