(* ===== verification/Identity_Store.thy ===== *)
theory Identity_Store
  imports Passkey_Config Keywrap Pgp_Engine
begin

text \<open>
  \<open>passkey-core/src/identity\<close>: identities in files (\<open>mod.rs\<close>, \<open>storage.rs\<close>) and as armored keys
  (\<open>export.rs\<close>).

  An identity is the record of \<open>Pgp_Engine\<close>. Generation, serialization and parsing of OpenPGP are
  the parameter \<open>pgp_io\<close>; a serialization that fails half way leaves the bytes written so far.
  Paths are component lists, their rendering is \<open>disp\<close>, \<open>'l\<close> is the state the sealer uses.
\<close>

section \<open>OpenPGP\<close>

datatype armor_stage = ArmorCreate | ArmorSerialize | ArmorFinalize

record parsed_cert =
  pc_keys :: "subkey list"
  pc_fingerprint :: string
  pc_user_id :: "bytes option"

record pgp_io =
  io_generate :: "string \<Rightarrow> string + (subkey list \<times> string)"
  io_tsk :: "Identity \<Rightarrow> string + bytes"
  io_cert :: "Identity \<Rightarrow> (string \<times> bytes) + bytes"
  io_armor_secret :: "Identity \<Rightarrow> (armor_stage \<times> string) + bytes"
  io_armor_public :: "Identity \<Rightarrow> (armor_stage \<times> string) + bytes"
  io_parse :: "bytes \<Rightarrow> string + parsed_cert"
  io_utf8 :: "bytes \<Rightarrow> string + string"

definition identity_generate :: "pgp_io \<Rightarrow> string \<Rightarrow> Identity PasskeyResult" where
  "identity_generate G user_id =
     try_bind (map_err PasskeyError.KeyGeneration (io_generate G user_id)) (\<lambda>(keys, fp).
       Inr \<lparr>id_keys = keys, id_fingerprint = fp, id_user = user_id\<rparr>)"

definition from_cert :: "subkey list \<Rightarrow> string \<Rightarrow> string \<Rightarrow> Identity PasskeyResult" where
  "from_cert keys fp user_id = Inr \<lparr>id_keys = keys, id_fingerprint = fp, id_user = user_id\<rparr>"

text \<open>The identity of a parsed certificate: its first user id, if that is UTF-8.\<close>

definition identity_of :: "pgp_io \<Rightarrow> parsed_cert \<Rightarrow> Identity" where
  "identity_of G c = \<lparr>id_keys = pc_keys c, id_fingerprint = pc_fingerprint c,
     id_user = (case pc_user_id c of
         None \<Rightarrow> ''unknown''
       | Some uid \<Rightarrow> (case io_utf8 G uid of Inl _ \<Rightarrow> ''unknown'' | Inr s \<Rightarrow> s))\<rparr>"

section \<open>Armored keys\<close>

fun armor_error :: "armor_stage \<times> string \<Rightarrow> PasskeyError" where
  "armor_error (ArmorCreate, e) = PasskeyError.KeySave (''Failed to create armor writer: '' @ e)"
| "armor_error (ArmorSerialize, e) = PasskeyError.KeySave (''Failed to serialize: '' @ e)"
| "armor_error (ArmorFinalize, e) = PasskeyError.KeySave (''Failed to finalize: '' @ e)"

definition export_public_key :: "pgp_io \<Rightarrow> Identity \<Rightarrow> string PasskeyResult" where
  "export_public_key G i =
     try_bind (map_err armor_error (io_armor_public G i)) (\<lambda>output.
     map_err (\<lambda>e. PasskeyError.KeySave (''Invalid UTF-8: '' @ e)) (io_utf8 G output))"

definition export_secret_key :: "pgp_io \<Rightarrow> Identity \<Rightarrow> string PasskeyResult" where
  "export_secret_key G i =
     try_bind (map_err armor_error (io_armor_secret G i)) (\<lambda>output.
     map_err (\<lambda>e. PasskeyError.KeySave (''Invalid UTF-8: '' @ e)) (io_utf8 G output))"

definition from_armored_secret_key :: "pgp_io \<Rightarrow> string \<Rightarrow> Identity PasskeyResult" where
  "from_armored_secret_key G armored =
     try_bind (map_err (\<lambda>e. PasskeyError.KeyLoad (''Failed to parse armored key: '' @ e))
       (io_parse G (as_bytes armored))) (\<lambda>c. Inr (identity_of G c))"

definition from_armored_public_key :: "pgp_io \<Rightarrow> string \<Rightarrow> Identity PasskeyResult" where
  "from_armored_public_key G armored =
     try_bind (map_err (\<lambda>e. PasskeyError.KeyLoad (''Failed to parse armored key: '' @ e))
       (io_parse G (as_bytes armored))) (\<lambda>c. Inr (identity_of G c))"

definition parse_public_key :: "pgp_io \<Rightarrow> string \<Rightarrow> parsed_cert PasskeyResult" where
  "parse_public_key G armored =
     map_err (\<lambda>e. PasskeyError.InvalidPublicKey (''Failed to parse public key: '' @ e))
       (io_parse G (as_bytes armored))"

section \<open>Files\<close>

definition SECRET_KEY_FILE :: string where "SECRET_KEY_FILE = ''secret.pgp''"
definition PUBLIC_KEY_FILE :: string where "PUBLIC_KEY_FILE = ''public.pgp''"

type_synonym ('l, 'a) passkey_sealing = "'l \<Rightarrow> (panic + 'a PasskeyResult) \<times> 'l"

definition seal_secret_key ::
    "'w lpk_host \<Rightarrow> bytes \<Rightarrow> bytes \<Rightarrow> bytes \<Rightarrow> ('w lpk_state, bytes) passkey_sealing" where
  "seal_secret_key h drawn drawn_nonce tsk_bytes s =
     (case wrap_at_rest h drawn drawn_nonce tsk_bytes s of
        (Inl p, s') \<Rightarrow> (Inl p, s')
      | (Inr r, s') \<Rightarrow> (Inr (map_err (\<lambda>e. PasskeyError.KeySave
            (''refusing to write the secret key unsealed: the at-rest seal could not be made ''
             @ ''('' @ passkey_error_text e @ ''). Nothing was written.'')) r), s'))"

text \<open>The writes of \<open>save_to_with_sealer\<close>, once the secret is sealed.\<close>

definition write_identity ::
    "pgp_io \<Rightarrow> faults \<Rightarrow> (component list \<Rightarrow> string) \<Rightarrow> Identity \<Rightarrow> component list \<Rightarrow> bytes \<Rightarrow> tree
     \<Rightarrow> unit PasskeyResult \<times> tree" where
  "write_identity G F disp i path secret_to_write t =
     (let secret_path = path @ [Normal SECRET_KEY_FILE];
          public_path = path @ [Normal PUBLIC_KEY_FILE];
          failed = (\<lambda>p e. PasskeyError.KeySave (''Failed to create '' @ disp p @ '': '' @ io_text F e))
      in case create_dir_all F t [] path of
           (Inl e, t1) \<Rightarrow> (Inl (PasskeyError.KeySave (''Failed to create directory '' @ disp path
               @ '': '' @ io_text F e)), t1)
         | (Inr _, t1) \<Rightarrow> (case write_file F t1 secret_path secret_to_write of
               (Inl e, t2) \<Rightarrow> (Inl (failed secret_path e), t2)
             | (Inr _, t2) \<Rightarrow> (case set_mode F t2 secret_path of
                   Inl e \<Rightarrow> (Inl (PasskeyError.Io (io_text F e)), t2)
                 | Inr _ \<Rightarrow> (case write_file F t2 public_path [] of
                       (Inl e, t3) \<Rightarrow> (Inl (failed public_path e), t3)
                     | (Inr _, t3) \<Rightarrow> (case io_cert G i of
                           Inl (e, partial) \<Rightarrow> (Inl (PasskeyError.KeySave
                             (''Failed to write public key: '' @ e)), snd (write_file F t3 public_path partial))
                         | Inr cert \<Rightarrow> (case write_file F t3 public_path cert of
                               (Inl e, t4) \<Rightarrow> (Inl (PasskeyError.KeySave
                                 (''Failed to write public key: '' @ io_text F e)), t4)
                             | (Inr _, t4) \<Rightarrow> (Inr (), t4)))))))"

definition save_to_with_sealer ::
    "pgp_io \<Rightarrow> faults \<Rightarrow> (component list \<Rightarrow> string) \<Rightarrow> Identity \<Rightarrow> component list
     \<Rightarrow> (bytes \<Rightarrow> ('l, bytes) passkey_sealing) \<Rightarrow> tree \<Rightarrow> 'l \<Rightarrow> (panic + unit PasskeyResult) \<times> tree \<times> 'l" where
  "save_to_with_sealer G F disp i path seal t s =
     (case map_err (\<lambda>e. PasskeyError.KeySave (''Failed to write secret key: '' @ e)) (io_tsk G i) of
        Inl e \<Rightarrow> (Inr (Inl e), t, s)
      | Inr tsk_bytes \<Rightarrow> (case seal tsk_bytes s of
            (Inl p, s') \<Rightarrow> (Inl p, t, s')
          | (Inr (Inl e), s') \<Rightarrow> (Inr (Inl e), t, s')
          | (Inr (Inr sealed), s') \<Rightarrow> (case write_identity G F disp i path sealed t of
                (r, t') \<Rightarrow> (Inr r, t', s'))))"

definition save_to ::
    "'w lpk_host \<Rightarrow> bytes \<Rightarrow> bytes \<Rightarrow> pgp_io \<Rightarrow> faults \<Rightarrow> (component list \<Rightarrow> string) \<Rightarrow> Identity
     \<Rightarrow> component list \<Rightarrow> tree \<Rightarrow> 'w lpk_state \<Rightarrow> (panic + unit PasskeyResult) \<times> tree \<times> 'w lpk_state" where
  "save_to h drawn drawn_nonce G F disp i path =
     save_to_with_sealer G F disp i path (seal_secret_key h drawn drawn_nonce)"

definition load_from ::
    "'w lpk_host \<Rightarrow> bytes \<Rightarrow> pgp_io \<Rightarrow> faults \<Rightarrow> (component list \<Rightarrow> string) \<Rightarrow> component list \<Rightarrow> tree
     \<Rightarrow> ('w lpk_state, Identity) passkey_sealing" where
  "load_from h drawn G F disp path t s =
     (let secret_path = path @ [Normal SECRET_KEY_FILE];
          parse = (\<lambda>cert_data. try_bind (map_err (\<lambda>e. PasskeyError.KeyLoad
              (''Failed to parse certificate: '' @ e)) (io_parse G cert_data)) (\<lambda>c. Inr (identity_of G c)))
      in if stat F t secret_path = None then (Inr (Inl PasskeyError.IdentityNotFound), s)
         else case read_file F t secret_path of
           Inl e \<Rightarrow> (Inr (Inl (PasskeyError.KeyLoad (''Failed to read '' @ disp secret_path @ '': ''
               @ io_text F e))), s)
         | Inr raw \<Rightarrow>
             (if is_wrapped raw
              then (case unwrap_at_rest h drawn raw s of
                  (Inl p, s') \<Rightarrow> (Inl p, s')
                | (Inr (Inl e), s') \<Rightarrow> (Inr (Inl (PasskeyError.KeyLoad
                    (''Failed to open sealed secret key: '' @ passkey_error_text e))), s')
                | (Inr (Inr cert_data), s') \<Rightarrow> (Inr (parse cert_data), s'))
              else (Inr (parse raw), s)))"

section \<open>Of a user\<close>

record user_paths =
  up_debug :: "string \<Rightarrow> string"
  up_canon :: "component list \<Rightarrow> component list option"
  up_platform :: platform
  up_config :: PasskeyConfig

definition identity_dir_checked :: "user_paths \<Rightarrow> string \<Rightarrow> component list PasskeyResult" where
  "identity_dir_checked c u = checked_identity_dir (up_debug c) (up_canon c) (up_platform c) (up_config c) u"

definition load_user ::
    "'w lpk_host \<Rightarrow> bytes \<Rightarrow> pgp_io \<Rightarrow> faults \<Rightarrow> (component list \<Rightarrow> string) \<Rightarrow> user_paths \<Rightarrow> string \<Rightarrow> tree
     \<Rightarrow> ('w lpk_state, Identity) passkey_sealing" where
  "load_user h drawn G F disp c u t s =
     (case identity_dir_checked c u of
        Inl e \<Rightarrow> (Inr (Inl e), s)
      | Inr path \<Rightarrow> load_from h drawn G F disp path t s)"

definition save_for_user ::
    "'w lpk_host \<Rightarrow> bytes \<Rightarrow> bytes \<Rightarrow> pgp_io \<Rightarrow> faults \<Rightarrow> (component list \<Rightarrow> string) \<Rightarrow> Identity \<Rightarrow> user_paths
     \<Rightarrow> string \<Rightarrow> tree \<Rightarrow> 'w lpk_state \<Rightarrow> (panic + unit PasskeyResult) \<times> tree \<times> 'w lpk_state" where
  "save_for_user h drawn drawn_nonce G F disp i c u t s =
     (case identity_dir_checked c u of
        Inl e \<Rightarrow> (Inr (Inl e), t, s)
      | Inr path \<Rightarrow> save_to h drawn drawn_nonce G F disp i path t s)"

definition identity_exists_at :: "faults \<Rightarrow> tree \<Rightarrow> component list \<Rightarrow> bool" where
  "identity_exists_at F t path \<longleftrightarrow> stat F t (path @ [Normal SECRET_KEY_FILE]) \<noteq> None"

definition exists_for_user :: "faults \<Rightarrow> tree \<Rightarrow> user_paths \<Rightarrow> string \<Rightarrow> bool" where
  "exists_for_user F t c u \<longleftrightarrow>
     (case identity_dir_checked c u of
        Inl _ \<Rightarrow> False
      | Inr d \<Rightarrow> stat F t (d @ [Normal SECRET_KEY_FILE]) \<noteq> None)"

definition remove_if_there :: "faults \<Rightarrow> component list \<Rightarrow> tree \<Rightarrow> unit PasskeyResult \<times> tree" where
  "remove_if_there F p t =
     (if stat F t p \<noteq> None
      then (case remove_file F t p of (r, t') \<Rightarrow> (map_err (\<lambda>e. PasskeyError.Io (io_text F e)) r, t'))
      else (Inr (), t))"

definition delete_identity_at :: "faults \<Rightarrow> component list \<Rightarrow> tree \<Rightarrow> unit PasskeyResult \<times> tree" where
  "delete_identity_at F path t =
     (case remove_if_there F (path @ [Normal SECRET_KEY_FILE]) t of
        (Inl e, t1) \<Rightarrow> (Inl e, t1)
      | (Inr _, t1) \<Rightarrow> remove_if_there F (path @ [Normal PUBLIC_KEY_FILE]) t1)"

definition delete_user_identity :: "faults \<Rightarrow> user_paths \<Rightarrow> string \<Rightarrow> tree \<Rightarrow> unit PasskeyResult \<times> tree" where
  "delete_user_identity F c u t =
     (case identity_dir_checked c u of
        Inl e \<Rightarrow> (Inl e, t)
      | Inr path \<Rightarrow> delete_identity_at F path t)"

definition ensure_identity_dir :: "faults \<Rightarrow> user_paths \<Rightarrow> string \<Rightarrow> tree \<Rightarrow> unit PasskeyResult \<times> tree" where
  "ensure_identity_dir F c u t =
     (case identity_dir_checked c u of
        Inl e \<Rightarrow> (Inl e, t)
      | Inr path \<Rightarrow> (case create_dir_all F t [] path of
            (r, t') \<Rightarrow> (map_err (\<lambda>e. PasskeyError.Io (io_text F e)) r, t')))"

end
