(* ===== verification/Identity_Laws.thy ===== *)
theory Identity_Laws
  imports Identity_Store Keywrap_Laws
begin

text \<open>
  What the identity files promise: a save that cannot seal writes nothing, a saved identity is the one
  that loads, also after a restart, and names decide which directory is touched.
\<close>

section \<open>Writing\<close>

lemmas identity_files = SECRET_KEY_FILE_def PUBLIC_KEY_FILE_def

lemma write_identity_effect:
  assumes "write_identity G F disp i (key_dir ds) c t = (r, t')" and "tree_ok t"
  shows "tree_ok t' \<and> (\<forall>q d. q \<notin> {ds @ [SECRET_KEY_FILE], ds @ [PUBLIC_KEY_FILE]} \<longrightarrow>
      (node_at t' q = Some (File d) \<longleftrightarrow> node_at t q = Some (File d)))
    \<and> (r = Inr () \<longrightarrow> node_at t' (ds @ [SECRET_KEY_FILE]) = Some (File c)
        \<and> (\<exists>cert. io_cert G i = Inr cert \<and> node_at t' (ds @ [PUBLIC_KEY_FILE]) = Some (File cert)))"
proof -
  let ?sec = "ds @ [SECRET_KEY_FILE]" and ?pub = "ds @ [PUBLIC_KEY_FILE]"
  let ?same = "\<lambda>t t'. tree_ok t' \<and> (\<forall>q d. q \<notin> {?sec, ?pub} \<longrightarrow>
      (node_at t' q = Some (File d) \<longleftrightarrow> node_at t q = Some (File d)))"
  have neq: "?sec \<noteq> ?pub" by (simp add: identity_files)
  obtain r1 t1 where dir: "create_dir_all F t [] (key_dir ds) = (r1, t1)" by (rule prod.exhaust)
  from create_dir_all_abs [OF dir [unfolded key_dir_def] assms(2)]
  have s1: "?same t t1" by (metis node.distinct(1) option.distinct(1) option.inject)
  have written: "?same t1' t2 \<and> (\<forall>q. q \<noteq> p \<longrightarrow> node_at t2 q = node_at t1' q)
      \<and> (r2 = Inr () \<longrightarrow> node_at t2 p = Some (File dat))"
    if "write_file F t1' (RootDir # map Normal p) dat = (r2, t2)" "tree_ok t1'" "p \<in> {?sec, ?pub}" for t1' t2 p dat r2
    using write_file_abs [OF that(1,2)] that(3) by auto
  have path: "key_dir ds @ [Normal n] = RootDir # map Normal (ds @ [n])" for n by (rule key_dir_file)
  show ?thesis
  proof (cases r1)
    case (Inl e)
    with assms(1) dir s1 show ?thesis by (auto simp: write_identity_def Let_def)
  next
    case (Inr u)
    obtain r2 t2 where w2: "write_file F t1 (RootDir # map Normal ?sec) c = (r2, t2)" by (rule prod.exhaust)
    note s2 = written [OF w2]
    show ?thesis
    proof (cases "r2 = Inr () \<and> set_mode F t2 (RootDir # map Normal ?sec) = Inr ()")
      case False
      then have "t' = t2 \<and> r \<noteq> Inr ()"
        using assms(1) dir Inr w2
        by (auto simp: write_identity_def Let_def path simp del: map_append split: sum.splits)
      with s1 s2 show ?thesis by auto
    next
      case True
      obtain r3 t3 where w3: "write_file F t2 (RootDir # map Normal ?pub) [] = (r3, t3)" by (rule prod.exhaust)
      note s3 = written [OF w3]
      show ?thesis
      proof (cases r3)
        case (Inl e)
        then have "t' = t3 \<and> r \<noteq> Inr ()"
          using assms(1) dir Inr w2 True w3
          by (auto simp: write_identity_def Let_def path simp del: map_append)
        with s1 s2 s3 show ?thesis by auto
      next
        case (Inr u)
        define dat where "dat = (case io_cert G i of Inl (e, partial) \<Rightarrow> partial | Inr cert \<Rightarrow> cert)"
        obtain r4 t4 where w4: "write_file F t3 (RootDir # map Normal ?pub) dat = (r4, t4)" by (rule prod.exhaust)
        note s4 = written [OF w4]
        have "t' = t4 \<and> (r = Inr () \<longrightarrow> r4 = Inr () \<and> io_cert G i = Inr dat)"
          using assms(1) dir \<open>r1 = Inr _\<close> w2 True w3 Inr w4
          by (auto simp: write_identity_def Let_def path dat_def simp del: map_append
              split: sum.splits prod.splits)
        with s1 s2 s3 s4 True neq show ?thesis by auto
      qed
    qed
  qed
qed

text \<open>C38: Saving an identity fails closed: if the certificate cannot be serialized, or the sealer refuses
  or panics, nothing at all is written, not even the directory; otherwise only the two key files of
  that directory can change, and after a success the secret file is exactly what the sealer made of
  the secret key and the public file the public certificate.\<close>

theorem identity_save_fails_closed:
  assumes "save_to_with_sealer G F disp i (key_dir ds) seal t s = (res, t', s')" and "tree_ok t"
  shows "((\<forall>tsk sealed. io_tsk G i = Inr tsk \<longrightarrow> fst (seal tsk s) \<noteq> Inr (Inr sealed)) \<longrightarrow>
        t' = t \<and> res \<noteq> Inr (Inr ()))
    \<and> tree_ok t'
    \<and> (\<forall>q d. q \<notin> {ds @ [SECRET_KEY_FILE], ds @ [PUBLIC_KEY_FILE]} \<longrightarrow>
         (node_at t' q = Some (File d) \<longleftrightarrow> node_at t q = Some (File d)))
    \<and> (res = Inr (Inr ()) \<longrightarrow> (\<exists>tsk sealed cert. io_tsk G i = Inr tsk \<and> fst (seal tsk s) = Inr (Inr sealed)
         \<and> io_cert G i = Inr cert \<and> node_at t' (ds @ [SECRET_KEY_FILE]) = Some (File sealed)
         \<and> node_at t' (ds @ [PUBLIC_KEY_FILE]) = Some (File cert)))"
proof (cases "io_tsk G i")
  case (Inl e)
  with assms show ?thesis by (auto simp: save_to_with_sealer_def)
next
  case tsk: (Inr tsk)
  obtain x s1 where sl: "seal tsk s = (x, s1)" by (rule prod.exhaust)
  consider "\<forall>sealed. x \<noteq> Inr (Inr sealed)" | sealed where "x = Inr (Inr sealed)" by blast
  then show ?thesis
  proof cases
    case 1
    then have "t' = t \<and> res \<noteq> Inr (Inr ())"
      using assms(1) tsk sl by (auto simp: save_to_with_sealer_def split: sum.splits)
    with assms(2) tsk sl show ?thesis by auto
  next
    case 2
    obtain r t1 where w: "write_identity G F disp i (key_dir ds) sealed t = (r, t1)" by (rule prod.exhaust)
    have "t' = t1 \<and> res = Inr r"
      using assms(1) tsk sl 2 w by (auto simp: save_to_with_sealer_def)
    with write_identity_effect [OF w assms(2)] tsk sl 2 show ?thesis by auto
  qed
qed

section \<open>Save and load\<close>

lemma save_to_Inr:
  assumes "save_to h drawn n G F disp i (key_dir ds) t s = (Inr (Inr ()), t', s')" and "tree_ok t"
  obtains tsk blob where "io_tsk G i = Inr tsk" "wrap_at_rest h drawn n tsk s = (Inr (Inr blob), s')"
    "node_at t' (ds @ [SECRET_KEY_FILE]) = Some (File blob)" "tree_ok t'"
proof -
  obtain tsk where tsk: "io_tsk G i = Inr tsk"
    using assms(1) by (cases "io_tsk G i") (auto simp: save_to_def save_to_with_sealer_def)
  obtain x s1 where w: "wrap_at_rest h drawn n tsk s = (x, s1)" by (rule prod.exhaust)
  obtain blob where x: "x = Inr (Inr blob)"
    using assms(1) tsk w
    by (cases x) (auto simp: save_to_def save_to_with_sealer_def seal_secret_key_def map_err_def split: sum.splits)
  have "write_identity G F disp i (key_dir ds) blob t = (Inr (), t') \<and> s' = s1"
    using assms(1) tsk w x
    by (auto simp: save_to_def save_to_with_sealer_def seal_secret_key_def split: prod.splits)
  with write_identity_effect [of G F disp i ds blob t "Inr ()" t'] assms(2) tsk w x that show thesis by blast
qed

lemma load_file:
  assumes "node_at t (ds @ [SECRET_KEY_FILE]) = Some (File blob)" and "tree_ok t" and "readable F"
    and "is_wrapped blob" and "unwrap_at_rest h drawn blob s = (Inr (Inr tsk), s')" and "io_parse G tsk = Inr c"
  shows "load_from h drawn G F disp (key_dir ds) t s = (Inr (Inr (identity_of G c)), s')"
proof -
  have no: "\<not> ft_stat F p" "ft_read F p = None" for p using assms(3) by (simp_all add: readable_def)
  have "stat F t (key_dir ds @ [Normal SECRET_KEY_FILE]) \<noteq> None"
    "read_file F t (key_dir ds @ [Normal SECRET_KEY_FILE]) = Inr blob"
    by (simp_all only: key_dir_file stat_abs [OF assms(2)] read_file_abs [OF assms(2)] no assms(1)) simp
  with assms(4-6) show ?thesis unfolding load_from_def Let_def by auto
qed

lemma wrap_at_rest_wrapped: "wrap_at_rest h drawn n p s = (Inr (Inr blob), s') \<Longrightarrow> is_wrapped blob"
  by (auto simp: wrap_at_rest_def wrap_with_key_eq_Inr try_bind_eq_Inr split: sum.splits prod.splits)

text \<open>A saved identity survives: where OpenPGP parses what it serialized, the next process on the
  host, with the same keyring or the same headless secret, loads from the directory the identity that
  was saved, whatever its random generator draws, and without changing the keyring.\<close>

theorem saved_identity_loads:
  assumes "save_to h drawn n G F disp i (key_dir ds) t s = (Inr (Inr ()), t', s')"
    and "tree_ok t" "readable F"
    and "\<forall>tsk. io_tsk G i = Inr tsk \<longrightarrow> (\<exists>c. io_parse G tsk = Inr c \<and> identity_of G c = i)"
    and "host_ok h" "gcm_ok (lh_prim h)" "length drawn = 32" "length n = 12" "ls_cache s = None"
    and "lh_persistent h \<Longrightarrow> \<exists>k. ls_cache s' = Some (k, OsKeyring)"
    and "ls_ring s2 = ls_ring s'" "ls_cache s2 = None"
  shows "\<exists>s3. load_from h drawn2 G F disp (key_dir ds) t' s2 = (Inr (Inr i), s3) \<and> ls_ring s3 = ls_ring s2"
proof -
  from save_to_Inr [OF assms(1,2)] obtain tsk blob where tsk: "io_tsk G i = Inr tsk"
    and w: "wrap_at_rest h drawn n tsk s = (Inr (Inr blob), s')"
    and at: "node_at t' (ds @ [SECRET_KEY_FILE]) = Some (File blob)" "tree_ok t'" .
  from assms(4) tsk obtain c where c: "io_parse G tsk = Inr c" "identity_of G c = i" by blast
  from wrap_then_unwrap [OF assms(5-9) w assms(10-12)] obtain s3 where
    u: "unwrap_at_rest h drawn2 blob s2 = (Inr (Inr tsk), s3)" and "ls_ring s3 = ls_ring s2" by blast
  with load_file [OF at assms(3) wrap_at_rest_wrapped [OF w] u c(1)] c(2) show ?thesis by blast
qed

text \<open>After a deletion that succeeds there is no identity, and no other file changed.\<close>

lemma remove_if_there_effect:
  assumes "remove_if_there F (RootDir # map Normal p) t = (r, t')" and "tree_ok t"
  shows "tree_ok t' \<and> (\<forall>q. q \<noteq> p \<longrightarrow> node_at t' q = node_at t q)
    \<and> (r = Inr () \<longrightarrow> stat F t' (RootDir # map Normal p) = None)"
proof (cases "stat F t (RootDir # map Normal p) = None")
  case True
  with assms show ?thesis by (auto simp: remove_if_there_def)
next
  case False
  obtain r1 t1 where rm: "remove_file F t (RootDir # map Normal p) = (r1, t1)" by (rule prod.exhaust)
  have res: "t' = t1" "r = Inr () \<longrightarrow> r1 = Inr ()"
    using assms(1) False rm by (auto simp: remove_if_there_def)
  from remove_file_abs [OF rm] show ?thesis
  proof
    assume *: "r1 = Inr () \<and> t1 = remove_node p t \<and> (\<exists>d. node_at t p = Some (File d))"
    then have p: "p \<noteq> []" by auto
    have ok: "tree_ok t1" using * tree_ok_remove [OF assms(2)] by blast
    from * p ok show ?thesis unfolding res(1) by (simp add: stat_abs [OF ok, simplified *])
  qed (use res assms(2) in auto)
qed

lemma delete_identity_effect:
  assumes "delete_identity_at F (key_dir ds) t = (Inr (), t')" and "tree_ok t"
  shows "tree_ok t' \<and> \<not> identity_exists_at F t' (key_dir ds)
    \<and> (\<forall>q. q \<notin> {ds @ [SECRET_KEY_FILE], ds @ [PUBLIC_KEY_FILE]} \<longrightarrow> node_at t' q = node_at t q)"
proof -
  have path: "key_dir ds @ [Normal n] = RootDir # map Normal (ds @ [n])" for n by (rule key_dir_file)
  obtain t1 where r1: "remove_if_there F (RootDir # map Normal (ds @ [SECRET_KEY_FILE])) t = (Inr (), t1)"
    and r2: "remove_if_there F (RootDir # map Normal (ds @ [PUBLIC_KEY_FILE])) t1 = (Inr (), t')"
    using assms(1)
    by (auto simp: delete_identity_at_def path simp del: map_append split: prod.splits sum.splits)
  note e1 = remove_if_there_effect [OF r1 assms(2)]
  then have ok1: "tree_ok t1" by simp
  note e2 = remove_if_there_effect [OF r2 ok1]
  then have ok2: "tree_ok t'" by simp
  have "node_at t' (ds @ [SECRET_KEY_FILE]) = node_at t1 (ds @ [SECRET_KEY_FILE])"
    using e2 by (simp add: identity_files)
  with e1 have "stat F t' (RootDir # map Normal (ds @ [SECRET_KEY_FILE])) = None"
    by (simp only: stat_abs [OF ok1] stat_abs [OF ok2])
  with e1 e2 ok2 show ?thesis by (simp add: identity_exists_at_def path)
qed

section \<open>Witnesses\<close>

definition demo_pgp_io :: pgp_io where
  "demo_pgp_io = \<lparr>io_generate = \<lambda>u. Inr ([], ''F''), io_tsk = \<lambda>i. Inr [7], io_cert = \<lambda>i. Inr [8],
     io_armor_secret = \<lambda>i. Inr [7], io_armor_public = \<lambda>i. Inr [8],
     io_parse = \<lambda>b. Inr \<lparr>pc_keys = [], pc_fingerprint = ''F'', pc_user_id = None\<rparr>,
     io_utf8 = \<lambda>b. Inr (map char_of_byte b)\<rparr>"

definition demo_id :: Identity where
  "demo_id = \<lparr>id_keys = [], id_fingerprint = ''F'', id_user = ''unknown''\<rparr>"

lemma demo_parses: "io_parse demo_pgp_io b = Inr c \<Longrightarrow> identity_of demo_pgp_io c = demo_id"
  by (auto simp: demo_pgp_io_def demo_id_def identity_of_def)

text \<open>One identity only can be exported.\<close>

definition demo_pgp_one :: pgp_io where
  "demo_pgp_one = demo_pgp_io\<lparr>io_armor_secret := \<lambda>i. if i = demo_id then Inr [7] else Inl (ArmorCreate, [])\<rparr>"

lemma demo_pgp_one:
  "export_secret_key demo_pgp_one i = Inr k \<Longrightarrow> \<exists>c. io_parse demo_pgp_one b = Inr c \<and> identity_of demo_pgp_one c = i"
  "io_utf8 demo_pgp_one (as_bytes s) = Inr s"
  using demo_parses [of b]
  by (auto simp: demo_pgp_one_def demo_pgp_io_def export_secret_key_def identity_of_def as_bytes_def comp_def
      split: if_splits)

lemma demo_write_identity:
  "\<exists>t'. write_identity demo_pgp_io calm (\<lambda>_. []) demo_id (key_dir [''k'']) blob [] = (Inr (), t')"
  by (simp add: write_identity_def key_dir_def write_file_def set_mode_def calm_def node_at_def Let_def
      demo_pgp_io_def identity_files)

theorem identity_save_fails_closed_witness:
  "save_to_with_sealer demo_pgp_io calm (\<lambda>_. []) demo_id (key_dir [''k''])
     (\<lambda>b s. (Inr (Inl NoActiveUser), s)) [] () = (Inr (Inl NoActiveUser), [], ())
   \<and> tree_ok []"
proof -
  have run: "save_to_with_sealer demo_pgp_io calm (\<lambda>_. []) demo_id (key_dir [''k''])
     (\<lambda>b s. (Inr (Inl NoActiveUser), s)) [] () = (Inr (Inl NoActiveUser), [], ())"
    by (simp add: save_to_with_sealer_def demo_pgp_io_def)
  have "tree_ok []" by (simp add: tree_ok_def node_at_def)
  from identity_save_fails_closed [OF run this] run show ?thesis by simp
qed

theorem saved_identity_loads_witness:
  "\<exists>t' s3. save_to demo_host demo_key (replicate 12 0) demo_pgp_io calm (\<lambda>_. []) demo_id (key_dir [''k'']) [] demo_first
      = (Inr (Inr ()), t', demo_minted)
    \<and> load_from demo_host [] demo_pgp_io calm (\<lambda>_. []) (key_dir [''k'']) t'
        (demo_minted\<lparr>ls_cache := None, ls_marker := False\<rparr>) = (Inr (Inr demo_id), s3)"
proof -
  let ?s2 = "demo_minted\<lparr>ls_cache := None, ls_marker := False\<rparr>"
  have "io_tsk demo_pgp_io demo_id = Inr [7]" by (simp add: demo_pgp_io_def)
  with demo_write_identity [of "KEYWRAP_MAGIC @ replicate 12 0 @ [7] @ demo_tag [] [7]"] obtain t' where
    run: "save_to demo_host demo_key (replicate 12 0) demo_pgp_io calm (\<lambda>_. []) demo_id (key_dir [''k'']) [] demo_first
      = (Inr (Inr ()), t', demo_minted)"
    by (auto simp: save_to_def save_to_with_sealer_def seal_secret_key_def demo_wrap_at_rest)
  have ok: "tree_ok []" and rd: "readable calm"
    by (simp_all add: tree_ok_def node_at_def readable_def calm_def)
  have parse: "\<forall>tsk. io_tsk demo_pgp_io demo_id = Inr tsk \<longrightarrow>
      (\<exists>c. io_parse demo_pgp_io tsk = Inr c \<and> identity_of demo_pgp_io c = demo_id)"
  proof -
    obtain c where "io_parse demo_pgp_io [7] = Inr c" by (simp add: demo_pgp_io_def)
    with demo_parses show ?thesis by (auto simp: demo_pgp_io_def)
  qed
  have gcm: "gcm_ok (lh_prim demo_host)" using demo_gcm_ok by (simp add: demo_host_def)
  have "\<exists>s3. load_from demo_host [] demo_pgp_io calm (\<lambda>_. []) (key_dir [''k'']) t' ?s2 = (Inr (Inr demo_id), s3)
      \<and> ls_ring s3 = ls_ring ?s2"
    by (rule saved_identity_loads [OF run ok rd parse demo_host_ok gcm])
       (simp_all add: demo_key_def demo_first_def demo_minted_def)
  with run show ?thesis by blast
qed

end
