(* ===== verification/Cloud_Backup.thy ===== *)
theory Cloud_Backup
  imports Identity_Laws
begin

text \<open>
  \<open>gitcellar-crypto/src/cloud_backup.rs\<close>: the bundle in which an identity is kept on the server,
  sealed under the key of the recovery code (and, in a path the sources keep but no longer use,
  under a passkey).

  HKDF and AES-256-GCM are \<open>primitives\<close>, armored keys \<open>pgp_io\<close>; base64 and the JSON of \<open>serde_json\<close>
  are in \<open>backup_env\<close>, as is the rendering of the time. \<open>salt\<close> and \<open>nonce\<close> are what the random
  generator gives. The development-only assertion of \<open>encrypt_payload\<close> holds at both callers.
\<close>

section \<open>Definitions\<close>

definition BUNDLE_VERSION :: string where "BUNDLE_VERSION = ''1.0''"
definition SALT_SIZE :: nat where "SALT_SIZE = 32"
definition CB_NONCE_SIZE :: nat where "CB_NONCE_SIZE = 12"
definition RECOVERY_CODE_CONTEXT :: bytes where
  "RECOVERY_CODE_CONTEXT = as_bytes ''gitcellar-cloud-backup-recovery-code-v1''"
definition PASSKEY_CONTEXT :: bytes where
  "PASSKEY_CONTEXT = as_bytes ''gitcellar-cloud-backup-passkey-v1''"

record EncryptedPayload =
  ep_salt :: string
  ep_nonce :: string
  ep_ciphertext :: string

record PasskeyPayload =
  pp_credential_id :: string
  pp_encrypted :: EncryptedPayload

record CloudBackupBundle =
  cb_version :: string
  cb_fingerprint :: string
  cb_user_id :: string
  cb_created_at :: string
  cb_recovery_code :: "EncryptedPayload option"
  cb_passkey :: "PasskeyPayload option"

record backup_env =
  be_prim :: primitives
  be_pgp :: pgp_io
  be_b64_encode :: "bytes \<Rightarrow> string"
  be_b64_decode :: "string \<Rightarrow> string + bytes"
  be_json :: "CloudBackupBundle \<Rightarrow> string + string"
  be_parse :: "string \<Rightarrow> string + CloudBackupBundle"
  be_now :: string

definition serialize_identity :: "backup_env \<Rightarrow> Identity \<Rightarrow> bytes CryptoResult" where
  "serialize_identity E i =
     try_bind (map_err from_passkey_error (export_secret_key (be_pgp E) i)) (\<lambda>k. Inr (as_bytes k))"

definition deserialize_identity :: "backup_env \<Rightarrow> bytes \<Rightarrow> Identity CryptoResult" where
  "deserialize_identity E dat =
     try_bind (map_err (\<lambda>e. CryptoError.Decryption (''Invalid UTF-8 in decrypted identity: '' @ e))
       (io_utf8 (be_pgp E) dat)) (\<lambda>k.
     map_err from_passkey_error (from_armored_secret_key (be_pgp E) k))"

definition encrypt_payload ::
    "backup_env \<Rightarrow> bytes \<Rightarrow> bytes \<Rightarrow> bytes \<Rightarrow> bytes \<Rightarrow> bytes \<Rightarrow> EncryptedPayload CryptoResult" where
  "encrypt_payload E salt nonce dat key_material ctxt =
     try_bind (ok_or (CryptoError.Encryption ''HKDF expansion failed'')
       (hkdf_sha256 (be_prim E) (Some salt) key_material ctxt 32)) (\<lambda>encryption_key.
     try_bind (ok_or (CryptoError.Encryption ''Cipher creation failed: '')
       (aes_gcm_new (be_prim E) encryption_key)) (\<lambda>cipher.
     try_bind (ok_or (CryptoError.Encryption ''Encryption failed: '')
       (aead_seal cipher nonce [] dat)) (\<lambda>ciphertext.
     Inr \<lparr>ep_salt = be_b64_encode E salt, ep_nonce = be_b64_encode E nonce,
       ep_ciphertext = be_b64_encode E ciphertext\<rparr>)))"

definition decrypt_payload ::
    "backup_env \<Rightarrow> EncryptedPayload \<Rightarrow> bytes \<Rightarrow> bytes \<Rightarrow> bytes CryptoResult" where
  "decrypt_payload E payload key_material ctxt =
     try_bind (map_err (\<lambda>e. BundleFormat (''Invalid salt encoding: '' @ e))
       (be_b64_decode E (ep_salt payload))) (\<lambda>salt.
     try_bind (map_err (\<lambda>e. BundleFormat (''Invalid nonce encoding: '' @ e))
       (be_b64_decode E (ep_nonce payload))) (\<lambda>nonce_bytes.
     try_bind (map_err (\<lambda>e. BundleFormat (''Invalid ciphertext encoding: '' @ e))
       (be_b64_decode E (ep_ciphertext payload))) (\<lambda>ciphertext.
     try_bind (ok_or (CryptoError.Decryption ''HKDF expansion failed'')
       (hkdf_sha256 (be_prim E) (Some salt) key_material ctxt 32)) (\<lambda>encryption_key.
     try_bind (ok_or (CryptoError.Decryption ''Cipher creation failed: '')
       (aes_gcm_new (be_prim E) encryption_key)) (\<lambda>cipher.
     if length nonce_bytes \<noteq> CB_NONCE_SIZE
     then Inl (BundleFormat (''Invalid nonce size: '' @ nat_to_string (length nonce_bytes)
       @ '' (expected '' @ nat_to_string CB_NONCE_SIZE @ '')''))
     else ok_or InvalidPassword (aead_open cipher nonce_bytes [] ciphertext))))))"

definition create_with_recovery_code ::
    "backup_env \<Rightarrow> bytes \<Rightarrow> bytes \<Rightarrow> Identity \<Rightarrow> bytes \<Rightarrow> CloudBackupBundle CryptoResult" where
  "create_with_recovery_code E salt nonce i recovery_key_material =
     (if length recovery_key_material \<noteq> 32
      then Inl (CryptoError.Encryption (''Recovery key material must be 32 bytes, got ''
        @ nat_to_string (length recovery_key_material)))
      else try_bind (serialize_identity E i) (\<lambda>identity_data.
        try_bind (encrypt_payload E salt nonce identity_data recovery_key_material RECOVERY_CODE_CONTEXT)
          (\<lambda>recovery_payload.
        Inr \<lparr>cb_version = BUNDLE_VERSION, cb_fingerprint = id_fingerprint i, cb_user_id = id_user i,
          cb_created_at = be_now E, cb_recovery_code = Some recovery_payload, cb_passkey = None\<rparr>)))"

definition add_passkey_encryption ::
    "backup_env \<Rightarrow> bytes \<Rightarrow> bytes \<Rightarrow> Identity \<Rightarrow> bytes \<Rightarrow> bytes \<Rightarrow> CloudBackupBundle
     \<Rightarrow> unit CryptoResult \<times> CloudBackupBundle" where
  "add_passkey_encryption E salt nonce i passkey_key_material credential_id b =
     (if length passkey_key_material \<noteq> 32
      then (Inl (CryptoError.Encryption (''Passkey key material must be 32 bytes, got ''
        @ nat_to_string (length passkey_key_material))), b)
      else if id_fingerprint i \<noteq> cb_fingerprint b
      then (Inl (CryptoError.Encryption ''Identity fingerprint does not match bundle''), b)
      else case try_bind (serialize_identity E i) (\<lambda>identity_data.
             encrypt_payload E salt nonce identity_data passkey_key_material PASSKEY_CONTEXT) of
        Inl e \<Rightarrow> (Inl e, b)
      | Inr encrypted \<Rightarrow> (Inr (), b\<lparr>cb_passkey := Some \<lparr>pp_credential_id = be_b64_encode E credential_id,
            pp_encrypted = encrypted\<rparr>\<rparr>))"

definition checked_identity ::
    "backup_env \<Rightarrow> CloudBackupBundle \<Rightarrow> EncryptedPayload \<Rightarrow> bytes \<Rightarrow> bytes \<Rightarrow> Identity CryptoResult" where
  "checked_identity E b payload key_material ctxt =
     try_bind (decrypt_payload E payload key_material ctxt) (\<lambda>identity_data.
     try_bind (deserialize_identity E identity_data) (\<lambda>i.
     if id_fingerprint i \<noteq> cb_fingerprint b
     then Inl (CryptoError.Decryption ''Decrypted identity fingerprint does not match bundle'')
     else Inr i))"

definition decrypt_with_recovery_code ::
    "backup_env \<Rightarrow> CloudBackupBundle \<Rightarrow> bytes \<Rightarrow> Identity CryptoResult" where
  "decrypt_with_recovery_code E b recovery_key_material =
     (if length recovery_key_material \<noteq> 32
      then Inl (CryptoError.Decryption (''Recovery key material must be 32 bytes, got ''
        @ nat_to_string (length recovery_key_material)))
      else try_bind (ok_or (CryptoError.Decryption ''Bundle does not contain recovery code encryption'')
             (cb_recovery_code b)) (\<lambda>payload.
        checked_identity E b payload recovery_key_material RECOVERY_CODE_CONTEXT))"

definition decrypt_with_passkey :: "backup_env \<Rightarrow> CloudBackupBundle \<Rightarrow> bytes \<Rightarrow> Identity CryptoResult" where
  "decrypt_with_passkey E b passkey_key_material =
     (if length passkey_key_material \<noteq> 32
      then Inl (CryptoError.Decryption (''Passkey key material must be 32 bytes, got ''
        @ nat_to_string (length passkey_key_material)))
      else try_bind (ok_or (CryptoError.Decryption ''Bundle does not contain passkey encryption'')
             (cb_passkey b)) (\<lambda>pp.
        checked_identity E b (pp_encrypted pp) passkey_key_material PASSKEY_CONTEXT))"

definition passkey_credential_id :: "backup_env \<Rightarrow> CloudBackupBundle \<Rightarrow> bytes option" where
  "passkey_credential_id E b =
     (case cb_passkey b of
        None \<Rightarrow> None
      | Some p \<Rightarrow> (case be_b64_decode E (pp_credential_id p) of Inl _ \<Rightarrow> None | Inr c \<Rightarrow> Some c))"

definition has_recovery_code :: "CloudBackupBundle \<Rightarrow> bool" where
  "has_recovery_code b \<longleftrightarrow> cb_recovery_code b \<noteq> None"

definition has_passkey :: "CloudBackupBundle \<Rightarrow> bool" where
  "has_passkey b \<longleftrightarrow> cb_passkey b \<noteq> None"

definition backup_to_json :: "backup_env \<Rightarrow> CloudBackupBundle \<Rightarrow> string CryptoResult" where
  "backup_to_json E b =
     map_err (\<lambda>e. CryptoError.Encryption (''Failed to serialize bundle: '' @ e)) (be_json E b)"

definition backup_from_json :: "backup_env \<Rightarrow> string \<Rightarrow> CloudBackupBundle CryptoResult" where
  "backup_from_json E json =
     map_err (\<lambda>e. BundleFormat (''Failed to parse bundle JSON: '' @ e)) (be_parse E json)"

section \<open>What the bundle guarantees\<close>

text \<open>What is documented of base64, JSON and OpenPGP: each reads back what it wrote.\<close>

definition backup_env_ok :: "backup_env \<Rightarrow> bool" where
  "backup_env_ok E \<longleftrightarrow> gcm_ok (be_prim E)
     \<and> (\<forall>b. be_b64_decode E (be_b64_encode E b) = Inr b)
     \<and> (\<forall>b s. be_json E b = Inr s \<longrightarrow> be_parse E s = Inr b)
     \<and> (\<forall>s. io_utf8 (be_pgp E) (as_bytes s) = Inr s)
     \<and> (\<forall>i k. export_secret_key (be_pgp E) i = Inr k \<longrightarrow>
          (\<exists>c. io_parse (be_pgp E) (as_bytes k) = Inr c \<and> identity_of (be_pgp E) c = i))"

lemma decrypt_encrypt_payload:
  assumes "backup_env_ok E" and "encrypt_payload E salt nonce dat key ctxt = Inr p" and "length nonce = 12"
  shows "decrypt_payload E p key ctxt = Inr dat"
proof -
  from assms(2) obtain k c ct where k: "hkdf_sha256 (be_prim E) (Some salt) key ctxt 32 = Some k"
    "aes_gcm_new (be_prim E) k = Some c" "aead_seal c nonce [] dat = Some ct"
    and p: "p = \<lparr>ep_salt = be_b64_encode E salt, ep_nonce = be_b64_encode E nonce,
       ep_ciphertext = be_b64_encode E ct\<rparr>"
    by (auto simp: encrypt_payload_def try_bind_eq_Inr)
  have "aead_open c nonce [] ct = Some dat"
    using assms(1) k by (auto simp: backup_env_ok_def gcm_ok_def aead_ok_def)
  with assms(1,3) k show ?thesis by (simp add: p decrypt_payload_def backup_env_ok_def CB_NONCE_SIZE_def)
qed

lemma deserialize_serialize:
  "backup_env_ok E \<Longrightarrow> serialize_identity E i = Inr dat \<Longrightarrow> deserialize_identity E dat = Inr i"
  by (fastforce simp: backup_env_ok_def serialize_identity_def deserialize_identity_def
      from_armored_secret_key_def try_bind_eq_Inr)

lemma checked_identity_fingerprint:
  "checked_identity E b p key ctxt = Inr i \<Longrightarrow> id_fingerprint i = cb_fingerprint b"
  by (auto simp: checked_identity_def try_bind_eq_Inr split: if_splits)


definition demo_backup_bundle :: CloudBackupBundle where
  "demo_backup_bundle = \<lparr>cb_version = ''1.0'', cb_fingerprint = ''F'', cb_user_id = ''unknown'', cb_created_at = ''now'',
     cb_recovery_code = Some \<lparr>ep_salt = ''07'', ep_nonce = hex_encode (replicate 12 1),
       ep_ciphertext = hex_encode (7 # demo_tag [] [7])\<rparr>, cb_passkey = None\<rparr>"

definition demo_backup :: backup_env where
  "demo_backup = \<lparr>be_prim = demo_prim,
     be_pgp = demo_pgp_one,
     be_b64_encode = hex_encode, be_b64_decode = \<lambda>s. ok_or [] (hex_decode s),
     be_json = \<lambda>b. if b = demo_backup_bundle then Inr ''j'' else Inl [], be_parse = \<lambda>s. Inr demo_backup_bundle, be_now = ''now''\<rparr>"

lemma demo_backup_ok: "backup_env_ok demo_backup"
proof -
  have "be_json demo_backup b = Inr s \<Longrightarrow> be_parse demo_backup s = Inr b" for b s
    by (simp add: demo_backup_def split: if_splits)
  moreover have "gcm_ok (be_prim demo_backup)" using demo_gcm_ok by (simp add: demo_backup_def)
  moreover have "be_pgp demo_backup = demo_pgp_one" by (simp add: demo_backup_def)
  ultimately show ?thesis using demo_pgp_one by (simp add: backup_env_ok_def demo_backup_def)
qed


end
