(* ===== verification/Machine_Id.thy ===== *)
theory Machine_Id
  imports Identity_Store
begin

text \<open>
  \<open>passkey-core/src/auth/machine_id.rs\<close>: the name of a device, derived from the fingerprint of its
  key, and the checks of such names. A fingerprint is the hexadecimal text \<open>sequoia\<close> gives.
\<close>

section \<open>Definitions\<close>

definition MACHINE_ID_HEX_WIDTHS :: "nat list" where
  "MACHINE_ID_HEX_WIDTHS = [40, 64]"

definition is_valid_fingerprint_hex :: "string \<Rightarrow> bool" where
  "is_valid_fingerprint_hex s \<longleftrightarrow> length s \<in> set MACHINE_ID_HEX_WIDTHS \<and> list_all is_ascii_hexdigit s"

definition derive_machine_id_from_fingerprint :: "unicode \<Rightarrow> string \<Rightarrow> string \<Rightarrow> string" where
  "derive_machine_id_from_fingerprint U prefix fingerprint = prefix @ ''-'' @ to_lowercase U fingerprint"

definition derive_machine_id_from_identity :: "unicode \<Rightarrow> PasskeyConfig \<Rightarrow> Identity \<Rightarrow> string" where
  "derive_machine_id_from_identity U c i =
     derive_machine_id_from_fingerprint U (machine_id_prefix c) (id_fingerprint i)"

definition derive_machine_id_from_cert :: "unicode \<Rightarrow> PasskeyConfig \<Rightarrow> parsed_cert \<Rightarrow> string" where
  "derive_machine_id_from_cert U c cert =
     derive_machine_id_from_fingerprint U (machine_id_prefix c) (pc_fingerprint cert)"

definition derive_machine_id :: "pgp_io \<Rightarrow> unicode \<Rightarrow> PasskeyConfig \<Rightarrow> string \<Rightarrow> string PasskeyResult" where
  "derive_machine_id G U c public_key =
     try_bind (parse_public_key G public_key) (\<lambda>cert. Inr (derive_machine_id_from_cert U c cert))"

definition verify_machine_id ::
    "pgp_io \<Rightarrow> unicode \<Rightarrow> PasskeyConfig \<Rightarrow> string \<Rightarrow> string \<Rightarrow> bool PasskeyResult" where
  "verify_machine_id G U c public_key claimed_machine_id =
     try_bind (derive_machine_id G U c public_key) (\<lambda>expected. Inr (expected = claimed_machine_id))"

definition is_valid_machine_id :: "PasskeyConfig \<Rightarrow> string \<Rightarrow> bool" where
  "is_valid_machine_id c machine_id \<longleftrightarrow>
     (let parts = split_on (CHR ''-'') machine_id
      in length parts = 2 \<and> parts ! 0 = machine_id_prefix c \<and> is_valid_fingerprint_hex (parts ! 1))"

definition is_valid_machine_id_format :: "unicode \<Rightarrow> string \<Rightarrow> bool" where
  "is_valid_machine_id_format U machine_id \<longleftrightarrow>
     (let parts = split_on (CHR ''-'') machine_id
      in length parts = 2 \<and> 2 \<le> length (parts ! 0) \<and> length (parts ! 0) \<le> 6
         \<and> list_all (is_alphanumeric U) (utf8_chars (parts ! 0)) \<and> is_valid_fingerprint_hex (parts ! 1))"

definition extract_prefix :: "string \<Rightarrow> string option" where
  "extract_prefix machine_id = Some (hd (split_on (CHR ''-'') machine_id))"

definition extract_fingerprint :: "string \<Rightarrow> string option" where
  "extract_fingerprint machine_id =
     (case split_on (CHR ''-'') machine_id of [p, f] \<Rightarrow> Some f | _ \<Rightarrow> None)"

text \<open>The functions of \<open>gitcellar-identity\<close> are these with its configuration.\<close>

definition gcm_machine_id :: "unicode \<Rightarrow> Identity \<Rightarrow> string" where
  "gcm_machine_id U i = derive_machine_id_from_identity U config_gitcellar i"

definition is_valid_gcm_machine_id :: "string \<Rightarrow> bool" where
  "is_valid_gcm_machine_id machine_id \<longleftrightarrow> is_valid_machine_id config_gitcellar machine_id"

section \<open>A machine id names one key\<close>

lemma hex_digit_facts:
  assumes "is_ascii_hexdigit c"
  shows "is_ascii c" and "c \<noteq> CHR ''-''" and "is_ascii_hexdigit (ascii_lower c)" "ascii_lower c \<noteq> CHR ''-''"
proof -
  have c: "48 \<le> code_of c \<and> code_of c \<le> 57 \<or> 97 \<le> code_of c \<and> code_of c \<le> 102
    \<or> 65 \<le> code_of c \<and> code_of c \<le> 70"
    using assms by (auto simp: is_ascii_hexdigit_def hex_val_def code_of_def Let_def split: if_splits)
  then show "is_ascii c" "c \<noteq> CHR ''-''" by (auto simp: is_ascii_def code_of_def)
  from c have "48 \<le> code_of (ascii_lower c) \<and> code_of (ascii_lower c) \<le> 57
    \<or> 97 \<le> code_of (ascii_lower c) \<and> code_of (ascii_lower c) \<le> 102"
    by (auto simp: ascii_lower_def code_of_def)
  then show "is_ascii_hexdigit (ascii_lower c)" "ascii_lower c \<noteq> CHR ''-''"
    by (auto simp: is_ascii_hexdigit_def hex_val_def code_of_def Let_def)
qed

lemma lower_fingerprint:
  assumes "is_valid_fingerprint_hex fp"
  shows "to_lowercase U fp = map ascii_lower fp" "CHR ''-'' \<notin> set (map ascii_lower fp)"
    "is_valid_fingerprint_hex (map ascii_lower fp)"
proof -
  have hex: "\<forall>c \<in> set fp. is_ascii_hexdigit c" using assms by (simp add: is_valid_fingerprint_hex_def list_all_iff)
  show "to_lowercase U fp = map ascii_lower fp"
    using hex hex_digit_facts(1) by (simp add: to_lowercase_def list_all_iff)
  show "CHR ''-'' \<notin> set (map ascii_lower fp)"
    using hex hex_digit_facts(4) by (fastforce simp: image_iff)
  show "is_valid_fingerprint_hex (map ascii_lower fp)"
    using hex hex_digit_facts(3) assms by (simp add: is_valid_fingerprint_hex_def list_all_iff)
qed

lemma is_valid_machine_id_iff:
  assumes "CHR ''-'' \<notin> set (machine_id_prefix c)"
  shows "is_valid_machine_id c m \<longleftrightarrow> (\<exists>fp. m = machine_id_prefix c @ ''-'' @ fp \<and> is_valid_fingerprint_hex fp)"
proof -
  have len: "length parts = 2 \<longleftrightarrow> (\<exists>a b. parts = [a, b])" for parts :: "string list"
    by (auto simp: length_Suc_conv numeral_2_eq_2)
  have no: "CHR ''-'' \<notin> set fp" if "is_valid_fingerprint_hex fp" for fp
    using that hex_digit_facts(2) by (auto simp: is_valid_fingerprint_hex_def list_all_iff)
  have "is_valid_machine_id c m \<longleftrightarrow> (\<exists>a b. split_on (CHR ''-'') m = [a, b] \<and> a = machine_id_prefix c
      \<and> is_valid_fingerprint_hex b)"
    unfolding is_valid_machine_id_def Let_def len by auto
  also have "\<dots> \<longleftrightarrow> (\<exists>fp. m = machine_id_prefix c @ ''-'' @ fp \<and> is_valid_fingerprint_hex fp)"
    unfolding split_on_two using assms no by auto
  finally show ?thesis .
qed

text \<open>For a prefix without a dash, the machine id of a key is valid, names its prefix and its whole
  fingerprint, and two keys have the same one exactly if their fingerprints agree up to case; a claimed
  id verifies against a public key exactly if it is the id of that key, and only valid ids verify.\<close>

theorem machine_id_names_key:
  assumes "CHR ''-'' \<notin> set (machine_id_prefix c)" and "is_valid_fingerprint_hex (id_fingerprint i)"
    and "is_valid_fingerprint_hex (id_fingerprint j)"
    and "io_parse G (as_bytes pk) = Inr cert" "pc_fingerprint cert = id_fingerprint i"
  shows "is_valid_machine_id c (derive_machine_id_from_identity U c i)
    \<and> extract_prefix (derive_machine_id_from_identity U c i) = Some (machine_id_prefix c)
    \<and> extract_fingerprint (derive_machine_id_from_identity U c i) = Some (map ascii_lower (id_fingerprint i))
    \<and> (derive_machine_id_from_identity U c i = derive_machine_id_from_identity U c j
         \<longleftrightarrow> map ascii_lower (id_fingerprint i) = map ascii_lower (id_fingerprint j))
    \<and> verify_machine_id G U c pk m = Inr (m = derive_machine_id_from_identity U c i)
    \<and> (verify_machine_id G U c pk m = Inr True \<longrightarrow> is_valid_machine_id c m)"
proof -
  note low = lower_fingerprint [OF assms(2)] lower_fingerprint(1) [OF assms(3)]
  have id: "derive_machine_id_from_identity U c i = machine_id_prefix c @ ''-'' @ map ascii_lower (id_fingerprint i)"
    by (simp add: derive_machine_id_from_identity_def derive_machine_id_from_fingerprint_def low)
  have parts: "split_on (CHR ''-'') (derive_machine_id_from_identity U c i)
      = [machine_id_prefix c, map ascii_lower (id_fingerprint i)]"
    unfolding split_on_two using assms(1) low(2) by (simp add: id)
  have valid: "is_valid_machine_id c (derive_machine_id_from_identity U c i)"
    unfolding is_valid_machine_id_iff [OF assms(1)] using low(3) id by blast
  moreover have "verify_machine_id G U c pk m = Inr (m = derive_machine_id_from_identity U c i)"
    using assms(4,5)
    by (auto simp: verify_machine_id_def derive_machine_id_def parse_public_key_def
        derive_machine_id_from_cert_def derive_machine_id_from_identity_def)
  ultimately show ?thesis
    by (simp add: extract_prefix_def extract_fingerprint_def parts)
       (simp add: derive_machine_id_from_identity_def derive_machine_id_from_fingerprint_def low)
qed

definition demo_fp_id :: "string \<Rightarrow> Identity" where
  "demo_fp_id fp = \<lparr>id_keys = [], id_fingerprint = fp, id_user = ''u''\<rparr>"

theorem machine_id_names_key_witness:
  "is_valid_machine_id config_gitcellar (derive_machine_id_from_identity demo_unicode config_gitcellar
      (demo_fp_id (replicate 40 (CHR ''A''))))
   \<and> verify_machine_id \<lparr>io_generate = \<lambda>u. Inl [], io_tsk = \<lambda>i. Inl [], io_cert = \<lambda>i. Inr [], io_armor_secret = \<lambda>i. Inr [],
        io_armor_public = \<lambda>i. Inr [], io_parse = \<lambda>b. Inr \<lparr>pc_keys = [], pc_fingerprint = replicate 40 (CHR ''A''),
        pc_user_id = None\<rparr>, io_utf8 = \<lambda>b. Inl []\<rparr> demo_unicode config_gitcellar ''pk'' ''gcm-00'' = Inr False"
proof -
  let ?fp = "replicate 40 (CHR ''A'')"
  let ?G = "\<lparr>io_generate = \<lambda>u. Inl [], io_tsk = \<lambda>i. Inl [], io_cert = \<lambda>i. Inr [], io_armor_secret = \<lambda>i. Inr [],
        io_armor_public = \<lambda>i. Inr [], io_parse = \<lambda>b. Inr \<lparr>pc_keys = [], pc_fingerprint = ?fp,
        pc_user_id = None\<rparr>, io_utf8 = \<lambda>b. Inl []\<rparr> :: pgp_io"
  have dash: "CHR ''-'' \<notin> set (machine_id_prefix config_gitcellar)" by (simp add: config_gitcellar_def)
  have fp: "is_valid_fingerprint_hex (id_fingerprint (demo_fp_id ?fp))"
    by (simp add: demo_fp_id_def is_valid_fingerprint_hex_def MACHINE_ID_HEX_WIDTHS_def list_all_iff
        is_ascii_hexdigit_def hex_val_def)
  have parse: "io_parse ?G (as_bytes ''pk'') = Inr \<lparr>pc_keys = [], pc_fingerprint = ?fp, pc_user_id = None\<rparr>"
    "pc_fingerprint \<lparr>pc_keys = [], pc_fingerprint = ?fp, pc_user_id = None\<rparr> = id_fingerprint (demo_fp_id ?fp)"
    by (simp_all add: demo_fp_id_def)
  note id = machine_id_names_key [OF dash fp fp parse]
  have "\<not> is_valid_machine_id config_gitcellar ''gcm-00''"
    unfolding is_valid_machine_id_iff [OF dash]
    by (simp add: config_gitcellar_def is_valid_fingerprint_hex_def MACHINE_ID_HEX_WIDTHS_def)
  with id [of demo_unicode "''gcm-00''"] show ?thesis by auto
qed

text \<open>With a dash in the prefix, as the default prefix of an application named \<open>a-b\<close> has, no id is valid.\<close>

lemma dashed_prefix_never_validates:
  "CHR ''-'' \<in> set (machine_id_prefix c) \<Longrightarrow> \<not> is_valid_machine_id c m"
  using split_on_parts [of _ "CHR ''-''" m]
  by (auto simp: is_valid_machine_id_def Let_def) (metis nth_mem zero_less_numeral)

lemma default_prefix_may_have_dash:
  "machine_id_prefix (passkey_config_new U ''a-b'') = ''a-b''"
proof -
  have "utf8_chars ''a-b'' = [''a'', ''-'', ''b'']"
    by (simp add: is_continuation_def code_of_def)
  then show ?thesis
    by (simp add: passkey_config_new_def to_lowercase_def is_ascii_def code_of_def ascii_lower_def)
qed

end
