(* ===== verification/Key_Transfer.thy ===== *)
theory Key_Transfer
  imports Identity_Laws
begin

text \<open>
  \<open>gitcellar-crypto/src/transfer.rs\<close>: the key file in which an identity moves between machines.

  \<open>transfer\<close> holds the JSON of \<open>serde_json\<close> (into a value and into the two structs), base64 and the
  time. Of a JSON value the model keeps what the code asks of it: the members of an object, strings
  and booleans. Slicing a string beyond its bounds is a panic.
\<close>

section \<open>Definitions\<close>

definition GCKEY_HEADER_BEGIN :: string where
  "GCKEY_HEADER_BEGIN = ''-----BEGIN GITCELLAR KEY FILE-----''"

definition GCKEY_HEADER_END :: string where
  "GCKEY_HEADER_END = ''-----END GITCELLAR KEY FILE-----''"

definition GCKEY_VERSION :: string where "GCKEY_VERSION = ''3.0''"

record IdentityBundle =
  ib_version :: string
  ib_created_at :: string
  ib_user_id :: string
  ib_fingerprint :: string
  ib_secret_key :: string
  ib_public_key :: string

record GckeyFile =
  gk_version :: string
  gk_encrypted :: bool
  gk_data :: IdentityBundle

datatype json_value = JsonObject "(string \<times> json_value) list" | JsonString string | JsonBool bool | JsonOther

record transfer =
  tr_pgp :: pgp_io
  tr_unicode :: unicode
  tr_b64_encode :: "bytes \<Rightarrow> string"
  tr_b64_decode :: "string \<Rightarrow> string + bytes"
  tr_print :: "GckeyFile \<Rightarrow> string + string"
  tr_value :: "string \<Rightarrow> string + json_value"
  tr_parse_gckey :: "string \<Rightarrow> string + GckeyFile"
  tr_parse_bundle :: "string \<Rightarrow> string + IdentityBundle"
  tr_now :: string

fun json_get :: "string \<Rightarrow> json_value \<Rightarrow> json_value option" where
  "json_get k (JsonObject ms) = map_of ms k"
| "json_get k _ = None"

definition from_identity :: "transfer \<Rightarrow> Identity \<Rightarrow> IdentityBundle CryptoResult" where
  "from_identity T i =
     try_bind (map_err from_passkey_error (export_secret_key (tr_pgp T) i)) (\<lambda>secret_key.
     try_bind (map_err from_passkey_error (export_public_key (tr_pgp T) i)) (\<lambda>public_key.
     Inr \<lparr>ib_version = GCKEY_VERSION, ib_created_at = tr_now T, ib_user_id = id_user i,
       ib_fingerprint = id_fingerprint i, ib_secret_key = tr_b64_encode T (as_bytes secret_key),
       ib_public_key = tr_b64_encode T (as_bytes public_key)\<rparr>))"

definition wrap_gckey_format :: "string \<Rightarrow> string" where
  "wrap_gckey_format content =
     GCKEY_HEADER_BEGIN @ [CHR 0x0A] @ content @ [CHR 0x0A] @ GCKEY_HEADER_END"

definition export_gckey :: "transfer \<Rightarrow> Identity \<Rightarrow> string CryptoResult" where
  "export_gckey T i =
     try_bind (from_identity T i) (\<lambda>bundle.
     try_bind (map_err Serialization
       (tr_print T \<lparr>gk_version = GCKEY_VERSION, gk_encrypted = False, gk_data = bundle\<rparr>)) (\<lambda>content.
     Inr (wrap_gckey_format content)))"

text \<open>\<open>s.find(pat)\<close>: the first position at which the pattern stands.\<close>

fun find_str :: "string \<Rightarrow> string \<Rightarrow> nat option" where
  "find_str pat [] = (if pat = [] then Some 0 else None)"
| "find_str pat (c # cs) = (if starts_with pat (c # cs) then Some 0 else map_option Suc (find_str pat cs))"

definition unwrap_gckey_format :: "unicode \<Rightarrow> string \<Rightarrow> panic + string CryptoResult" where
  "unwrap_gckey_format U gckey_content =
     (let trimmed = trim U gckey_content
      in if \<not> starts_with GCKEY_HEADER_BEGIN trimmed
         then Inr (Inl (BundleFormat (''Invalid file format. Expected header: '' @ GCKEY_HEADER_BEGIN)))
         else case find_str GCKEY_HEADER_END trimmed of
           None \<Rightarrow> Inr (Inl (BundleFormat (''Missing end marker: '' @ GCKEY_HEADER_END)))
         | Some end_pos \<Rightarrow>
             if end_pos < length GCKEY_HEADER_BEGIN
             then Inl (SliceOutOfRange (length GCKEY_HEADER_BEGIN) end_pos)
             else Inr (Inr (trim U (slice trimmed (length GCKEY_HEADER_BEGIN) end_pos))))"

definition parse_gckey_content :: "transfer \<Rightarrow> string \<Rightarrow> IdentityBundle CryptoResult" where
  "parse_gckey_content T content =
     try_bind (map_err (\<lambda>e. BundleFormat (''Invalid JSON: '' @ e)) (tr_value T content)) (\<lambda>v.
     if json_get ''encrypted'' v = Some (JsonBool True)
     then Inl (BundleFormat (''Password-protected gckey files are no longer supported. ''
       @ ''Please re-export your identity using the latest version.''))
     else case json_get ''data'' v of
       Some (JsonObject _) \<Rightarrow>
         try_bind (map_err (\<lambda>e. BundleFormat (''Invalid v3.0 format: '' @ e)) (tr_parse_gckey T content))
           (\<lambda>g. Inr (gk_data g))
     | Some (JsonString dat) \<Rightarrow>
         map_err (\<lambda>e. BundleFormat (''Invalid v2.0 bundle: '' @ e)) (tr_parse_bundle T dat)
     | _ \<Rightarrow> Inl (BundleFormat ''Unrecognized gckey format. Expected v2.0 or v3.0 format.''))"

definition import_bundle :: "transfer \<Rightarrow> string \<Rightarrow> Identity CryptoResult" where
  "import_bundle T inner_content =
     try_bind (parse_gckey_content T inner_content) (\<lambda>bundle.
     try_bind (map_err (\<lambda>e. BundleFormat (''Invalid secret key encoding: '' @ e))
       (tr_b64_decode T (ib_secret_key bundle))) (\<lambda>secret_key_bytes.
     try_bind (map_err (\<lambda>e. BundleFormat (''Invalid secret key UTF-8: '' @ e))
       (io_utf8 (tr_pgp T) secret_key_bytes)) (\<lambda>secret_key_str.
     map_err from_passkey_error (from_armored_secret_key (tr_pgp T) secret_key_str))))"

definition import_gckey :: "transfer \<Rightarrow> string \<Rightarrow> panic + Identity CryptoResult" where
  "import_gckey T gckey_content =
     try_bind (unwrap_gckey_format (tr_unicode T) gckey_content) (\<lambda>inner.
     Inr (try_bind inner (import_bundle T)))"

section \<open>Finding the markers\<close>

lemma find_str_first:
  "starts_with pat b \<Longrightarrow> \<forall>k < length a. \<not> starts_with pat (drop k (a @ b)) \<Longrightarrow> pat \<noteq> [] \<Longrightarrow>
     find_str pat (a @ b) = Some (length a)"
proof (induction a)
  case Nil
  then show ?case by (cases b) (auto simp: starts_with_def)
next
  case (Cons c cs)
  from Cons.prems(2) have "\<not> starts_with pat (c # cs @ b)" by (metis append_Cons drop0 length_greater_0_conv list.distinct(1))
  moreover have "\<forall>k < length cs. \<not> starts_with pat (drop k (cs @ b))"
  proof (intro allI impI)
    fix k assume "k < length cs"
    with Cons.prems(2) have "\<not> starts_with pat (drop (Suc k) ((c # cs) @ b))" by auto
    then show "\<not> starts_with pat (drop k (cs @ b))" by simp
  qed
  ultimately show ?case using Cons by simp
qed

text \<open>A pattern that is neither inside a text nor reaches from it into the rest is first met at its end.\<close>

lemma contains_str_drop: "starts_with pat (drop k s) \<Longrightarrow> contains_str pat s"
proof (induction s arbitrary: k)
  case Nil
  then show ?case by (simp add: starts_with_def)
next
  case (Cons c cs)
  then show ?case by (cases k) (auto simp: starts_with_def)
qed

lemma starts_across_newline:
  assumes "CHR 0x0A \<notin> set pat" and "starts_with pat (drop k (x @ CHR 0x0A # y))"
  shows "k \<le> length x \<and> starts_with pat (drop k x) \<or> length x < k \<and> starts_with pat (drop (k - length x - 1) y)"
proof (cases "k \<le> length x")
  case True
  have pat: "take (length pat) (drop k x @ CHR 0x0A # y) = pat"
    using assms(2) True by (simp add: starts_with_def)
  have "length pat \<le> length x - k"
  proof (rule ccontr)
    assume "\<not> length pat \<le> length x - k"
    then obtain z where "take (length pat) (drop k x @ CHR 0x0A # y) = drop k x @ CHR 0x0A # z"
      by (auto simp: take_Cons' intro: that)
    with pat have "CHR 0x0A \<in> set pat" by (metis in_set_conv_decomp)
    with assms(1) show False ..
  qed
  with pat True show ?thesis by (simp add: starts_with_def)
next
  case False
  then have "drop k (x @ CHR 0x0A # y) = drop (k - length x - 1) y"
    by (cases "k - length x") auto
  with False assms(2) show ?thesis by simp
qed

lemma no_end_in_begin: "\<not> contains_str GCKEY_HEADER_END GCKEY_HEADER_BEGIN"
  by (simp add: GCKEY_HEADER_END_def GCKEY_HEADER_BEGIN_def)

lemma no_newline_in_end: "CHR 0x0A \<notin> set GCKEY_HEADER_END"
  by (simp add: GCKEY_HEADER_END_def)

lemma newline_ws: "list_all (\<lambda>c. is_ascii c \<and> ascii_ws c) [CHR 0x0A]"
  by (simp add: is_ascii_def ascii_ws_def code_of_def)

text \<open>What was wrapped unwraps, if it is solid and does not hold the end marker.\<close>

lemma unwrap_wrap_gckey:
  assumes "solid U content" and "\<not> contains_str GCKEY_HEADER_END content"
  shows "unwrap_gckey_format U (wrap_gckey_format content) = Inr (Inr content)"
proof -
  let ?nl = "CHR 0x0A" and ?B = GCKEY_HEADER_BEGIN and ?E = GCKEY_HEADER_END
  let ?w = "?B @ ?nl # content @ ?nl # ?E" and ?a = "?B @ ?nl # content @ [?nl]"
  have w: "wrap_gckey_format content = ?w" by (simp add: wrap_gckey_format_def)
  obtain m where m: "?w = CHR ''-'' # m @ ''-''" "m = [] \<or> \<not> is_continuation (hd m)"
    by (rule that [of "tl ?B @ ?nl # content @ ?nl # butlast ?E"])
       (simp_all add: GCKEY_HEADER_BEGIN_def GCKEY_HEADER_END_def is_continuation_def code_of_def)
  have "solid U ?w"
    unfolding m(1) by (rule solid_ends) (use m(2) in \<open>simp_all add: is_ascii_def ascii_ws_def code_of_def\<close>)
  from trim_between [OF this, of "[]" "[]"] have trim: "trim U ?w = ?w" by simp
  have "find_str ?E (?a @ ?E) = Some (length ?a)"
  proof (rule find_str_first)
    show "\<forall>k < length ?a. \<not> starts_with ?E (drop k (?a @ ?E))"
    proof (intro allI impI notI)
      fix k assume k: "k < length ?a" and st: "starts_with ?E (drop k (?a @ ?E))"
      from st have "starts_with ?E (drop k (?B @ ?nl # (content @ ?nl # ?E)))" by simp
      from starts_across_newline [OF no_newline_in_end this] no_end_in_begin
      have k1: "length ?B < k" and "starts_with ?E (drop (k - length ?B - 1) (content @ ?nl # ?E))"
        by (auto dest: contains_str_drop)
      from starts_across_newline [OF no_newline_in_end this(2)] assms(2)
      have "length content < k - length ?B - 1" by (auto dest: contains_str_drop)
      with k show False by simp
    qed
  qed (simp_all add: starts_with_def GCKEY_HEADER_END_def)
  then have find: "find_str ?E ?w = Some (Suc (Suc (length ?B + length content)))" by simp
  have body: "slice ?w (length ?B) (Suc (Suc (length ?B + length content))) = ?nl # content @ [?nl]"
    by (simp add: slice_def)
  have "trim U (?nl # content @ [?nl]) = content"
    using trim_between [OF assms(1) newline_ws newline_ws] by simp
  moreover have "starts_with ?B ?w" by (simp add: starts_with_def)
  ultimately show ?thesis by (simp add: unwrap_gckey_format_def Let_def w trim find body)
qed

section \<open>The round trip\<close>

text \<open>What is documented of JSON, base64 and OpenPGP: each reads back what it wrote; the JSON of the file
  is an object and starts and ends with its braces.\<close>

definition transfer_ok :: "transfer \<Rightarrow> bool" where
  "transfer_ok T \<longleftrightarrow>
     (\<forall>g s. tr_print T g = Inr s \<longrightarrow> solid (tr_unicode T) s \<and> tr_parse_gckey T s = Inr g
        \<and> (\<exists>v ms. tr_value T s = Inr v \<and> json_get ''encrypted'' v = Some (JsonBool (gk_encrypted g))
             \<and> json_get ''data'' v = Some (JsonObject ms)))
     \<and> (\<forall>b. tr_b64_decode T (tr_b64_encode T b) = Inr b)
     \<and> (\<forall>s. io_utf8 (tr_pgp T) (as_bytes s) = Inr s)
     \<and> (\<forall>i k. export_secret_key (tr_pgp T) i = Inr k \<longrightarrow>
          (\<exists>c. io_parse (tr_pgp T) (as_bytes k) = Inr c \<and> identity_of (tr_pgp T) c = i))"

lemma import_bundle_of_export:
  assumes "transfer_ok T" and "from_identity T i = Inr b"
    and "tr_print T \<lparr>gk_version = GCKEY_VERSION, gk_encrypted = False, gk_data = b\<rparr> = Inr s"
  shows "import_bundle T s = Inr i"
proof -
  from assms(1,3) obtain v ms where v: "tr_value T s = Inr v" "json_get ''encrypted'' v = Some (JsonBool False)"
    "json_get ''data'' v = Some (JsonObject ms)"
    and g: "tr_parse_gckey T s = Inr \<lparr>gk_version = GCKEY_VERSION, gk_encrypted = False, gk_data = b\<rparr>"
    unfolding transfer_ok_def by fastforce
  from assms(2) obtain k where k: "export_secret_key (tr_pgp T) i = Inr k"
    and b: "ib_secret_key b = tr_b64_encode T (as_bytes k)"
    by (auto simp: from_identity_def try_bind_eq_Inr)
  from assms(1) k obtain c where "io_parse (tr_pgp T) (as_bytes k) = Inr c" "identity_of (tr_pgp T) c = i"
    unfolding transfer_ok_def by blast
  then show ?thesis using assms(1) v g b
    by (simp add: import_bundle_def parse_gckey_content_def transfer_ok_def from_armored_secret_key_def)
qed


definition demo_gckey :: GckeyFile where
  "demo_gckey = \<lparr>gk_version = ''3.0'', gk_encrypted = False, gk_data = \<lparr>ib_version = ''3.0'', ib_created_at = ''now'',
     ib_user_id = ''unknown'', ib_fingerprint = ''F'', ib_secret_key = ''07'', ib_public_key = ''08''\<rparr>\<rparr>"

definition demo_transfer :: transfer where
  "demo_transfer = \<lparr>tr_pgp = demo_pgp_one, tr_unicode = demo_unicode, tr_b64_encode = hex_encode,
     tr_b64_decode = \<lambda>s. ok_or [] (hex_decode s),
     tr_print = \<lambda>g. if g = demo_gckey then Inr ''{.}'' else Inl [],
     tr_value = \<lambda>s. Inr (JsonObject [(''encrypted'', JsonBool (s \<noteq> ''{.}'')), (''data'', JsonObject [])]),
     tr_parse_gckey = \<lambda>s. Inr demo_gckey, tr_parse_bundle = \<lambda>s. Inl [], tr_now = ''now''\<rparr>"

lemma demo_transfer_ok: "transfer_ok demo_transfer"
proof -
  have "solid demo_unicode ''{.}''"
    using solid_ends [of "CHR ''{''" "CHR ''}''" "''.''"]
    by (simp add: is_ascii_def ascii_ws_def is_continuation_def code_of_def)
  moreover have "gk_encrypted demo_gckey = False" by (simp add: demo_gckey_def)
  ultimately show ?thesis using demo_pgp_one
    by (simp add: transfer_ok_def demo_transfer_def)
qed


text \<open>The markers share their dashes: the begin marker followed by the rest of the end marker panics.\<close>

lemma import_panics:
  "import_gckey T (GCKEY_HEADER_BEGIN @ drop 5 GCKEY_HEADER_END) = Inl (SliceOutOfRange 34 29)"
proof -
  let ?s = "GCKEY_HEADER_BEGIN @ drop 5 GCKEY_HEADER_END"
  obtain m where m: "?s = CHR ''-'' # m @ ''-''" "m = [] \<or> \<not> is_continuation (hd m)"
    by (rule that [of "tl GCKEY_HEADER_BEGIN @ butlast (drop 5 GCKEY_HEADER_END)"])
       (simp_all add: GCKEY_HEADER_BEGIN_def GCKEY_HEADER_END_def is_continuation_def code_of_def)
  have "solid (tr_unicode T) ?s"
    unfolding m(1) by (rule solid_ends) (use m(2) in \<open>simp_all add: is_ascii_def ascii_ws_def code_of_def\<close>)
  from trim_between [OF this, of "[]" "[]"] have "trim (tr_unicode T) ?s = ?s" by simp
  moreover have "starts_with GCKEY_HEADER_BEGIN ?s" by (simp add: starts_with_def)
  moreover have "find_str GCKEY_HEADER_END ?s = Some 29"
    by (simp add: GCKEY_HEADER_BEGIN_def GCKEY_HEADER_END_def starts_with_def)
  moreover have "length GCKEY_HEADER_BEGIN = 34" by (simp add: GCKEY_HEADER_BEGIN_def)
  ultimately show ?thesis by (simp add: import_gckey_def unwrap_gckey_format_def Let_def)
qed

end
