(* ===== verification/Legacy_Extract.thy ===== *)
theory Legacy_Extract
  imports Master Chunk_Encryption
begin

text \<open>
  \<open>gitcellar-crypto/src/legacy_extract.rs\<close>: the raw Ed25519 key of a legacy OpenPGP certificate.

  A parsed certificate is what the code reads of its primary key. Parsing, the padding of
  multi-precision integers and armor are the parameter \<open>legacy\<close>, Ed25519 is \<open>ed25519\<close>. The opened
  seed is modelled without its wiping.
\<close>

section \<open>Definitions\<close>

datatype LegacyExtractError =
    BadCert string
  | NotEd25519 string
  | NoSecretMaterial
  | EncryptedSecret
  | PubkeyMismatch

type_synonym 'a LegacyResult = "LegacyExtractError + 'a"

datatype pgp_curve = CurveEd25519 | OtherCurve string

datatype legacy_public = EdDSAPublic pgp_curve bytes | OtherPublic string

datatype legacy_secret = EdDSASecret bytes | OtherSecret string | PasswordProtected

record legacy_cert =
  lc_public :: legacy_public
  lc_secret :: "legacy_secret option"

record legacy =
  lg_parse :: "bytes \<Rightarrow> string + legacy_cert"
  lg_pad_public :: "bytes \<Rightarrow> nat \<Rightarrow> string + bytes"
  lg_pad_secret :: "bytes \<Rightarrow> nat \<Rightarrow> bytes"
  lg_armor :: "legacy_cert \<Rightarrow> string + bytes"
  lg_utf8 :: "bytes \<Rightarrow> string + string"

record LegacyEd25519Keypair =
  lk_secret_seed :: bytes
  lk_public_key :: bytes

definition ed25519_public_from_cert :: "legacy \<Rightarrow> ed25519 \<Rightarrow> legacy_cert \<Rightarrow> bytes LegacyResult" where
  "ed25519_public_from_cert L D cert =
     try_bind (case lc_public cert of
         EdDSAPublic CurveEd25519 q \<Rightarrow>
           try_bind (map_err BadCert (lg_pad_public L q 33)) (\<lambda>padded.
             if length padded \<noteq> 33 \<or> padded ! 0 \<noteq> 0x40
             then Inl (BadCert (''unexpected Ed25519 public-point encoding (len='' @ nat_to_string (length padded)
               @ '', prefix=0x'' @ hex_byte (case padded of [] \<Rightarrow> 0 | b # _ \<Rightarrow> b) @ '')''))
             else Inr (slice padded 1 33))
       | EdDSAPublic (OtherCurve c) q \<Rightarrow> Inl (NotEd25519 c)
       | OtherPublic other \<Rightarrow> Inl (NotEd25519 other)) (\<lambda>public_bytes.
     try_bind (map_err BadCert (ed_parse D public_bytes)) (\<lambda>_. Inr public_bytes))"

definition extract_ed25519_keypair :: "legacy \<Rightarrow> ed25519 \<Rightarrow> bytes \<Rightarrow> LegacyEd25519Keypair LegacyResult" where
  "extract_ed25519_keypair L D secret_pgp_bytes =
     try_bind (map_err BadCert (lg_parse L secret_pgp_bytes)) (\<lambda>cert.
     try_bind (ed25519_public_from_cert L D cert) (\<lambda>public_bytes.
     try_bind (case lc_secret cert of
         Some (EdDSASecret scalar) \<Rightarrow>
           (let padded = lg_pad_secret L scalar 32
            in if length padded \<noteq> 32
               then Inl (BadCert (''Ed25519 scalar has unexpected length '' @ nat_to_string (length padded)))
               else Inr padded)
       | Some (OtherSecret other) \<Rightarrow> Inl (NotEd25519 other)
       | Some PasswordProtected \<Rightarrow> Inl EncryptedSecret
       | None \<Rightarrow> Inl NoSecretMaterial) (\<lambda>secret_seed.
     if ed_public D secret_seed \<noteq> public_bytes then Inl PubkeyMismatch
     else try_bind (map_err BadCert (ed_parse D public_bytes)) (\<lambda>_.
       Inr \<lparr>lk_secret_seed = secret_seed, lk_public_key = public_bytes\<rparr>))))"

definition extract_ed25519_public_key :: "legacy \<Rightarrow> ed25519 \<Rightarrow> bytes \<Rightarrow> bytes LegacyResult" where
  "extract_ed25519_public_key L D public_pgp_bytes =
     try_bind (map_err BadCert (lg_parse L public_pgp_bytes)) (ed25519_public_from_cert L D)"

definition armored_public_key :: "legacy \<Rightarrow> bytes \<Rightarrow> string LegacyResult" where
  "armored_public_key L public_pgp_bytes =
     try_bind (map_err BadCert (lg_parse L public_pgp_bytes)) (\<lambda>cert.
     try_bind (map_err BadCert (lg_armor L cert)) (\<lambda>buf. map_err BadCert (lg_utf8 L buf)))"

section \<open>A migrated key is the key of the certificate\<close>

text \<open>An extracted key pair is a key pair: its public key is the one of its 32-byte seed, is a point
  the signature scheme accepts, and is exactly what the extraction of the public key gives on the
  public certificate; a
  certificate with an encrypted secret, or none, or of another curve, is never extracted.\<close>

theorem extracted_key_is_certified:
  assumes "extract_ed25519_keypair L D sec = Inr k"
    and "lg_parse L sec = Inr c" "lg_parse L pub = Inr c'" "lc_public c' = lc_public c"
  shows "lk_public_key k = ed_public D (lk_secret_seed k) \<and> length (lk_secret_seed k) = 32
    \<and> length (lk_public_key k) = 32 \<and> ed_parse D (lk_public_key k) = Inr ()
    \<and> extract_ed25519_public_key L D pub = Inr (lk_public_key k)
    \<and> (\<exists>scalar q. lc_secret c = Some (EdDSASecret scalar) \<and> lc_public c = EdDSAPublic CurveEd25519 q)"
proof -
  from assms(1,2) obtain p s scalar where p: "ed25519_public_from_cert L D c = Inr p"
    and s: "lc_secret c = Some (EdDSASecret scalar)" "length s = 32" "ed_public D s = p" "ed_parse D p = Inr ()"
    and k: "k = \<lparr>lk_secret_seed = s, lk_public_key = p\<rparr>"
    by (auto simp: extract_ed25519_keypair_def try_bind_eq_Inr Let_def
        split: if_splits option.splits legacy_secret.splits)
  from p obtain q where q: "lc_public c = EdDSAPublic CurveEd25519 q" and len: "length p = 32"
    by (auto simp: ed25519_public_from_cert_def try_bind_eq_Inr
        split: legacy_public.splits pgp_curve.splits if_splits)
  have "ed25519_public_from_cert L D c' = Inr p"
    using p assms(4) by (simp add: ed25519_public_from_cert_def)
  with assms(3) s k q len show ?thesis by (simp add: extract_ed25519_public_key_def)
qed

theorem extracted_key_is_certified_witness:
  "extract_ed25519_keypair
      \<lparr>lg_parse = \<lambda>b. Inr \<lparr>lc_public = EdDSAPublic CurveEd25519 (0x40 # replicate 32 1),
          lc_secret = Some (EdDSASecret (replicate 32 1))\<rparr>,
        lg_pad_public = \<lambda>q n. Inr q, lg_pad_secret = \<lambda>q n. q, lg_armor = \<lambda>c. Inl [], lg_utf8 = \<lambda>b. Inl []\<rparr>
      \<lparr>ed_public = \<lambda>s. s, ed_sign = \<lambda>s m. [], ed_parse = \<lambda>p. Inr (), ed_verify_strict = \<lambda>p m s. True,
        ed_verify = \<lambda>p m s. True, bip39_seed = \<lambda>s. Inr []\<rparr> [1]
    = Inr \<lparr>lk_secret_seed = replicate 32 1, lk_public_key = replicate 32 1\<rparr>
   \<and> extract_ed25519_public_key
      \<lparr>lg_parse = \<lambda>b. Inr \<lparr>lc_public = EdDSAPublic CurveEd25519 (0x40 # replicate 32 1),
          lc_secret = Some (EdDSASecret (replicate 32 1))\<rparr>,
        lg_pad_public = \<lambda>q n. Inr q, lg_pad_secret = \<lambda>q n. q, lg_armor = \<lambda>c. Inl [], lg_utf8 = \<lambda>b. Inl []\<rparr>
      \<lparr>ed_public = \<lambda>s. s, ed_sign = \<lambda>s m. [], ed_parse = \<lambda>p. Inr (), ed_verify_strict = \<lambda>p m s. True,
        ed_verify = \<lambda>p m s. True, bip39_seed = \<lambda>s. Inr []\<rparr> [2] = Inr (replicate 32 1)"
proof -
  let ?c = "\<lparr>lc_public = EdDSAPublic CurveEd25519 (0x40 # replicate 32 1),
          lc_secret = Some (EdDSASecret (replicate 32 1))\<rparr>"
  let ?L = "\<lparr>lg_parse = \<lambda>b. Inr ?c,
        lg_pad_public = \<lambda>q n. Inr q, lg_pad_secret = \<lambda>q n. q, lg_armor = \<lambda>c. Inl [], lg_utf8 = \<lambda>b. Inl []\<rparr> :: legacy"
  let ?D = "\<lparr>ed_public = \<lambda>s. s, ed_sign = \<lambda>s m. [], ed_parse = \<lambda>p. Inr (), ed_verify_strict = \<lambda>p m s. True,
        ed_verify = \<lambda>p m s. True, bip39_seed = \<lambda>s. Inr []\<rparr> :: ed25519"
  have run: "extract_ed25519_keypair ?L ?D [1]
      = Inr \<lparr>lk_secret_seed = replicate 32 1, lk_public_key = replicate 32 1\<rparr>"
    by (simp add: extract_ed25519_keypair_def ed25519_public_from_cert_def slice_def Let_def)
  have parse: "lg_parse ?L b = Inr ?c" for b by simp
  from extracted_key_is_certified [OF run parse parse refl] run show ?thesis by simp
qed

end
