(* ===== verification/Multi_User.thy ===== *)
theory Multi_User
  imports Username "HOL-Library.List_Lexorder" "HOL-Library.Char_ord"
begin

text \<open>
  \<open>passkey-core/src/multi_user/mod.rs\<close> and \<open>state_machine.rs\<close>: the users of an installation,
  the active-user pointer, and the evaluation and repair of the identity state.

  The state is what the code reads and writes under the configuration directory: \<open>mu_users\<close>,
  the entries of \<open>users/\<close> in the order \<open>read_dir\<close> lists them (\<open>None\<close> when it does not exist),
  and \<open>mu_active\<close>, the \<open>active_user\<close> file (its content is \<open>None\<close> when it is not UTF-8).
  Names that are not UTF-8 are never listed and are left out. Whether an operation of \<open>std::fs\<close>
  fails, and with what text, is the parameter \<open>io\<close>; a failed operation leaves the state as it
  was. \<open>checked_user_dir\<close> is in terms of the entry it names: the lexical check of \<open>Username\<close>,
  then the resolved one, which an entry fails if it links outside \<open>users/\<close>.
\<close>

section \<open>State\<close>

record user_entry =
  ue_is_dir :: bool
  ue_outside :: bool
  ue_identity_dir :: bool
  ue_secret :: bool
  ue_info :: "string option"

record user_fs =
  mu_users :: "(string \<times> user_entry) list option"
  mu_active :: "string option option"

datatype fs_op = ReadDir | CreateDirAll | WriteFile | RemoveFile | RemoveDirAll

record io =
  io_fails :: "fs_op \<Rightarrow> string option"
  io_not_a_directory :: string
  io_debug :: "string \<Rightarrow> string"

definition entries :: "user_fs \<Rightarrow> (string \<times> user_entry) list" where
  "entries fs = (case mu_users fs of None \<Rightarrow> [] | Some es \<Rightarrow> es)"

definition entry_of :: "user_fs \<Rightarrow> string \<Rightarrow> user_entry option" where
  "entry_of fs name = map_of (entries fs) name"

definition io_guard :: "io \<Rightarrow> fs_op \<Rightarrow> unit PasskeyResult" where
  "io_guard F op = (case io_fails F op of Some e \<Rightarrow> Inl (PasskeyError.Io e) | None \<Rightarrow> Inr ())"

definition empty_dir :: user_entry where
  "empty_dir = \<lparr>ue_is_dir = True, ue_outside = False, ue_identity_dir = False, ue_secret = False,
     ue_info = None\<rparr>"

text \<open>Replaces the entry in place, or adds one at the end.\<close>

fun put_entry :: "string \<Rightarrow> user_entry \<Rightarrow> (string \<times> user_entry) list \<Rightarrow> (string \<times> user_entry) list" where
  "put_entry name e [] = [(name, e)]"
| "put_entry name e ((n, x) # es) =
     (if n = name then (n, e) # es else (n, x) # put_entry name e es)"

definition checked_user_dir :: "io \<Rightarrow> user_fs \<Rightarrow> string \<Rightarrow> unit PasskeyResult" where
  "checked_user_dir F fs username =
     try_bind (validate_user_dir_name (io_debug F) username) (\<lambda>_.
     try_bind (lexical_child (io_debug F) [RootDir, Normal ''users''] username) (\<lambda>_.
     case entry_of fs username of
       Some e \<Rightarrow> if ue_outside e then Inl (escape (io_debug F) username) else Inr ()
     | None \<Rightarrow> Inr ()))"

section \<open>Users\<close>

definition is_multi_user :: "io \<Rightarrow> user_fs \<Rightarrow> bool" where
  "is_multi_user F fs \<longleftrightarrow>
     (case mu_users fs of
        None \<Rightarrow> False
      | Some es \<Rightarrow> io_fails F ReadDir = None \<and> list_ex (\<lambda>(n, e). ue_is_dir e) es)"

definition get_active_user :: "unicode \<Rightarrow> user_fs \<Rightarrow> string option" where
  "get_active_user U fs =
     (case mu_active fs of
        Some (Some content) \<Rightarrow> (let s = trim U content in if s = [] then None else Some s)
      | _ \<Rightarrow> None)"

definition set_active_user :: "io \<Rightarrow> string \<Rightarrow> user_fs \<Rightarrow> unit PasskeyResult \<times> user_fs" where
  "set_active_user F username fs =
     (case try_bind (validate_user_dir_name (io_debug F) username) (\<lambda>_.
           try_bind (io_guard F CreateDirAll) (\<lambda>_. io_guard F WriteFile)) of
        Inl e \<Rightarrow> (Inl e, fs)
      | Inr _ \<Rightarrow> (Inr (), fs\<lparr>mu_active := Some (Some username)\<rparr>))"

definition clear_active_user :: "io \<Rightarrow> user_fs \<Rightarrow> unit PasskeyResult \<times> user_fs" where
  "clear_active_user F fs =
     (if mu_active fs = None then (Inr (), fs)
      else case io_guard F RemoveFile of
        Inl e \<Rightarrow> (Inl e, fs)
      | Inr _ \<Rightarrow> (Inr (), fs\<lparr>mu_active := None\<rparr>))"

definition list_users :: "io \<Rightarrow> user_fs \<Rightarrow> string list" where
  "list_users F fs =
     (case mu_users fs of
        None \<Rightarrow> []
      | Some es \<Rightarrow>
          sort (if io_fails F ReadDir = None then map fst (filter (\<lambda>(n, e). ue_is_dir e) es) else []))"

text \<open>The contents of \<open>user_info.json\<close>; \<open>parse\<close> and \<open>print\<close> are \<open>serde_json\<close>.\<close>

record UserInfo =
  ui_email :: string
  ui_username :: string
  ui_machine_id :: string
  ui_user_id :: string

definition get_user_info :: "io \<Rightarrow> (string \<Rightarrow> UserInfo option) \<Rightarrow> user_fs \<Rightarrow> string \<Rightarrow> UserInfo option" where
  "get_user_info F parse fs username =
     (case checked_user_dir F fs username of
        Inl _ \<Rightarrow> None
      | Inr _ \<Rightarrow> (case entry_of fs username of
            None \<Rightarrow> None
          | Some e \<Rightarrow> (case ue_info e of None \<Rightarrow> None | Some content \<Rightarrow> parse content)))"

definition save_user_info ::
    "io \<Rightarrow> (UserInfo \<Rightarrow> string + string) \<Rightarrow> string \<Rightarrow> UserInfo \<Rightarrow> user_fs \<Rightarrow> unit PasskeyResult \<times> user_fs" where
  "save_user_info F print username info fs =
     (case checked_user_dir F fs username of
        Inl e \<Rightarrow> (Inl e, fs)
      | Inr _ \<Rightarrow>
          (let e = (case entry_of fs username of None \<Rightarrow> empty_dir | Some e \<Rightarrow> e)
           in if \<not> ue_is_dir e then (Inl (PasskeyError.Io (io_not_a_directory F)), fs)
              else case io_guard F CreateDirAll of
                Inl err \<Rightarrow> (Inl err, fs)
              | Inr _ \<Rightarrow>
                  (let made = fs\<lparr>mu_users := Some (put_entry username e (entries fs))\<rparr>
                   in case try_bind (map_err (\<lambda>m. PasskeyError.Other (''Failed to serialize user info: '' @ m))
                                       (print info)) (\<lambda>content.
                           try_bind (io_guard F WriteFile) (\<lambda>_. Inr content)) of
                        Inl err \<Rightarrow> (Inl err, made)
                      | Inr content \<Rightarrow>
                          (Inr (), fs\<lparr>mu_users := Some (put_entry username (e\<lparr>ue_info := Some content\<rparr>)
                                                          (entries fs))\<rparr>))))"

definition get_current_user_info :: "io \<Rightarrow> unicode \<Rightarrow> (string \<Rightarrow> UserInfo option) \<Rightarrow> user_fs \<Rightarrow> UserInfo option" where
  "get_current_user_info F U parse fs =
     (case get_active_user U fs of None \<Rightarrow> None | Some u \<Rightarrow> get_user_info F parse fs u)"

definition create_user :: "io \<Rightarrow> string \<Rightarrow> user_fs \<Rightarrow> unit PasskeyResult \<times> user_fs" where
  "create_user F username fs =
     (case checked_user_dir F fs username of
        Inl e \<Rightarrow> (Inl e, fs)
      | Inr _ \<Rightarrow>
          (let e = (case entry_of fs username of None \<Rightarrow> empty_dir | Some e \<Rightarrow> e)
           in if \<not> ue_is_dir e then (Inl (PasskeyError.Io (io_not_a_directory F)), fs)
              else case io_guard F CreateDirAll of
                Inl err \<Rightarrow> (Inl err, fs)
              | Inr _ \<Rightarrow> (Inr (), fs\<lparr>mu_users :=
                  Some (put_entry username (e\<lparr>ue_identity_dir := True\<rparr>) (entries fs))\<rparr>)))"

definition delete_user :: "io \<Rightarrow> unicode \<Rightarrow> string \<Rightarrow> user_fs \<Rightarrow> unit PasskeyResult \<times> user_fs" where
  "delete_user F U username fs =
     (case checked_user_dir F fs username of
        Inl e \<Rightarrow> (Inl e, fs)
      | Inr _ \<Rightarrow>
          (let removed = (case entry_of fs username of
                 None \<Rightarrow> Inr fs
               | Some e \<Rightarrow>
                   if \<not> ue_is_dir e then Inl (PasskeyError.Io (io_not_a_directory F))
                   else try_bind (io_guard F RemoveDirAll) (\<lambda>_.
                     Inr (fs\<lparr>mu_users := Some (filter (\<lambda>(n, e). n \<noteq> username) (entries fs))\<rparr>)))
           in case removed of
                Inl e \<Rightarrow> (Inl e, fs)
              | Inr fs' \<Rightarrow>
                  if get_active_user U fs' = Some username then clear_active_user F fs'
                  else (Inr (), fs')))"

definition user_exists :: "io \<Rightarrow> user_fs \<Rightarrow> string \<Rightarrow> bool" where
  "user_exists F fs username \<longleftrightarrow>
     (case checked_user_dir F fs username of Inl _ \<Rightarrow> False | Inr _ \<Rightarrow> entry_of fs username \<noteq> None)"

definition user_has_identity :: "io \<Rightarrow> user_fs \<Rightarrow> string \<Rightarrow> bool" where
  "user_has_identity F fs username \<longleftrightarrow>
     (case checked_user_dir F fs username of
        Inl _ \<Rightarrow> False
      | Inr _ \<Rightarrow> (case entry_of fs username of None \<Rightarrow> False
                 | Some e \<Rightarrow> ue_is_dir e \<and> ue_identity_dir e \<and> ue_secret e))"

section \<open>The state machine\<close>

datatype IdentityState =
    NoIdentity
  | Ready string
  | ReadyMultiUser string "string list"
  | NeedsUserSelection "string list"
  | ActiveUserMissing string "string list"
  | Corrupted string

fun is_ready :: "IdentityState \<Rightarrow> bool" where
  "is_ready (Ready _) = True"
| "is_ready (ReadyMultiUser _ _) = True"
| "is_ready _ = False"

fun needs_action :: "IdentityState \<Rightarrow> bool" where
  "needs_action NoIdentity = True"
| "needs_action (NeedsUserSelection _) = True"
| "needs_action (ActiveUserMissing _ _) = True"
| "needs_action (Corrupted _) = True"
| "needs_action _ = False"

fun active_username :: "IdentityState \<Rightarrow> string option" where
  "active_username (Ready u) = Some u"
| "active_username (ReadyMultiUser u _) = Some u"
| "active_username _ = None"

fun available_users :: "IdentityState \<Rightarrow> string list" where
  "available_users (Ready u) = [u]"
| "available_users (ReadyMultiUser _ us) = us"
| "available_users (NeedsUserSelection us) = us"
| "available_users (ActiveUserMissing _ us) = us"
| "available_users _ = []"

definition evaluate_state :: "io \<Rightarrow> unicode \<Rightarrow> user_fs \<Rightarrow> IdentityState" where
  "evaluate_state F U fs =
     (let users_with_identity = filter (user_has_identity F fs) (list_users F fs)
      in if users_with_identity = [] then NoIdentity
         else case get_active_user U fs of
           None \<Rightarrow> NeedsUserSelection users_with_identity
         | Some username \<Rightarrow>
             if username \<in> set users_with_identity
             then if length users_with_identity = 1 then Ready username
                  else ReadyMultiUser username users_with_identity
             else ActiveUserMissing username users_with_identity)"

definition repair_state :: "io \<Rightarrow> unicode \<Rightarrow> user_fs \<Rightarrow> IdentityState PasskeyResult \<times> user_fs" where
  "repair_state F U fs =
     (let activate = (\<lambda>u. case set_active_user F u fs of
            (Inl e, fs') \<Rightarrow> (Inl e, fs') | (Inr _, fs') \<Rightarrow> (Inr (Ready u), fs'))
      in case evaluate_state F U fs of
           NeedsUserSelection [u] \<Rightarrow> activate u
         | ActiveUserMissing _ [u] \<Rightarrow> activate u
         | ActiveUserMissing _ (u # us) \<Rightarrow> (Inr (NeedsUserSelection (u # us)), fs)
         | st \<Rightarrow> (Inr st, fs))"

end
