(* ===== verification/Multi_User_Laws.thy ===== *)
theory Multi_User_Laws
  imports Multi_User Keywrap_Laws
begin

text \<open>The theorems about the users of an installation and the state machine over them.\<close>

section \<open>Lists of users\<close>

definition names_distinct :: "user_fs \<Rightarrow> bool" where
  "names_distinct fs \<longleftrightarrow> distinct (map fst (entries fs))"

lemma put_entry_names:
  "map fst (put_entry n e es) = (if n \<in> set (map fst es) then map fst es else map fst es @ [n])"
  by (induction es) force+

lemma names_distinct_put: "names_distinct fs \<Longrightarrow> distinct (map fst (put_entry n e (entries fs)))"
  by (simp add: names_distinct_def put_entry_names)

lemma map_of_put_entry: "map_of (put_entry n e es) m = (if m = n then Some e else map_of es m)"
  by (induction es) auto

lemma map_of_filter_other: "map_of (filter (\<lambda>(n, e). n \<noteq> u) es) v = (if v = u then None else map_of es v)"
  by (induction es) auto

lemma user_has_identity_iff:
  "user_has_identity F fs u \<longleftrightarrow>
     checked_user_dir F fs u = Inr ()
     \<and> (\<exists>e. entry_of fs u = Some e \<and> ue_is_dir e \<and> ue_identity_dir e \<and> ue_secret e)"
  by (auto simp: user_has_identity_def split: sum.split option.splits)

lemma list_users_set:
  assumes "names_distinct fs" and "io_fails F ReadDir = None"
  shows "u \<in> set (list_users F fs) \<longleftrightarrow> (\<exists>e. entry_of fs u = Some e \<and> ue_is_dir e)"
proof (cases "mu_users fs")
  case None
  then show ?thesis by (simp add: list_users_def entry_of_def entries_def)
next
  case (Some es)
  then have "distinct (map fst es)" using assms(1) by (simp add: names_distinct_def entries_def)
  then show ?thesis
    using assms(2) Some
    by (force simp: list_users_def entry_of_def entries_def map_of_eq_Some_iff)
qed

lemma list_users_sorted: "names_distinct fs \<Longrightarrow> sorted_wrt (<) (list_users F fs)"
  by (auto simp: list_users_def names_distinct_def entries_def strict_sorted_iff distinct_map_filter
      split: option.splits)

lemma checked_user_dir_eq_Inr:
  "checked_user_dir F fs u = Inr () \<longleftrightarrow>
     validate_user_dir_name (io_debug F) u = Inr ()
     \<and> (\<forall>e. entry_of fs u = Some e \<longrightarrow> \<not> ue_outside e)"
proof -
  have "validate_user_dir_name (io_debug F) u = Inr () \<Longrightarrow>
      lexical_child (io_debug F) base u = Inr (base @ [Normal u])" for base
    by (simp add: lexical_child_def plain_components path_strip_prefix_def)
  then show ?thesis
    by (auto simp: checked_user_dir_def try_bind_eq_Inr split: option.split)
qed

text \<open>A valid directory name is plain ASCII: reading it back from the pointer file gives it.\<close>

lemma valid_name_trim:
  assumes "validate_user_dir_name debug u = Inr ()"
  shows "trim U u = u \<and> u \<noteq> []"
proof -
  have "list_all (\<lambda>c. is_ascii_alphanumeric c \<or> c = CHR ''-'' \<or> c = CHR ''_'') u \<and> u \<noteq> []"
  proof (cases "u \<in> set RESERVED_USER_DIR_NAMES")
    case True
    then show ?thesis
      by (simp add: RESERVED_USER_DIR_NAMES_def is_ascii_alphanumeric_def code_of_def)
  next
    case False
    with assms have "validate_username debug u = Inr ()" by (simp add: validate_user_dir_name_def)
    then show ?thesis by (auto simp: validate_username_eq_Inr list_all_iff)
  qed
  then have plain: "\<And>c. c \<in> set u \<Longrightarrow> is_ascii_alphanumeric c \<or> c = CHR ''-'' \<or> c = CHR ''_''"
    and "u \<noteq> []" by (simp_all add: list_all_iff)
  have ascii: "is_ascii c \<and> \<not> ascii_ws c"
    if "is_ascii_alphanumeric c \<or> c = CHR ''-'' \<or> c = CHR ''_''" for c
    using that by (elim disjE) (simp_all add: is_ascii_alphanumeric_def is_ascii_def ascii_ws_def code_of_def, linarith?)
  have "trim U u = u" by (rule trim_plain) (simp add: list_all_iff plain ascii)
  with \<open>u \<noteq> []\<close> show ?thesis by simp
qed

section \<open>Evaluation\<close>

lemma evaluate_state_available:
  "available_users (evaluate_state F U fs) = filter (user_has_identity F fs) (list_users F fs)"
proof -
  let ?us = "filter (user_has_identity F fs) (list_users F fs)"
  have "[u] = ?us" if "u \<in> set ?us" "length ?us = 1" for u
    using that by (cases ?us) auto
  then show ?thesis
    by (auto simp: evaluate_state_def Let_def split: option.split)
qed

lemma evaluate_state_active:
  "active_username (evaluate_state F U fs) = Some u \<longleftrightarrow>
     u \<in> set (filter (user_has_identity F fs) (list_users F fs)) \<and> get_active_user U fs = Some u"
  by (auto simp: evaluate_state_def Let_def filter_empty_conv split: option.split)

lemma ready_iff_active: "is_ready st \<longleftrightarrow> (\<exists>u. active_username st = Some u)"
  by (cases st) simp_all

lemma needs_action_iff: "needs_action st \<longleftrightarrow> \<not> is_ready st"
  by (cases st) simp_all

text \<open>The evaluated state tells exactly which users have an identity, sorted and without
  repetition, every one a valid name below \<open>users/\<close>; it is ready exactly if the pointer names one
  of them, who is then the active user, and otherwise asks for an action; it is never
  \<open>Corrupted\<close>.\<close>

theorem identity_state:
  assumes "names_distinct fs" and "io_fails F ReadDir = None"
  shows "set (available_users (evaluate_state F U fs)) = {u. user_has_identity F fs u}
    \<and> sorted_wrt (<) (available_users (evaluate_state F U fs))
    \<and> (\<forall>u \<in> set (available_users (evaluate_state F U fs)).
         validate_user_dir_name (io_debug F) u = Inr ())
    \<and> (active_username (evaluate_state F U fs) = Some v
         \<longleftrightarrow> user_has_identity F fs v \<and> get_active_user U fs = Some v)
    \<and> (is_ready (evaluate_state F U fs)
         \<longleftrightarrow> (\<exists>u. user_has_identity F fs u \<and> get_active_user U fs = Some u))
    \<and> needs_action (evaluate_state F U fs) = (\<not> is_ready (evaluate_state F U fs))
    \<and> (evaluate_state F U fs = NoIdentity \<longleftrightarrow> (\<forall>u. \<not> user_has_identity F fs u))
    \<and> evaluate_state F U fs \<noteq> Corrupted why"
proof -
  have mem: "u \<in> set (filter (user_has_identity F fs) (list_users F fs)) \<longleftrightarrow> user_has_identity F fs u" for u
    using list_users_set [OF assms] by (auto simp: user_has_identity_iff)
  have valid: "user_has_identity F fs u \<Longrightarrow> validate_user_dir_name (io_debug F) u = Inr ()" for u
    by (simp add: user_has_identity_iff checked_user_dir_eq_Inr)
  have none: "evaluate_state F U fs = NoIdentity \<longleftrightarrow> (\<forall>u. \<not> user_has_identity F fs u)"
    using mem by (auto simp: evaluate_state_def Let_def filter_empty_conv split: option.split)
  have "evaluate_state F U fs \<noteq> Corrupted why"
    by (simp add: evaluate_state_def Let_def split: option.split)
  then show ?thesis
    using mem valid none list_users_sorted [OF assms(1)]
    by (auto simp: evaluate_state_available evaluate_state_active ready_iff_active needs_action_iff
        sorted_wrt_filter)
qed

definition demo_io :: io where
  "demo_io = \<lparr>io_fails = (\<lambda>op. None), io_not_a_directory = ''not a directory'', io_debug = (\<lambda>s. s)\<rparr>"

definition demo_user :: user_entry where
  "demo_user = \<lparr>ue_is_dir = True, ue_outside = False, ue_identity_dir = True, ue_secret = True,
     ue_info = None\<rparr>"

definition demo_fs :: "string option option \<Rightarrow> (string \<times> user_entry) list \<Rightarrow> user_fs" where
  "demo_fs active es = \<lparr>mu_users = Some es, mu_active = active\<rparr>"

lemma demo_names_valid:
  "validate_user_dir_name (\<lambda>s. s) ''bo'' = Inr ()" "validate_user_dir_name (\<lambda>s. s) ''al'' = Inr ()"
  by (simp_all add: validate_user_dir_name_def RESERVED_USER_DIR_NAMES_def validate_username_eq_Inr
      is_ascii_alphanumeric_def code_of_def WINDOWS_DEVICE_NAMES_def eq_ignore_ascii_case_def)

lemma demo_has_identity:
  "user_has_identity demo_io (demo_fs a [(''bo'', demo_user), (''al'', demo_user)]) u
     \<longleftrightarrow> u = ''bo'' \<or> u = ''al''"
  by (auto simp: user_has_identity_iff checked_user_dir_eq_Inr demo_fs_def entry_of_def entries_def
      demo_user_def demo_io_def demo_names_valid split: if_splits)

lemma demo_names_distinct: "names_distinct (demo_fs a [(''bo'', demo_user), (''al'', demo_user)])"
  by (simp add: names_distinct_def demo_fs_def entries_def)

theorem identity_state_witness:
  "set (available_users (evaluate_state demo_io demo_unicode
       (demo_fs None [(''bo'', demo_user), (''al'', demo_user)]))) = {''bo'', ''al''}
   \<and> \<not> is_ready (evaluate_state demo_io demo_unicode (demo_fs None [(''bo'', demo_user), (''al'', demo_user)]))"
proof -
  have "io_fails demo_io ReadDir = None" by (simp add: demo_io_def)
  note st = identity_state [OF demo_names_distinct this, of demo_unicode None]
  have "get_active_user demo_unicode (demo_fs None es) = None" for es
    by (simp add: get_active_user_def demo_fs_def)
  with st show ?thesis by (auto simp: demo_has_identity)
qed

section \<open>Repair\<close>

lemma set_active_user_ok:
  assumes "validate_user_dir_name (io_debug F) u = Inr ()"
    and "io_fails F CreateDirAll = None" and "io_fails F WriteFile = None"
  shows "set_active_user F u fs = (Inr (), fs\<lparr>mu_active := Some (Some u)\<rparr>)"
  by (simp add: set_active_user_def assms io_guard_def)

lemma active_update_simps [simp]:
  "entries (fs\<lparr>mu_active := a\<rparr>) = entries fs"
  "entry_of (fs\<lparr>mu_active := a\<rparr>) = entry_of fs"
  "list_users F (fs\<lparr>mu_active := a\<rparr>) = list_users F fs"
  by (simp_all add: entries_def entry_of_def fun_eq_iff list_users_def)

lemma has_identity_active [simp]:
  "user_has_identity F (fs\<lparr>mu_active := a\<rparr>) = user_has_identity F fs"
  by (simp add: fun_eq_iff user_has_identity_iff checked_user_dir_eq_Inr)

text \<open>C22: With working I/O, repair never fails and never touches a user. If exactly one user has
  an identity it makes that user the active one, and the state evaluated afterwards is the one
  it returned; otherwise it leaves the installation as it is, and reports a dangling pointer among
  several users as a selection to make, while the pointer, and with it the evaluated state, stays
  \<open>ActiveUserMissing\<close>. Repairing twice changes nothing more.\<close>

theorem repair_outcome:
  assumes "io_fails F = (\<lambda>op. None)" and "repair_state F U fs = (r, fs')"
  shows "mu_users fs' = mu_users fs
    \<and> (case available_users (evaluate_state F U fs) of
         [u] \<Rightarrow> r = Inr (Ready u) \<and> evaluate_state F U fs' = Ready u
       | us \<Rightarrow> fs' = fs \<and> r = Inr (case evaluate_state F U fs of
                 ActiveUserMissing c us' \<Rightarrow> NeedsUserSelection us' | st \<Rightarrow> st))
    \<and> repair_state F U fs' = (r, fs')"
proof -
  let ?us = "filter (user_has_identity F fs) (list_users F fs)"
  let ?st = "evaluate_state F U fs"
  have st: "?st = (if ?us = [] then NoIdentity else case get_active_user U fs of
      None \<Rightarrow> NeedsUserSelection ?us
    | Some u \<Rightarrow> if u \<in> set ?us then if length ?us = 1 then Ready u else ReadyMultiUser u ?us
               else ActiveUserMissing u ?us)"
    by (simp add: evaluate_state_def Let_def)
  show ?thesis
  proof (cases "\<exists>u. ?us = [u]")
    case False
    then have unchanged: "repair_state F U fs = (Inr (case ?st of
          ActiveUserMissing c us' \<Rightarrow> NeedsUserSelection us' | st \<Rightarrow> st), fs)"
      unfolding repair_state_def st
      by (cases ?us; cases "tl ?us") (auto split: option.split)
    then have "r = Inr (case ?st of ActiveUserMissing c us' \<Rightarrow> NeedsUserSelection us' | st \<Rightarrow> st)" "fs' = fs"
      using assms(2) by simp_all
    with unchanged False show ?thesis
      by (cases ?us; cases "tl ?us") (auto simp: evaluate_state_available split: option.split)
  next
    case True
    then obtain u where us: "?us = [u]" ..
    then have "u \<in> set ?us" by simp
    then have mem: "u \<in> set (list_users F fs)" and "user_has_identity F fs u" by simp_all
    then have valid: "validate_user_dir_name (io_debug F) u = Inr ()"
      by (simp add: user_has_identity_iff checked_user_dir_eq_Inr)
    have set: "set_active_user F u fs = (Inr (), fs\<lparr>mu_active := Some (Some u)\<rparr>)"
      by (rule set_active_user_ok [OF valid]) (simp_all add: assms(1))
    have r: "r = Inr (Ready u)" and fs': "fs' = fs \<and> ?st = Ready u \<or> fs' = fs\<lparr>mu_active := Some (Some u)\<rparr>"
      using assms(2) by (auto simp: repair_state_def st us set split: option.splits if_splits)
    have "get_active_user U (fs\<lparr>mu_active := Some (Some u)\<rparr>) = Some u"
      using valid_name_trim [OF valid, of U] by (simp add: get_active_user_def)
    then have "evaluate_state F U (fs\<lparr>mu_active := Some (Some u)\<rparr>) = Ready u"
      using mem \<open>user_has_identity F fs u\<close> by (simp add: evaluate_state_def Let_def us)
    with fs' have ready: "evaluate_state F U fs' = Ready u" by auto
    then show ?thesis
      using fs' r by (auto simp: evaluate_state_available us repair_state_def)
  qed
qed

theorem repair_outcome_witness:
  "repair_state demo_io demo_unicode (demo_fs (Some (Some ''x'')) [(''bo'', demo_user), (''al'', demo_user)])
     = (Inr (NeedsUserSelection [''al'', ''bo'']), demo_fs (Some (Some ''x'')) [(''bo'', demo_user), (''al'', demo_user)])
   \<and> evaluate_state demo_io demo_unicode (demo_fs (Some (Some ''x'')) [(''bo'', demo_user), (''al'', demo_user)])
     = ActiveUserMissing ''x'' [''al'', ''bo'']"
proof -
  let ?fs = "demo_fs (Some (Some ''x'')) [(''bo'', demo_user), (''al'', demo_user)]"
  have "list_users demo_io ?fs = [''al'', ''bo'']"
    by (simp add: list_users_def demo_fs_def demo_io_def demo_user_def less_list_code)
  moreover have "get_active_user demo_unicode ?fs = Some ''x''"
    using trim_plain [of "''x''" demo_unicode]
    by (simp add: get_active_user_def demo_fs_def is_ascii_def ascii_ws_def code_of_def)
  ultimately have st: "evaluate_state demo_io demo_unicode ?fs = ActiveUserMissing ''x'' [''al'', ''bo'']"
    by (simp add: evaluate_state_def demo_has_identity)
  obtain r fs' where run: "repair_state demo_io demo_unicode ?fs = (r, fs')" by fastforce
  have "io_fails demo_io = (\<lambda>op. None)" by (simp add: demo_io_def)
  from repair_outcome [OF this run] run st show ?thesis by simp
qed

section \<open>Deletion\<close>

text \<open>Deleting a user, when it succeeds, removes that user and no other: the name no longer
  exists nor is active, every other user's directory is as before, and the pointer stays if it
  named another. For an invalid name it fails and changes nothing.\<close>

theorem delete_user_only:
  assumes "delete_user F U u fs = (r, fs')"
  shows "(validate_user_dir_name (io_debug F) u \<noteq> Inr () \<longrightarrow> fs' = fs \<and> (\<exists>e. r = Inl e))
    \<and> (r = Inr () \<longrightarrow>
         \<not> user_exists F fs' u \<and> get_active_user U fs' \<noteq> Some u
         \<and> (\<forall>v. v \<noteq> u \<longrightarrow> entry_of fs' v = entry_of fs v)
         \<and> (get_active_user U fs \<noteq> Some u \<longrightarrow> mu_active fs' = mu_active fs))"
proof (intro conjI impI allI)
  assume bad: "validate_user_dir_name (io_debug F) u \<noteq> Inr ()"
  then obtain e where "checked_user_dir F fs u = Inl e"
    using checked_user_dir_eq_Inr [of F fs u] by (cases "checked_user_dir F fs u") auto
  then have "delete_user F U u fs = (Inl e, fs)" by (simp add: delete_user_def)
  with assms show "fs' = fs" "\<exists>e. r = Inl e" by auto
next
  assume ok: "r = Inr ()"
  let ?es = "filter (\<lambda>(n, e). n \<noteq> u) (entries fs)"
  from assms ok obtain fs1 where
    fs1: "fs1 = fs \<and> entry_of fs u = None \<or> fs1 = fs\<lparr>mu_users := Some ?es\<rparr>"
    and fs': "fs' = fs1 \<and> get_active_user U fs1 \<noteq> Some u
           \<or> clear_active_user F fs1 = (Inr (), fs') \<and> get_active_user U fs1 = Some u"
    by (auto simp: delete_user_def Let_def try_bind_eq_Inr split: sum.splits option.splits if_splits)
  have gone: "entry_of fs1 u = None"
    and others: "v \<noteq> u \<Longrightarrow> entry_of fs1 v = entry_of fs v" for v
    using fs1 by (auto simp: entry_of_def entries_def map_of_filter_other)
  have active1: "mu_active fs1 = mu_active fs" using fs1 by auto
  have cleared: "clear_active_user F fs1 = (Inr (), fs') \<Longrightarrow> get_active_user U fs1 = Some u \<Longrightarrow>
      fs' = fs1\<lparr>mu_active := None\<rparr>"
    by (auto simp: clear_active_user_def get_active_user_def split: if_splits sum.splits)
  then have same: "entry_of fs' = entry_of fs1" using fs' by auto
  show "\<not> user_exists F fs' u"
    using gone by (simp add: user_exists_def same split: sum.split)
  show "get_active_user U fs' \<noteq> Some u"
    using fs' cleared by (auto simp: get_active_user_def)
  show "v \<noteq> u \<Longrightarrow> entry_of fs' v = entry_of fs v" for v
    using others by (simp add: same)
  show "mu_active fs' = mu_active fs" if "get_active_user U fs \<noteq> Some u"
    using that fs' active1 by (auto simp: get_active_user_def)
qed

theorem delete_user_only_witness:
  "\<not> user_exists demo_io (demo_fs None [(''al'', demo_user)]) ''bo''
   \<and> entry_of (demo_fs None [(''al'', demo_user)]) ''al''
       = entry_of (demo_fs (Some (Some ''bo'')) [(''bo'', demo_user), (''al'', demo_user)]) ''al''"
proof -
  have trim: "trim demo_unicode ''bo'' = ''bo''"
    by (rule trim_plain) (simp add: is_ascii_def ascii_ws_def code_of_def)
  have "checked_user_dir demo_io (demo_fs (Some (Some ''bo'')) [(''bo'', demo_user), (''al'', demo_user)]) ''bo'' = Inr ()"
    unfolding checked_user_dir_eq_Inr
    by (simp add: demo_io_def demo_names_valid demo_fs_def entry_of_def entries_def demo_user_def)
  then have run: "delete_user demo_io demo_unicode ''bo''
      (demo_fs (Some (Some ''bo'')) [(''bo'', demo_user), (''al'', demo_user)])
      = (Inr (), demo_fs None [(''al'', demo_user)])"
    by (simp add: delete_user_def)
       (simp add: demo_fs_def entry_of_def entries_def demo_user_def demo_io_def io_guard_def
         get_active_user_def clear_active_user_def trim)
  from delete_user_only [OF run] show ?thesis by simp
qed

end
