(* ===== verification/Multi_User_Runs.thy ===== *)
theory Multi_User_Runs
  imports Multi_User_Laws
begin

text \<open>
  Runs of an installation: a step relation with every operation of \<open>multi_user/mod.rs\<close>,
  \<open>state_machine.rs\<close> and the identity files that changes it, under any failure of \<open>std::fs\<close>,
  from the empty installation. The operations on identity files are those of
  \<open>Identity_Store\<close>, here by what they do to the user's entry: whether \<open>identity/\<close> and
  \<open>secret.pgp\<close> exist.
\<close>

section \<open>Identity files, by entry\<close>

text \<open>\<open>sealed\<close> is the outcome of sealing the secret, \<open>later\<close> that of the steps after the secret
  is written (its mode and the public key).\<close>

definition save_identity_entry ::
    "io \<Rightarrow> unit PasskeyResult \<Rightarrow> unit PasskeyResult \<Rightarrow> string \<Rightarrow> user_fs \<Rightarrow> unit PasskeyResult \<times> user_fs" where
  "save_identity_entry F sealed later username fs =
     (case try_bind (checked_user_dir F fs username) (\<lambda>_. sealed) of
        Inl e \<Rightarrow> (Inl e, fs)
      | Inr _ \<Rightarrow>
          (let e = (case entry_of fs username of None \<Rightarrow> empty_dir | Some e \<Rightarrow> e);
               put = (\<lambda>e. fs\<lparr>mu_users := Some (put_entry username e (entries fs))\<rparr>)
           in if \<not> ue_is_dir e then (Inl (PasskeyError.KeySave (io_not_a_directory F)), fs)
              else case io_guard F CreateDirAll of
                Inl err \<Rightarrow> (Inl err, fs)
              | Inr _ \<Rightarrow> (case io_guard F WriteFile of
                    Inl err \<Rightarrow> (Inl err, put (e\<lparr>ue_identity_dir := True\<rparr>))
                  | Inr _ \<Rightarrow> (later, put (e\<lparr>ue_identity_dir := True, ue_secret := True\<rparr>)))))"

definition delete_identity_entry :: "io \<Rightarrow> string \<Rightarrow> user_fs \<Rightarrow> unit PasskeyResult \<times> user_fs" where
  "delete_identity_entry F username fs =
     (case checked_user_dir F fs username of
        Inl e \<Rightarrow> (Inl e, fs)
      | Inr _ \<Rightarrow> (case entry_of fs username of
            None \<Rightarrow> (Inr (), fs)
          | Some e \<Rightarrow>
              if \<not> (ue_is_dir e \<and> ue_identity_dir e \<and> ue_secret e) then (Inr (), fs)
              else case io_guard F RemoveFile of
                Inl err \<Rightarrow> (Inl err, fs)
              | Inr _ \<Rightarrow> (Inr (), fs\<lparr>mu_users :=
                  Some (put_entry username (e\<lparr>ue_secret := False\<rparr>) (entries fs))\<rparr>)))"

section \<open>Steps\<close>

definition empty_installation :: user_fs where
  "empty_installation = \<lparr>mu_users = None, mu_active = None\<rparr>"

inductive mu_step :: "unicode \<Rightarrow> (string \<Rightarrow> string) \<Rightarrow> user_fs \<Rightarrow> user_fs \<Rightarrow> bool"
  for U :: unicode and debug :: "string \<Rightarrow> string" where
  step_create: "io_debug F = debug \<Longrightarrow> mu_step U debug fs (snd (create_user F u fs))"
| step_delete: "io_debug F = debug \<Longrightarrow> mu_step U debug fs (snd (delete_user F U u fs))"
| step_info: "io_debug F = debug \<Longrightarrow> mu_step U debug fs (snd (save_user_info F print u info fs))"
| step_save: "io_debug F = debug \<Longrightarrow> mu_step U debug fs (snd (save_identity_entry F sealed later u fs))"
| step_unsave: "io_debug F = debug \<Longrightarrow> mu_step U debug fs (snd (delete_identity_entry F u fs))"
| step_set: "io_debug F = debug \<Longrightarrow> mu_step U debug fs (snd (set_active_user F u fs))"
| step_clear: "io_debug F = debug \<Longrightarrow> mu_step U debug fs (snd (clear_active_user F fs))"
| step_repair: "io_debug F = debug \<Longrightarrow> mu_step U debug fs (snd (repair_state F U fs))"

inductive installation :: "unicode \<Rightarrow> (string \<Rightarrow> string) \<Rightarrow> user_fs \<Rightarrow> bool"
  for U :: unicode and debug :: "string \<Rightarrow> string" where
  installation_empty: "installation U debug empty_installation"
| installation_step: "installation U debug fs \<Longrightarrow> mu_step U debug fs fs' \<Longrightarrow> installation U debug fs'"

section \<open>The invariant of an installation\<close>

definition entry_typed :: "(string \<Rightarrow> string) \<Rightarrow> string \<Rightarrow> user_entry \<Rightarrow> bool" where
  "entry_typed debug n e \<longleftrightarrow> validate_user_dir_name debug n = Inr ()
     \<and> ue_is_dir e \<and> \<not> ue_outside e \<and> (ue_secret e \<longrightarrow> ue_identity_dir e)"

definition pointer_typed :: "(string \<Rightarrow> string) \<Rightarrow> string option option \<Rightarrow> bool" where
  "pointer_typed debug a \<longleftrightarrow>
     (case a of None \<Rightarrow> True
      | Some None \<Rightarrow> False
      | Some (Some u) \<Rightarrow> validate_user_dir_name debug u = Inr ())"

definition well_typed :: "(string \<Rightarrow> string) \<Rightarrow> user_fs \<Rightarrow> bool" where
  "well_typed debug fs \<longleftrightarrow> names_distinct fs
     \<and> (\<forall>n e. entry_of fs n = Some e \<longrightarrow> entry_typed debug n e)
     \<and> pointer_typed debug (mu_active fs)"

lemma entry_typed_empty:
  "entry_typed debug n empty_dir \<longleftrightarrow> validate_user_dir_name debug n = Inr ()"
  by (simp add: entry_typed_def empty_dir_def)

lemma well_typed_put:
  assumes "well_typed debug fs" and "entry_typed debug u e"
  shows "well_typed debug (fs\<lparr>mu_users := Some (put_entry u e (entries fs))\<rparr>)"
proof -
  let ?fs = "fs\<lparr>mu_users := Some (put_entry u e (entries fs))\<rparr>"
  have "entries ?fs = put_entry u e (entries fs)" by (simp add: entries_def)
  then show ?thesis
    using assms names_distinct_put [of fs u e]
    by (auto simp: well_typed_def names_distinct_def entry_of_def map_of_put_entry split: if_splits)
qed

lemma well_typed_remove:
  assumes "well_typed debug fs"
  shows "well_typed debug (fs\<lparr>mu_users := Some (filter (\<lambda>(n, e). n \<noteq> u) (entries fs))\<rparr>)"
proof -
  let ?es = "filter (\<lambda>(n, e). n \<noteq> u) (entries fs)"
  have "entries (fs\<lparr>mu_users := Some ?es\<rparr>) = ?es" by (simp add: entries_def)
  moreover have "distinct (map fst (entries fs)) \<Longrightarrow> distinct (map fst ?es)"
    by (rule distinct_map_filter)
  ultimately show ?thesis
    using assms
    by (auto simp: well_typed_def names_distinct_def entry_of_def map_of_filter_other split: if_splits)
qed

lemma well_typed_pointer:
  "well_typed debug fs \<Longrightarrow> pointer_typed debug a \<Longrightarrow> well_typed debug (fs\<lparr>mu_active := a\<rparr>)"
  by (simp add: well_typed_def names_distinct_def)

text \<open>The entry an operation starts from: the user's, or a new directory.\<close>

lemma well_typed_entry:
  assumes "well_typed debug fs" and "checked_user_dir F fs u = Inr ()" and "io_debug F = debug"
  shows "entry_typed debug u (case entry_of fs u of None \<Rightarrow> empty_dir | Some e \<Rightarrow> e)"
  using assms
  by (auto simp: well_typed_def entry_typed_empty checked_user_dir_eq_Inr split: option.split)

lemma entry_typed_identity_dir:
  "entry_typed debug u e \<Longrightarrow> entry_typed debug u (e\<lparr>ue_identity_dir := True\<rparr>)"
  "entry_typed debug u e \<Longrightarrow> entry_typed debug u (e\<lparr>ue_identity_dir := True, ue_secret := s\<rparr>)"
  "entry_typed debug u e \<Longrightarrow> entry_typed debug u (e\<lparr>ue_secret := False\<rparr>)"
  "entry_typed debug u e \<Longrightarrow> entry_typed debug u (e\<lparr>ue_info := i\<rparr>)"
  by (simp_all add: entry_typed_def)

section \<open>Every operation keeps it\<close>

lemma create_user_typed:
  assumes "well_typed debug fs" and "io_debug F = debug"
  shows "well_typed debug (snd (create_user F u fs))"
proof (cases "checked_user_dir F fs u")
  case (Inr x)
  then have e: "entry_typed debug u (case entry_of fs u of None \<Rightarrow> empty_dir | Some e \<Rightarrow> e)"
    using well_typed_entry [OF assms(1) _ assms(2)] by simp
  show ?thesis
    using well_typed_put [OF assms(1) entry_typed_identity_dir(1) [OF e]] assms(1) Inr
    by (simp add: create_user_def Let_def split: sum.split)
qed (simp add: create_user_def assms)

lemma save_user_info_typed:
  assumes "well_typed debug fs" and "io_debug F = debug"
  shows "well_typed debug (snd (save_user_info F print u info fs))"
proof (cases "checked_user_dir F fs u")
  case (Inr x)
  then have e: "entry_typed debug u (case entry_of fs u of None \<Rightarrow> empty_dir | Some e \<Rightarrow> e)"
    using well_typed_entry [OF assms(1) _ assms(2)] by simp
  show ?thesis
    using well_typed_put [OF assms(1) e] well_typed_put [OF assms(1) entry_typed_identity_dir(4) [OF e]]
      assms(1) Inr
    by (simp add: save_user_info_def Let_def split: sum.split)
qed (simp add: save_user_info_def assms)

lemma save_identity_typed:
  assumes "well_typed debug fs" and "io_debug F = debug"
  shows "well_typed debug (snd (save_identity_entry F sealed later u fs))"
proof (cases "checked_user_dir F fs u")
  case (Inr x)
  then have e: "entry_typed debug u (case entry_of fs u of None \<Rightarrow> empty_dir | Some e \<Rightarrow> e)"
    using well_typed_entry [OF assms(1) _ assms(2)] by simp
  show ?thesis
    using well_typed_put [OF assms(1) entry_typed_identity_dir(1) [OF e]]
      well_typed_put [OF assms(1) entry_typed_identity_dir(2) [OF e]] assms(1) Inr
    by (simp add: save_identity_entry_def Let_def split: sum.split)
qed (simp add: save_identity_entry_def assms)

lemma delete_identity_typed:
  assumes "well_typed debug fs" and "io_debug F = debug"
  shows "well_typed debug (snd (delete_identity_entry F u fs))"
proof -
  have "well_typed debug (fs\<lparr>mu_users := Some (put_entry u (e\<lparr>ue_secret := False\<rparr>) (entries fs))\<rparr>)"
    if "entry_of fs u = Some e" for e
    using well_typed_put [OF assms(1) entry_typed_identity_dir(3)] assms(1) that
    by (auto simp: well_typed_def)
  then show ?thesis
    using assms(1) by (simp add: delete_identity_entry_def split: sum.split option.split)
qed

lemma clear_active_typed: "well_typed debug fs \<Longrightarrow> well_typed debug (snd (clear_active_user F fs))"
  by (simp add: clear_active_user_def well_typed_pointer pointer_typed_def split: sum.split)

lemma delete_user_typed:
  assumes "well_typed debug fs"
  shows "well_typed debug (snd (delete_user F U u fs))"
  using assms well_typed_remove [OF assms, of u] clear_active_typed [of debug _ F]
  by (auto simp: delete_user_def Let_def try_bind_def split: sum.split option.split if_splits)

lemma set_active_typed:
  assumes "well_typed debug fs" and "io_debug F = debug"
  shows "well_typed debug (snd (set_active_user F u fs))"
  using assms
  by (auto simp: set_active_user_def try_bind_eq_Inr pointer_typed_def intro!: well_typed_pointer
      split: sum.split)

lemma repair_state_typed:
  assumes "well_typed debug fs" and "io_debug F = debug"
  shows "well_typed debug (snd (repair_state F U fs))"
proof -
  have set: "well_typed debug fs'" if "set_active_user F u fs = (r, fs')" for u r fs'
    using set_active_typed [OF assms, of u] that by simp
  show ?thesis
    using assms(1)
    by (auto simp: repair_state_def Let_def split: IdentityState.split list.split prod.split sum.split
        dest: set)
qed

lemma mu_step_typed: "mu_step U debug fs fs' \<Longrightarrow> well_typed debug fs \<Longrightarrow> well_typed debug fs'"
  by (induction rule: mu_step.induct)
     (simp_all add: create_user_typed delete_user_typed save_user_info_typed save_identity_typed
       delete_identity_typed set_active_typed clear_active_typed repair_state_typed)

lemma installation_well_typed: "installation U debug fs \<Longrightarrow> well_typed debug fs"
proof (induction rule: installation.induct)
  case installation_empty
  show ?case
    by (simp add: well_typed_def names_distinct_def empty_installation_def entries_def entry_of_def
        pointer_typed_def)
qed (rule mu_step_typed)

lemma well_typed_pointer_read:
  assumes "well_typed debug fs"
  shows "get_active_user U fs = Some u \<longleftrightarrow> mu_active fs = Some (Some u)"
  using assms valid_name_trim [of debug _ U]
  by (auto simp: well_typed_def pointer_typed_def get_active_user_def Let_def split: option.splits if_splits)

lemma well_typed_exists:
  "well_typed (io_debug F) fs \<Longrightarrow> user_exists F fs u \<longleftrightarrow> entry_of fs u \<noteq> None"
  using checked_user_dir_eq_Inr [of F fs u]
  by (cases "checked_user_dir F fs u"; cases "entry_of fs u")
     (auto simp: user_exists_def well_typed_def entry_typed_def)

lemma well_typed_identity:
  "well_typed (io_debug F) fs \<Longrightarrow>
     user_has_identity F fs u \<longleftrightarrow> (\<exists>e. entry_of fs u = Some e \<and> ue_secret e)"
  by (auto simp: user_has_identity_iff checked_user_dir_eq_Inr well_typed_def entry_typed_def)


section \<open>Every user can become ready\<close>

definition working :: "io \<Rightarrow> bool" where
  "working F \<longleftrightarrow> io_fails F = (\<lambda>op. None)"

definition onboard :: "io \<Rightarrow> string \<Rightarrow> user_fs \<Rightarrow> unit PasskeyResult list \<times> user_fs" where
  "onboard F u fs =
     (case create_user F u fs of (r1, fs1) \<Rightarrow>
        (case save_identity_entry F (Inr ()) (Inr ()) u fs1 of (r2, fs2) \<Rightarrow>
           (case set_active_user F u fs2 of (r3, fs3) \<Rightarrow> ([r1, r2, r3], fs3))))"

lemma entry_of_put:
  "entry_of (fs\<lparr>mu_users := Some (put_entry u e (entries fs))\<rparr>) n = (if n = u then Some e else entry_of fs n)"
  by (simp add: entry_of_def entries_def map_of_put_entry)

lemma create_user_ok:
  assumes "well_typed (io_debug F) fs" and "validate_user_dir_name (io_debug F) u = Inr ()" and "working F"
  obtains fs' e where "create_user F u fs = (Inr (), fs')" and "entry_of fs' u = Some e"
    and "\<And>n. n \<noteq> u \<Longrightarrow> entry_of fs' n = entry_of fs n" and "ue_is_dir e"
proof -
  have ok: "checked_user_dir F fs u = Inr ()"
    using assms by (auto simp: checked_user_dir_eq_Inr well_typed_def entry_typed_def)
  have e: "entry_typed (io_debug F) u (case entry_of fs u of None \<Rightarrow> empty_dir | Some e \<Rightarrow> e)"
    by (rule well_typed_entry [OF assms(1) ok refl])
  show ?thesis
    using e that assms(3)
    by (simp add: create_user_def ok working_def io_guard_def entry_typed_def entry_of_put Let_def)
qed

lemma save_identity_ok:
  assumes "well_typed (io_debug F) fs" and "validate_user_dir_name (io_debug F) u = Inr ()" and "working F"
  obtains fs' e where "save_identity_entry F (Inr ()) (Inr ()) u fs = (Inr (), fs')"
    and "entry_of fs' u = Some e" and "ue_secret e" and "\<And>n. n \<noteq> u \<Longrightarrow> entry_of fs' n = entry_of fs n"
proof -
  have ok: "checked_user_dir F fs u = Inr ()"
    using assms by (auto simp: checked_user_dir_eq_Inr well_typed_def entry_typed_def)
  have e: "entry_typed (io_debug F) u (case entry_of fs u of None \<Rightarrow> empty_dir | Some e \<Rightarrow> e)"
    by (rule well_typed_entry [OF assms(1) ok refl])
  show ?thesis
    using e that assms(3)
    by (simp add: save_identity_entry_def ok working_def io_guard_def entry_typed_def entry_of_put Let_def)
qed


lemma onboard_installation:
  assumes "installation U (io_debug F) fs"
  shows "installation U (io_debug F) (snd (onboard F u fs))"
proof -
  let ?fs1 = "snd (create_user F u fs)"
  let ?fs2 = "snd (save_identity_entry F (Inr ()) (Inr ()) u ?fs1)"
  have "installation U (io_debug F) ?fs1"
    by (rule installation_step [OF assms step_create [OF refl]])
  then have "installation U (io_debug F) ?fs2"
    by (rule installation_step [OF _ step_save [OF refl]])
  then have "installation U (io_debug F) (snd (set_active_user F u ?fs2))"
    by (rule installation_step [OF _ step_set [OF refl]])
  then show ?thesis by (simp add: onboard_def case_prod_beta)
qed

lemma demo_onboard:
  "onboard demo_io ''bo'' empty_installation
     = ([Inr (), Inr (), Inr ()], demo_fs (Some (Some ''bo'')) [(''bo'', demo_user)])"
proof -
  let ?fs = "\<lambda>s. \<lparr>mu_users = Some [(''bo'', demo_user\<lparr>ue_secret := s\<rparr>)], mu_active = None\<rparr>"
  have name: "validate_user_dir_name (io_debug demo_io) ''bo'' = Inr ()"
    by (simp add: demo_io_def demo_names_valid)
  have "checked_user_dir demo_io empty_installation ''bo'' = Inr ()"
    and ok: "checked_user_dir demo_io (?fs s) ''bo'' = Inr ()" for s
    by (simp_all add: checked_user_dir_eq_Inr name empty_installation_def entry_of_def entries_def demo_user_def)
  then have "create_user demo_io ''bo'' empty_installation = (Inr (), ?fs False)"
    by (simp add: create_user_def empty_installation_def entry_of_def entries_def demo_io_def
        io_guard_def empty_dir_def demo_user_def Let_def)
  moreover have "save_identity_entry demo_io (Inr ()) (Inr ()) ''bo'' (?fs False) = (Inr (), ?fs True)"
    using ok
    by (simp add: save_identity_entry_def entry_of_def entries_def Let_def)
       (simp add: demo_user_def demo_io_def io_guard_def)
  moreover have "set_active_user demo_io ''bo'' (?fs True) = (Inr (), (?fs True)\<lparr>mu_active := Some (Some ''bo'')\<rparr>)"
    by (rule set_active_user_ok [OF name]) (simp_all add: demo_io_def)
  ultimately show ?thesis
    by (simp add: onboard_def) (simp add: demo_fs_def demo_user_def)
qed

lemma demo_installation:
  "installation demo_unicode (io_debug demo_io) (demo_fs (Some (Some ''bo'')) [(''bo'', demo_user)])"
  using onboard_installation [OF installation_empty, of demo_unicode demo_io "''bo''"]
  by (simp add: demo_onboard)



end
