(* ===== verification/Facade.thy ===== *)
theory Facade
  imports Multi_User_Runs Identity_Store
begin

text \<open>
  The functions that \<open>gitcellar-crypto/src/lib.rs\<close> puts on top of \<open>passkey-core\<close>, and the loading
  of the active identity in \<open>gitcellar-identity/src/lib.rs\<close>: the identity, the key files and the data
  paths of the active user. Both fix the configuration \<open>PasskeyConfig::gitcellar()\<close>; here the configuration is an argument,
  \<open>c\<close>, so that the override of its directory can be told. The user directories are the
  \<open>user_fs\<close> of \<open>Multi_User\<close>, the files of an identity the tree of \<open>Identity_Store\<close>.
\<close>

section \<open>Identities\<close>

definition open_secret_key_at_rest ::
    "'w lpk_host \<Rightarrow> bytes \<Rightarrow> bytes \<Rightarrow> 'w lpk_state \<Rightarrow> (panic + bytes CryptoResult) \<times> 'w lpk_state" where
  "open_secret_key_at_rest h drawn raw s =
     (if is_wrapped raw
      then (case unwrap_at_rest h drawn raw s of
          (Inl p, s') \<Rightarrow> (Inl p, s')
        | (Inr r, s') \<Rightarrow> (Inr (map_err (\<lambda>e. CryptoError.KeyLoad
              (''secret key at-rest open failed: '' @ passkey_error_text e)) r), s'))
      else (Inr (Inr raw), s))"

definition load_active ::
    "'w lpk_host \<Rightarrow> bytes \<Rightarrow> pgp_io \<Rightarrow> faults \<Rightarrow> (component list \<Rightarrow> string) \<Rightarrow> user_paths \<Rightarrow> unicode
     \<Rightarrow> user_fs \<Rightarrow> tree \<Rightarrow> ('w lpk_state, Identity) passkey_sealing" where
  "load_active h drawn G F disp c U fs t s =
     (case get_active_user U fs of
        None \<Rightarrow> (Inr (Inl NoActiveUser), s)
      | Some username \<Rightarrow> load_user h drawn G F disp c username t s)"

definition load_active_identity ::
    "'w lpk_host \<Rightarrow> bytes \<Rightarrow> pgp_io \<Rightarrow> faults \<Rightarrow> (component list \<Rightarrow> string) \<Rightarrow> user_paths \<Rightarrow> unicode
     \<Rightarrow> user_fs \<Rightarrow> tree \<Rightarrow> 'w lpk_state \<Rightarrow> (panic + Identity CryptoResult) \<times> 'w lpk_state" where
  "load_active_identity h drawn G F disp c U fs t s =
     (case load_active h drawn G F disp c U fs t s of
        (Inl p, s') \<Rightarrow> (Inl p, s')
      | (Inr r, s') \<Rightarrow> (Inr (map_err from_passkey_error r), s'))"

definition engine_from_default_identity ::
    "'w lpk_host \<Rightarrow> bytes \<Rightarrow> pgp_io \<Rightarrow> faults \<Rightarrow> (component list \<Rightarrow> string) \<Rightarrow> user_paths \<Rightarrow> unicode
     \<Rightarrow> user_fs \<Rightarrow> tree \<Rightarrow> 'w lpk_state \<Rightarrow> (panic + EncryptionEngine CryptoResult) \<times> 'w lpk_state" where
  "engine_from_default_identity h drawn G F disp c U fs t s =
     (case load_active h drawn G F disp c U fs t s of
        (Inl p, s') \<Rightarrow> (Inl p, s')
      | (Inr r, s') \<Rightarrow> (Inr (try_bind (map_err from_passkey_error r) pgp_engine_new), s'))"

definition identity_exists :: "io \<Rightarrow> unicode \<Rightarrow> user_fs \<Rightarrow> bool" where
  "identity_exists F U fs \<longleftrightarrow>
     (case evaluate_state F U fs of
        Ready _ \<Rightarrow> True
      | ReadyMultiUser _ _ \<Rightarrow> True
      | NeedsUserSelection users \<Rightarrow> users \<noteq> []
      | ActiveUserMissing _ available \<Rightarrow> available \<noteq> []
      | NoIdentity \<Rightarrow> False
      | Corrupted _ \<Rightarrow> False)"

definition active_or_default_user ::
    "io \<Rightarrow> unicode \<Rightarrow> user_fs \<Rightarrow> string PasskeyResult \<times> user_fs" where
  "active_or_default_user F U fs =
     (case get_active_user U fs of
        Some user \<Rightarrow> (Inr user, fs)
      | None \<Rightarrow>
          (case (if user_exists F fs ''default'' then (Inr (), fs) else create_user F ''default'' fs) of
             (Inl e, fs1) \<Rightarrow> (Inl e, fs1)
           | (Inr _, fs1) \<Rightarrow> (case set_active_user F ''default'' fs1 of
                 (Inl e, fs2) \<Rightarrow> (Inl e, fs2)
               | (Inr _, fs2) \<Rightarrow> (Inr ''default'', fs2))))"

text \<open>\<open>sealed\<close> and \<open>later\<close> as for \<open>save_identity_entry\<close>.\<close>

definition save_identity ::
    "io \<Rightarrow> unicode \<Rightarrow> unit PasskeyResult \<Rightarrow> unit PasskeyResult \<Rightarrow> user_fs \<Rightarrow> unit CryptoResult \<times> user_fs" where
  "save_identity F U sealed later fs =
     (case active_or_default_user F U fs of
        (Inl e, fs1) \<Rightarrow> (Inl (from_passkey_error e), fs1)
      | (Inr username, fs1) \<Rightarrow> (case save_identity_entry F sealed later username fs1 of
            (r, fs2) \<Rightarrow> (map_err from_passkey_error r, fs2)))"

section \<open>Paths\<close>

definition active_identity_dir :: "unicode \<Rightarrow> user_paths \<Rightarrow> user_fs \<Rightarrow> component list" where
  "active_identity_dir U c fs =
     (let legacy = path_join (config_dir (up_platform c) (up_config c)) ''identity''
      in case get_active_user U fs of
           Some username \<Rightarrow> (case identity_dir_checked c username of Inr dir \<Rightarrow> dir | Inl e \<Rightarrow> legacy)
         | None \<Rightarrow> legacy)"

definition active_data_path :: "io \<Rightarrow> unicode \<Rightarrow> user_paths \<Rightarrow> user_fs \<Rightarrow> string \<Rightarrow> component list" where
  "active_data_path F U c fs subpath =
     (let below = (\<lambda>u. path_join (user_dir (up_platform c) (up_config c) u) subpath);
          legacy = path_join (config_dir (up_platform c) (up_config c)) subpath
      in case get_active_user U fs of
           Some username \<Rightarrow> below username
         | None \<Rightarrow>
             if is_multi_user F fs
             then (case find (\<lambda>(n, e). ue_is_dir e) (if io_fails F ReadDir = None then entries fs else []) of
                 Some (name, _) \<Rightarrow> below name
               | None \<Rightarrow> legacy)
             else legacy)"

definition keyring_dir :: "io \<Rightarrow> unicode \<Rightarrow> user_paths \<Rightarrow> user_fs \<Rightarrow> component list" where
  "keyring_dir F U c fs = active_data_path F U c fs ''keyring''"

definition registry_path :: "io \<Rightarrow> unicode \<Rightarrow> user_paths \<Rightarrow> user_fs \<Rightarrow> component list" where
  "registry_path F U c fs = active_data_path F U c fs ''registry.db''"

definition active_user_info_path :: "io \<Rightarrow> unicode \<Rightarrow> user_paths \<Rightarrow> user_fs \<Rightarrow> component list" where
  "active_user_info_path F U c fs =
     (if get_active_user U fs \<noteq> None \<or> is_multi_user F fs
      then active_data_path F U c fs ''user_info.json''
      else path_join (path_join (config_dir (up_platform c) (up_config c)) ''identity'') ''user_info.json'')"

section \<open>Saving makes an installation ready\<close>

lemma identity_exists_iff:
  assumes "names_distinct fs" and "io_fails F ReadDir = None"
  shows "identity_exists F U fs \<longleftrightarrow> (\<exists>u. user_has_identity F fs u)"
proof -
  have "identity_exists F U fs \<longleftrightarrow> filter (user_has_identity F fs) (list_users F fs) \<noteq> []"
    by (simp add: identity_exists_def evaluate_state_def Let_def split: option.split)
  also have "\<dots> \<longleftrightarrow> (\<exists>u. user_has_identity F fs u)"
    using list_users_set [OF assms] by (auto simp: filter_empty_conv user_has_identity_iff)
  finally show ?thesis .
qed

lemma default_name_valid: "validate_user_dir_name debug ''default'' = Inr ()"
  by (simp add: validate_user_dir_name_def RESERVED_USER_DIR_NAMES_def validate_username_eq_Inr
      is_ascii_alphanumeric_def code_of_def WINDOWS_DEVICE_NAMES_def eq_ignore_ascii_case_def)

text \<open>The user an identity is saved for.\<close>

definition save_target :: "unicode \<Rightarrow> user_fs \<Rightarrow> string" where
  "save_target U fs = (case get_active_user U fs of Some u \<Rightarrow> u | None \<Rightarrow> ''default'')"

lemma active_or_default_user_ok:
  assumes "installation U (io_debug F) fs" and "working F"
  obtains fs1 where "active_or_default_user F U fs = (Inr (save_target U fs), fs1)"
    and "installation U (io_debug F) fs1" and "mu_active fs1 = Some (Some (save_target U fs))"
    and "\<And>n. n \<noteq> save_target U fs \<Longrightarrow> entry_of fs1 n = entry_of fs n"
proof (cases "get_active_user U fs")
  case (Some u)
  have "mu_active fs = Some (Some u)"
    using Some well_typed_pointer_read [OF installation_well_typed [OF assms(1)]] by simp
  then show thesis
    using that [of fs] Some assms(1) by (simp add: active_or_default_user_def save_target_def)
next
  case None
  have set: "set_active_user F ''default'' g = (Inr (), g\<lparr>mu_active := Some (Some ''default'')\<rparr>)" for g
    by (rule set_active_user_ok [OF default_name_valid]) (use assms(2) in \<open>simp_all add: working_def\<close>)
  have active: "installation U (io_debug F) (g\<lparr>mu_active := Some (Some ''default'')\<rparr>)"
    if "installation U (io_debug F) g" for g
    using installation_step [OF that step_set [OF refl, where U = U and fs = g and u = "''default''"]] set
    by simp
  show thesis
  proof (cases "user_exists F fs ''default''")
    case True
    then show thesis
      using that [OF _ active [OF assms(1)]] None
      by (simp add: active_or_default_user_def save_target_def set)
  next
    case False
    obtain fs' e where c: "create_user F ''default'' fs = (Inr (), fs')"
      and other: "\<And>n. n \<noteq> ''default'' \<Longrightarrow> entry_of fs' n = entry_of fs n"
      by (rule create_user_ok [OF installation_well_typed [OF assms(1)] default_name_valid assms(2)]) blast
    have "installation U (io_debug F) fs'"
      using installation_step [OF assms(1) step_create [OF refl, where U = U and fs = fs and u = "''default''"]] c
      by simp
    then show thesis
      using that [OF _ active] None False other
      by (simp add: active_or_default_user_def save_target_def set c)
  qed
qed

lemma active_ready:
  assumes "installation U (io_debug F) fs" and "working F"
    and "entry_of fs u = Some e" and "ue_secret e" and "mu_active fs = Some (Some u)"
  shows "active_username (evaluate_state F U fs) = Some u"
proof -
  have typed: "well_typed (io_debug F) fs" by (rule installation_well_typed [OF assms(1)])
  have fails: "io_fails F ReadDir = None" using assms(2) by (simp add: working_def)
  have "user_has_identity F fs u" using assms(3,4) by (simp add: well_typed_identity [OF typed])
  moreover have "u \<in> set (list_users F fs)"
    using list_users_set [OF _ fails] typed assms(3) by (auto simp: well_typed_def entry_typed_def)
  ultimately show ?thesis
    using assms(5) by (simp add: evaluate_state_active well_typed_pointer_read [OF typed])
qed

text \<open>Saving an identity on an installation that any run has left behind succeeds once I/O
  works and the secret can be sealed, makes the installation ready with the user who was active,
  or with \<open>default\<close> when nobody was, and touches no other user. If the secret cannot be sealed it
  fails and no user has gained or lost an identity.\<close>

theorem save_identity_makes_ready:
  assumes "installation U (io_debug F) fs" and "working F" and "save_identity F U sealed (Inr ()) fs = (r, fs')"
  shows "installation U (io_debug F) fs'
    \<and> (\<forall>v. v \<noteq> save_target U fs \<longrightarrow> entry_of fs' v = entry_of fs v)
    \<and> (sealed = Inr () \<longrightarrow> r = Inr () \<and> identity_exists F U fs' \<and> is_ready (evaluate_state F U fs')
         \<and> active_username (evaluate_state F U fs') = Some (save_target U fs))
    \<and> (\<forall>e. sealed = Inl e \<longrightarrow> r = Inl (from_passkey_error e))"
proof -
  let ?u = "save_target U fs"
  obtain fs1 where a: "active_or_default_user F U fs = (Inr ?u, fs1)"
    and i1: "installation U (io_debug F) fs1" and p1: "mu_active fs1 = Some (Some ?u)"
    and o1: "\<And>n. n \<noteq> ?u \<Longrightarrow> entry_of fs1 n = entry_of fs n"
    by (rule active_or_default_user_ok [OF assms(1,2)]) blast
  have typed: "well_typed (io_debug F) fs1" by (rule installation_well_typed [OF i1])
  have valid: "validate_user_dir_name (io_debug F) ?u = Inr ()"
    using typed p1 by (simp add: well_typed_def pointer_typed_def)
  have ok: "checked_user_dir F fs1 ?u = Inr ()"
    using typed valid by (auto simp: checked_user_dir_eq_Inr well_typed_def entry_typed_def)
  have e: "entry_typed (io_debug F) ?u (case entry_of fs1 ?u of None \<Rightarrow> empty_dir | Some e \<Rightarrow> e)"
    by (rule well_typed_entry [OF typed ok refl])
  show ?thesis
  proof (cases sealed)
    case (Inl err)
    then have "save_identity_entry F sealed (Inr ()) ?u fs1 = (Inl err, fs1)"
      by (simp add: save_identity_entry_def ok)
    then show ?thesis
      using assms(3) a i1 o1 Inl by (auto simp: save_identity_def)
  next
    case (Inr x)
    obtain fs2 e2 where s: "save_identity_entry F (Inr ()) (Inr ()) ?u fs1 = (Inr (), fs2)"
      and e2: "entry_of fs2 ?u = Some e2" "ue_secret e2"
      and o2: "\<And>n. n \<noteq> ?u \<Longrightarrow> entry_of fs2 n = entry_of fs1 n"
      by (rule save_identity_ok [OF typed valid assms(2)]) blast
    have i2: "installation U (io_debug F) fs2"
      using installation_step [OF i1 step_save [OF refl, where U = U and fs = fs1 and u = ?u
            and sealed = "Inr ()" and later = "Inr ()"]] s by simp
    have "mu_active fs2 = mu_active fs1"
      using s e ok assms(2)
      by (auto simp: save_identity_entry_def working_def io_guard_def Let_def entry_typed_def)
    then have active: "active_username (evaluate_state F U fs2) = Some ?u"
      using active_ready [OF i2 assms(2) e2] p1 by simp
    have "identity_exists F U fs2"
      using active by (cases "evaluate_state F U fs2") (simp_all add: identity_exists_def)
    then show ?thesis
      using assms(3) a s i2 o1 o2 active Inr by (auto simp: save_identity_def ready_iff_active)
  qed
qed

theorem save_identity_makes_ready_witness:
  "is_ready (evaluate_state demo_io demo_unicode
     (snd (save_identity demo_io demo_unicode (Inr ()) (Inr ()) empty_installation)))"
proof -
  obtain r fs' where run: "save_identity demo_io demo_unicode (Inr ()) (Inr ()) empty_installation = (r, fs')"
    by (rule prod.exhaust)
  have "working demo_io" by (simp add: working_def demo_io_def)
  from save_identity_makes_ready [OF installation_empty this run] show ?thesis by (simp add: run)
qed

text \<open>The default engine is that of the active user's identity, and only of one that can decrypt.\<close>

lemma default_engine_is_active:
  "engine_from_default_identity h drawn G F disp c U fs t s = (Inr (Inr E), s') \<Longrightarrow>
     \<exists>u i. get_active_user U fs = Some u \<and> load_user h drawn G F disp c u t s = (Inr (Inr i), s')
       \<and> has_encryption_key i \<and> E = \<lparr>en_identity = i, en_key_version = None\<rparr>"
  by (auto simp: engine_from_default_identity_def load_active_def pgp_engine_new_def try_bind_eq_Inr
      map_err_eq_Inr split: sum.splits prod.splits option.splits if_splits)

section \<open>Where the paths of the active user lie\<close>

text \<open>Whatever the pointer file holds, the identity directory is that of a valid user or the
  legacy one.\<close>

lemma active_identity_dir_contained:
  "active_identity_dir U c fs = config_dir (up_platform c) (up_config c) @ [Normal ''identity'']
   \<or> (\<exists>u. validate_user_dir_name (up_debug c) u = Inr ()
        \<and> active_identity_dir U c fs
            = users_dir (up_platform c) (up_config c) @ [Normal u, Normal ''identity''])"
proof -
  have "path_join base ''identity'' = base @ [Normal ''identity'']" for base
    by (rule plain_join) simp_all
  then show ?thesis
    by (auto simp: active_identity_dir_def Let_def identity_dir_checked_def checked_identity_dir_eq_Inr
        config_checked_user_dir_eq_Inr split: option.split sum.split)
qed

text \<open>The other paths are those of a valid user too, on every installation the operations leave
  behind; but they trust the pointer file, so one that was edited leads out of \<open>users/\<close>.\<close>

lemma active_data_path_contained:
  assumes "well_typed (io_debug F) fs" and "CHR ''/'' \<notin> set sub" and "sub \<notin> {[], ''.'', ''..''}"
  shows "active_data_path F U c fs sub = config_dir (up_platform c) (up_config c) @ [Normal sub]
   \<or> (\<exists>u. validate_user_dir_name (io_debug F) u = Inr ()
        \<and> active_data_path F U c fs sub = users_dir (up_platform c) (up_config c) @ [Normal u, Normal sub])"
proof -
  have sub: "path_join base sub = base @ [Normal sub]" for base
    by (rule plain_join) (use assms in auto)
  have below: "path_join (user_dir (up_platform c) (up_config c) u) sub
      = users_dir (up_platform c) (up_config c) @ [Normal u, Normal sub]"
    if "validate_user_dir_name (io_debug F) u = Inr ()" for u
    by (simp add: sub user_dir_def plain_components [OF that])
  have pointer: "validate_user_dir_name (io_debug F) u = Inr ()" if "get_active_user U fs = Some u" for u
    using assms(1) that by (simp add: well_typed_pointer_read [OF assms(1)] well_typed_def pointer_typed_def)
  have listed: "validate_user_dir_name (io_debug F) n = Inr ()"
    if "find p (entries fs) = Some (n, e)" for p n e
  proof -
    have "(n, e) \<in> set (entries fs)" using that by (auto simp: find_Some_iff in_set_conv_nth)
    then have "entry_of fs n = Some e"
      using assms(1) by (simp add: well_typed_def names_distinct_def entry_of_def)
    then show ?thesis using assms(1) by (simp add: well_typed_def entry_typed_def)
  qed
  show ?thesis
    using below pointer listed
    by (auto simp: active_data_path_def Let_def sub split: option.split prod.split if_splits)
qed

lemma edited_pointer_escapes:
  assumes "get_active_user U fs = Some ''../..''"
  shows "keyring_dir F U c fs
      = users_dir (up_platform c) (up_config c) @ [ParentDir, ParentDir, Normal ''keyring'']"
    and "active_identity_dir U c fs = config_dir (up_platform c) (up_config c) @ [Normal ''identity'']"
proof -
  have k: "path_join base ''keyring'' = base @ [Normal ''keyring'']"
    and i: "path_join base ''identity'' = base @ [Normal ''identity'']" for base
    by (rule plain_join; simp)+
  have "path_join base ''../..'' = base @ [ParentDir, ParentDir]" for base
    by (simp add: path_join_def added_components_def path_component_def)
  then show "keyring_dir F U c fs
      = users_dir (up_platform c) (up_config c) @ [ParentDir, ParentDir, Normal ''keyring'']"
    using assms by (simp add: keyring_dir_def active_data_path_def user_dir_def k)
  have "validate_user_dir_name debug ''../..'' \<noteq> Inr ()" for debug
    by (simp add: validate_user_dir_name_def RESERVED_USER_DIR_NAMES_def validate_username_eq_Inr
        is_ascii_alphanumeric_def code_of_def)
  then show "active_identity_dir U c fs = config_dir (up_platform c) (up_config c) @ [Normal ''identity'']"
    using assms
    by (auto simp: active_identity_dir_def Let_def identity_dir_checked_def checked_identity_dir_eq_Inr
        config_checked_user_dir_eq_Inr i split: sum.split)
qed

end
