(* ===== verification/Auth_Tokens.thy ===== *)
theory Auth_Tokens
  imports Passkey_Config Auth_Challenge Grant_Laws
begin

text \<open>
  The server's side of a sign-in: \<open>passkey-core/src/auth/verification.rs\<close>, the verification of
  a detached signature over a challenge, and \<open>jwt.rs\<close>, the tokens handed out afterwards.

  The encoder and decoder of \<open>jsonwebtoken\<close>, base64, \<open>serde_json\<close>, SHA-256 and the arithmetic of
  \<open>chrono\<close> (\<open>jt_after now secs\<close>, which panics out of range) are the parameter \<open>jwt\<close>; the clock and the
  random bytes are arguments. A user id is the text it prints as.
\<close>

section \<open>Detached signatures\<close>

definition verify_detached_signature_with_cert ::
    "sequoia \<Rightarrow> bytes \<Rightarrow> bytes \<Rightarrow> bytes \<Rightarrow> bool PasskeyResult" where
  "verify_detached_signature_with_cert X cert dat signature =
     (if \<not> verifier_builds X cert signature then Inl InvalidSignature
      else Inr (case structure_of X cert signature dat of
                  None \<Rightarrow> False
                | Some structure \<Rightarrow> verify_check structure = Inr ()))"

definition verify_detached_signature ::
    "sequoia \<Rightarrow> string \<Rightarrow> bytes \<Rightarrow> bytes \<Rightarrow> bool PasskeyResult" where
  "verify_detached_signature X public_key_pem dat signature =
     try_bind (map_err (\<lambda>e. InvalidPublicKey (''Failed to parse public key: '' @ e))
                 (parse_cert X (as_bytes public_key_pem))) (\<lambda>cert.
     verify_detached_signature_with_cert X cert dat signature)"

definition parse_signature_base64 :: "sequoia \<Rightarrow> string \<Rightarrow> bytes PasskeyResult" where
  "parse_signature_base64 X encoded = map_err (\<lambda>e. InvalidSignature) (b64_decode X encoded)"

definition parse_signature_hex :: "string \<Rightarrow> bytes PasskeyResult" where
  "parse_signature_hex encoded = ok_or InvalidSignature (hex_decode encoded)"

section \<open>Tokens\<close>

record Claims =
  cl_sub :: string
  cl_email :: string
  cl_iat :: int
  cl_exp :: int

record TokenPair =
  tp_access_token :: string
  tp_refresh_token :: string
  tp_expires_in :: int

datatype jwt_error = ExpiredSignature | OtherJwtError string

record jwt =
  jt_encode :: "bytes \<Rightarrow> Claims \<Rightarrow> string + string"
  jt_decode :: "bytes \<Rightarrow> int \<Rightarrow> string \<Rightarrow> jwt_error + Claims"
  jt_b64url_encode :: "bytes \<Rightarrow> string"
  jt_b64url_decode :: "string \<Rightarrow> bytes option"
  jt_claims_from_slice :: "bytes \<Rightarrow> Claims option"
  jt_sha256 :: "bytes \<Rightarrow> bytes"
  jt_after :: "int \<Rightarrow> int \<Rightarrow> panic + int"

definition generate_access_token ::
    "jwt \<Rightarrow> int \<Rightarrow> string \<Rightarrow> string \<Rightarrow> JwtConfig \<Rightarrow> panic + string PasskeyResult" where
  "generate_access_token J now user_id email config =
     try_bind (jt_after J now (jw_access_token_expiry_secs config)) (\<lambda>expiry.
       Inr (map_err (\<lambda>e. PasskeyError.Other (''Failed to generate token: '' @ e))
              (jt_encode J (as_bytes (jw_secret config))
                 \<lparr>cl_sub = user_id, cl_email = email, cl_iat = now, cl_exp = expiry\<rparr>)))"

definition generate_refresh_token :: "jwt \<Rightarrow> bytes \<Rightarrow> string" where
  "generate_refresh_token J drawn = jt_b64url_encode J drawn"

definition hash_refresh_token :: "jwt \<Rightarrow> string \<Rightarrow> string" where
  "hash_refresh_token J token = hex_encode (jt_sha256 J (as_bytes token))"

definition validate_access_token :: "jwt \<Rightarrow> int \<Rightarrow> string \<Rightarrow> JwtConfig \<Rightarrow> Claims PasskeyResult" where
  "validate_access_token J now token config =
     map_err (\<lambda>e. case e of ExpiredSignature \<Rightarrow> TokenExpired | _ \<Rightarrow> InvalidToken)
       (jt_decode J (as_bytes (jw_secret config)) now token)"

definition generate_token_pair ::
    "jwt \<Rightarrow> int \<Rightarrow> bytes \<Rightarrow> string \<Rightarrow> string \<Rightarrow> JwtConfig \<Rightarrow> panic + TokenPair PasskeyResult" where
  "generate_token_pair J now drawn user_id email config =
     try_bind (generate_access_token J now user_id email config) (\<lambda>r.
       Inr (try_bind r (\<lambda>access_token.
         Inr \<lparr>tp_access_token = access_token, tp_refresh_token = generate_refresh_token J drawn,
               tp_expires_in = jw_access_token_expiry_secs config\<rparr>)))"

definition decode_token_parts :: "jwt \<Rightarrow> string \<Rightarrow> Claims option" where
  "decode_token_parts J token =
     (let parts = split_on (CHR ''.'') token
      in if length parts \<noteq> 3 then None
         else Option.bind (jt_b64url_decode J (parts ! 1)) (jt_claims_from_slice J))"

definition is_token_expired :: "jwt \<Rightarrow> int \<Rightarrow> string \<Rightarrow> bool" where
  "is_token_expired J now token =
     (case decode_token_parts J token of
        Some claims \<Rightarrow> cl_exp claims < now
      | None \<Rightarrow> True)"

definition extract_subject_unsafe :: "jwt \<Rightarrow> string \<Rightarrow> string option" where
  "extract_subject_unsafe J token = map_option cl_sub (decode_token_parts J token)"

section \<open>Answering a challenge\<close>

lemma verifiers_agree:
  "verify_detached_signature X A m s = Inr True \<longleftrightarrow> verify_detached X A m s = Inr True"
  by (auto simp: verify_detached_signature_def verify_detached_signature_with_cert_def
      verify_detached_def try_bind_eq_Inr split: option.splits)

text \<open>What the two verifiers say when they do not accept differs: a signature no verifier can be built
  for is an error here and \<open>Ok(false)\<close> in \<open>broadcast.rs\<close>.\<close>

lemma unbuildable_signature:
  assumes "parse_cert X (as_bytes A) = Inr c" and "\<not> verifier_builds X c s"
  shows "verify_detached_signature X A m s = Inl InvalidSignature \<and> verify_detached X A m s = Inr False"
  using assms by (simp add: verify_detached_signature_def verify_detached_signature_with_cert_def
      verify_detached_def)

text \<open>C40: The answer an identity gives to a challenge authenticates exactly that challenge: it
  verifies under the identity's certificate for the purpose and nonce that were asked; and if the
  key verifies only challenges it answered and messages that are no challenge payload, then
  whatever signature the server accepts for a purpose and a nonce, that purpose and nonce were
  answered, so a login never stands for a registration, nor one nonce for another.\<close>

theorem challenge_response:
  assumes "signs_for X E A"
    and "\<forall>m s. verify_detached_signature X A m s = Inr True \<longrightarrow>
           (\<exists>(p, n) \<in> answered. challenge_signing_payload p n = Inr m)
           \<or> (\<forall>p n. challenge_signing_payload p n \<noteq> Inr m)"
  shows "(sign_auth_challenge X E p n = Inr s \<longrightarrow>
           (\<exists>m. challenge_signing_payload p n = Inr m \<and> verify_detached_signature X A m s = Inr True))
    \<and> (challenge_signing_payload q k = Inr m \<and> verify_detached_signature X A m s' = Inr True \<longrightarrow>
           (q, k) \<in> answered)"
proof (intro conjI impI)
  assume "sign_auth_challenge X E p n = Inr s"
  then obtain m where "challenge_signing_payload p n = Inr m" and "sign_data X E m = Inr s"
    by (auto simp: sign_auth_challenge_def try_bind_eq_Inr)
  with sign_data_verifies [OF assms(1)] show
    "\<exists>m. challenge_signing_payload p n = Inr m \<and> verify_detached_signature X A m s = Inr True"
    by (auto simp: verifiers_agree)
next
  assume acc: "challenge_signing_payload q k = Inr m \<and> verify_detached_signature X A m s' = Inr True"
  with assms(2) obtain q' k' where "(q', k') \<in> answered" "challenge_signing_payload q' k' = Inr m" by blast
  with acc show "(q, k) \<in> answered"
    by (auto simp: challenge_signing_payload_eq challenge_canonical_inject split: if_splits)
qed

theorem challenge_response_witness:
  "\<exists>X E s m. sign_auth_challenge X E Login (generate_challenge (replicate 32 7)) = Inr s
     \<and> challenge_signing_payload Login (generate_challenge (replicate 32 7)) = Inr m
     \<and> verify_detached_signature X ''cert'' m s = Inr True"
proof -
  let ?n = "generate_challenge (replicate 32 7)"
  let ?m = "challenge_canonical Login ?n"
  let ?X = "demo_pgp\<lparr>structure_of := \<lambda>c s m. Some [SignatureGroup [s = 1 # c @ m \<and> m = ?m]],
      detached_sign := \<lambda>h m. if m = ?m then Inr (1 # as_bytes ''cert'' @ m) else Inl (WriteAll, '''')\<rparr>"
  let ?E = "demo_engine [demo_subkey False]"
  have pay: "challenge_signing_payload Login ?n = Inr ?m"
    by (simp add: challenge_signing_payload_eq generate_challenge_well_formed)
  have signs: "signs_for ?X ?E ''cert''" by (simp add: signs_for_def demo_pgp_def)
  have only: "\<forall>m s. verify_detached_signature ?X ''cert'' m s = Inr True \<longrightarrow>
      (\<exists>(p, n) \<in> {(Login, ?n)}. challenge_signing_payload p n = Inr m)
      \<or> (\<forall>p n. challenge_signing_payload p n \<noteq> Inr m)"
    using pay by (auto simp: verify_detached_signature_def verify_detached_signature_with_cert_def
        demo_pgp_def split: if_splits)
  obtain s where s: "sign_auth_challenge ?X ?E Login ?n = Inr s"
    by (simp add: sign_auth_challenge_def pay sign_data_def demo_pgp_def demo_engine_def demo_subkey_def
        live_secret_def)
  from challenge_response [OF signs only, of Login ?n s] s pay
  have "verify_detached_signature ?X ''cert'' ?m s = Inr True" by simp
  with s pay show ?thesis by blast
qed

section \<open>The life of an access token\<close>

text \<open>Documented behaviour of the third-party parts: a compact token is three parts, the second one
  the claims; a token decodes under its secret until its expiry and the default leeway of a
  minute have passed; the clock adds where it stays in range.\<close>

definition compact_token :: "jwt \<Rightarrow> Claims \<Rightarrow> string \<Rightarrow> bool" where
  "compact_token J c tok \<longleftrightarrow>
     (\<exists>h p g b. tok = join ''.'' [h, p, g] \<and> CHR ''.'' \<notin> set h \<and> CHR ''.'' \<notin> set p \<and> CHR ''.'' \<notin> set g
        \<and> jt_b64url_decode J p = Some b \<and> jt_claims_from_slice J b = Some c)"

definition decodes_until :: "jwt \<Rightarrow> bytes \<Rightarrow> Claims \<Rightarrow> string \<Rightarrow> bool" where
  "decodes_until J k c tok \<longleftrightarrow>
     (\<forall>now. jt_decode J k now tok = (if cl_exp c < now - 60 then Inl ExpiredSignature else Inr c))"

definition jwt_ok :: "jwt \<Rightarrow> bool" where
  "jwt_ok J \<longleftrightarrow>
     (\<forall>k c tok. jt_encode J k c = Inr tok \<longrightarrow>
        compact_token J c tok \<and> (0 \<le> cl_exp c \<longrightarrow> decodes_until J k c tok))
     \<and> (\<forall>now secs x. jt_after J now secs = Inr x \<longrightarrow> x = now + secs)"

lemma compact_token_parts: "compact_token J c tok \<Longrightarrow> decode_token_parts J tok = Some c"
proof -
  assume "compact_token J c tok"
  then obtain h p g b where tok: "tok = join ''.'' [h, p, g]"
    and dots: "CHR ''.'' \<notin> set h" "CHR ''.'' \<notin> set p" "CHR ''.'' \<notin> set g"
    and b: "jt_b64url_decode J p = Some b" "jt_claims_from_slice J b = Some c"
    by (auto simp: compact_token_def)
  have "split_on (CHR ''.'') tok = [h, p, g]"
    unfolding tok by (rule split_on_join) (use dots in auto)
  then show "decode_token_parts J tok = Some c" by (simp add: decode_token_parts_def b)
qed

text \<open>A token says what it was made for: at any later time it validates with the user, the
  address and the two times it was issued with until a minute after its expiry, and is then
  refused as expired; the unverified check calls it expired from the first second past the expiry,
  a minute before the server does.\<close>

theorem token_lifetime:
  assumes "jwt_ok J" and "generate_token_pair J t0 drawn uid email c = Inr (Inr p)"
    and "0 \<le> t0 + jw_access_token_expiry_secs c"
  shows "validate_access_token J t (tp_access_token p) c =
       (if t0 + tp_expires_in p + 60 < t then Inl TokenExpired
        else Inr \<lparr>cl_sub = uid, cl_email = email, cl_iat = t0, cl_exp = t0 + tp_expires_in p\<rparr>)
    \<and> is_token_expired J t (tp_access_token p) = (t0 + tp_expires_in p < t)
    \<and> extract_subject_unsafe J (tp_access_token p) = Some uid"
proof -
  let ?c = "\<lparr>cl_sub = uid, cl_email = email, cl_iat = t0, cl_exp = t0 + jw_access_token_expiry_secs c\<rparr>"
  have after: "jt_after J t0 s = Inr x \<Longrightarrow> x = t0 + s" for s x
    using assms(1) by (simp add: jwt_ok_def)
  have enc: "jt_encode J (as_bytes (jw_secret c)) ?c = Inr (tp_access_token p)"
    and exp: "tp_expires_in p = jw_access_token_expiry_secs c"
    using assms(2)
    by (auto simp: generate_token_pair_def generate_access_token_def try_bind_eq_Inr dest: after)
  have "compact_token J ?c (tp_access_token p)"
    and dec: "decodes_until J (as_bytes (jw_secret c)) ?c (tp_access_token p)"
    using assms(1,3) enc by (simp_all add: jwt_ok_def)
  note parts = compact_token_parts [OF this(1)]
  show ?thesis
    using dec exp
    by (simp add: decodes_until_def validate_access_token_def is_token_expired_def
        extract_subject_unsafe_def parts)
qed

definition demo_claims :: Claims where
  "demo_claims = \<lparr>cl_sub = ''u'', cl_email = ''e'', cl_iat = 100, cl_exp = 3700\<rparr>"

definition demo_jwt :: jwt where
  "demo_jwt = \<lparr>jt_encode = (\<lambda>k c. if c = demo_claims then Inr ''h.c.s'' else Inl ''''),
     jt_decode = (\<lambda>k now tok. if cl_exp demo_claims < now - 60 then Inl ExpiredSignature else Inr demo_claims),
     jt_b64url_encode = hex_encode, jt_b64url_decode = (\<lambda>s. Some []),
     jt_claims_from_slice = (\<lambda>b. Some demo_claims), jt_sha256 = (\<lambda>b. b),
     jt_after = (\<lambda>now secs. Inr (now + secs))\<rparr>"

theorem token_lifetime_witness:
  "is_token_expired demo_jwt 3701 ''h.c.s''
   \<and> validate_access_token demo_jwt 3701 ''h.c.s'' (jwt_config_with_secret ''k'') = Inr demo_claims
   \<and> validate_access_token demo_jwt 3761 ''h.c.s'' (jwt_config_with_secret ''k'') = Inl TokenExpired"
proof -
  have compact: "compact_token demo_jwt c tok" if "jt_encode demo_jwt k c = Inr tok" for k c tok
    unfolding compact_token_def
    by (rule exI [of _ "''h''"], rule exI [of _ "''c''"], rule exI [of _ "''s''"], rule exI [of _ "[]"])
       (use that in \<open>simp add: demo_jwt_def split: if_splits\<close>)
  have ok: "jwt_ok demo_jwt"
    by (simp add: jwt_ok_def compact decodes_until_def) (simp add: demo_jwt_def)
  let ?c = "jwt_config_with_secret ''k''"
  let ?p = "\<lparr>tp_access_token = ''h.c.s'', tp_refresh_token = [], tp_expires_in = 3600\<rparr>"
  have run: "generate_token_pair demo_jwt 100 [] ''u'' ''e'' ?c = Inr (Inr ?p)"
    by (simp add: generate_token_pair_def generate_access_token_def demo_jwt_def demo_claims_def
        jwt_config_with_secret_def generate_refresh_token_def hex_encode_def)
  have pos: "0 \<le> 100 + jw_access_token_expiry_secs ?c" by (simp add: jwt_config_with_secret_def)
  from token_lifetime [OF ok run pos, of 3701] token_lifetime [OF ok run pos, of 3761]
  show ?thesis by (simp add: demo_claims_def)
qed

end
