(* ===== verification/Keywrap_Race.thy ===== *)
theory Keywrap_Race
  imports Keywrap_Laws
begin

text \<open>
  Processes that resolve the local protection key at the same time (\<open>passkey-core/src/keywrap.rs\<close>).

  \<open>resolve_lpk\<close> is cut where another process can get in between: each access to the keyring and to
  the minted marker is a step of its own, and the keyring and the marker are shared. What the steps
  do without interruption is the function of \<open>Keywrap\<close>; what they do interleaved is proved from
  invariants, each an interpretation of the rule for interference-free assertions.
\<close>

section \<open>Interleaving\<close>

definition take_turn :: "('p \<times> 's \<Rightarrow> 'p \<times> 's) \<Rightarrow> nat \<Rightarrow> 'p list \<times> 's \<Rightarrow> 'p list \<times> 's" where
  "take_turn step i st =
     (case st of (ps, s) \<Rightarrow>
        if i < length ps then (case step (ps ! i, s) of (p, s') \<Rightarrow> (ps[i := p], s')) else (ps, s))"

text \<open>A schedule names the process that takes the next step.\<close>

fun interleave :: "('p \<times> 's \<Rightarrow> 'p \<times> 's) \<Rightarrow> nat list \<Rightarrow> 'p list \<times> 's \<Rightarrow> 'p list \<times> 's" where
  "interleave step [] st = st"
| "interleave step (i # sched) st = interleave step sched (take_turn step i st)"

lemma interleave_append: "interleave step (xs @ ys) st = interleave step ys (interleave step xs st)"
  by (induction xs arbitrary: st) simp_all

locale interference_free =
  fixes lawful :: "'c \<Rightarrow> bool"
    and step :: "'c \<Rightarrow> 'p \<times> 's \<Rightarrow> 'p \<times> 's"
    and shared_inv :: "'c \<Rightarrow> 's \<Rightarrow> bool"
    and own_inv :: "'c \<Rightarrow> 's \<Rightarrow> 'p \<Rightarrow> bool"
  assumes own: "lawful c \<Longrightarrow> shared_inv c s \<Longrightarrow> own_inv c s p \<Longrightarrow> step c (p, s) = (p', s') \<Longrightarrow>
      shared_inv c s' \<and> own_inv c s' p'"
    and others: "lawful c \<Longrightarrow> shared_inv c s \<Longrightarrow> own_inv c s p \<Longrightarrow> step c (p, s) = (p', s') \<Longrightarrow>
      own_inv c s q \<Longrightarrow> own_inv c s' q"
begin

lemma take_turn_keeps:
  assumes "lawful c" "shared_inv c s" "list_all (own_inv c s) ps" "take_turn (step c) i (ps, s) = (ps', s')"
  shows "shared_inv c s' \<and> list_all (own_inv c s') ps'"
proof (cases "i < length ps")
  case True
  obtain p t where st: "step c (ps ! i, s) = (p, t)" by (rule prod.exhaust)
  have i: "own_inv c s (ps ! i)" using assms(3) True by (simp add: list_all_length)
  have "ps' = ps[i := p]" "s' = t" using assms(4) True st by (simp_all add: take_turn_def)
  moreover have "shared_inv c t" "own_inv c t p" using own [OF assms(1,2) i st] by simp_all
  moreover have "\<forall>q\<in>set ps. own_inv c t q"
    using others [OF assms(1,2) i st] assms(3) by (auto simp: list_all_iff)
  ultimately show ?thesis using set_update_subset_insert [of ps i p] by (auto simp: list_all_iff)
qed (use assms in \<open>simp add: take_turn_def\<close>)

lemma interleave_keeps:
  assumes "lawful c" "shared_inv c s" "list_all (own_inv c s) ps" "interleave (step c) sched (ps, s) = (ps', s')"
  shows "shared_inv c s' \<and> list_all (own_inv c s') ps'"
  using assms(2-)
proof (induction sched arbitrary: ps s)
  case (Cons i sched)
  obtain ps1 s1 where t: "take_turn (step c) i (ps, s) = (ps1, s1)" by (rule prod.exhaust)
  from take_turn_keeps [OF assms(1) Cons.prems(1,2) t] Cons.prems(3) t Cons.IH [of s1 ps1]
  show ?case by simp
qed simp

end

text \<open>A process that is done after \<open>n\<close> steps is done after \<open>n\<close> turns, whatever the others do.\<close>

lemma take_turn_nth:
  assumes "take_turn step j (ps, s) = (ps', s')" and "i < length ps"
  shows "length ps' = length ps \<and> (ps' ! i = (if j = i then fst (step (ps ! i, s)) else ps ! i))"
  using assms by (auto simp: take_turn_def split: if_splits prod.splits)

lemma turns_finish:
  assumes "\<And>p s. rank (fst (step (p, s))) \<le> rank p - (1::nat)"
    and "interleave step sched (ps, s) = (ps', s')" and "i < length ps"
  shows "length ps' = length ps \<and> rank (ps' ! i) \<le> rank (ps ! i) - count_list sched i"
  using assms(2,3)
proof (induction sched arbitrary: ps s)
  case (Cons j sched)
  obtain ps1 s1 where t: "take_turn step j (ps, s) = (ps1, s1)" by (rule prod.exhaust)
  from take_turn_nth [OF t Cons.prems(2)] Cons.prems Cons.IH [of ps1 s1] t
  have "length ps' = length ps" "rank (ps' ! i) \<le> rank (ps1 ! i) - count_list sched i"
    and "rank (ps1 ! i) \<le> rank (ps ! i) - (if j = i then 1 else 0)"
    using assms(1) [of "ps ! i" s] by auto
  then show ?case by auto
qed simp

section \<open>The steps of \<open>resolve_lpk\<close>\<close>

datatype phase =
    Getting LpkMode bytes
  | Checking LpkMode bytes
  | Minting bytes
  | Rereading bytes
  | Backfilling bytes
  | Marking bytes
  | Resolved "bytes PasskeyResult"

text \<open>The shared state is the keyring and whether the marker exists.\<close>

fun resolve_step :: "'w lpk_host \<Rightarrow> phase \<times> 'w \<times> bool \<Rightarrow> phase \<times> 'w \<times> bool" where
  "resolve_step h (Getting mode drawn, w, m) =
     (case lpk_get h w of
        Inl e \<Rightarrow> (Resolved (Inl (CredentialStore (''LPK retrieval failed: '' @ e))), w, m)
      | Inr (Some b64) \<Rightarrow> (case lpk_decode h b64 of
            Inl e \<Rightarrow> (Resolved (Inl e), w, m)
          | Inr key \<Rightarrow> (Backfilling key, w, m))
      | Inr None \<Rightarrow>
          if mode = Open then (Resolved (Inl lpk_missing_on_open), w, m) else (Checking mode drawn, w, m))"
| "resolve_step h (Checking mode drawn, w, m) =
     (if mode = Seal \<and> m then (Resolved (Inl (lpk_missing_on_seal h)), w, m) else (Minting drawn, w, m))"
| "resolve_step h (Minting drawn, w, m) =
     (case lpk_set h (lh_b64_encode h drawn) w of
        (Inl e, w) \<Rightarrow> (Resolved (Inl (CredentialStore (''LPK persist failed: '' @ e))), w, m)
      | (Inr _, w) \<Rightarrow> (Rereading drawn, w, m))"
| "resolve_step h (Rereading drawn, w, m) =
     (case (case lpk_get h w of Inr (Some b64) \<Rightarrow> lpk_decode h b64 | _ \<Rightarrow> Inr drawn) of
        Inl e \<Rightarrow> (Resolved (Inl e), w, m)
      | Inr key \<Rightarrow> (Marking key, w, m))"
| "resolve_step h (Backfilling key, w, m) = (if m then Resolved (Inr key) else Marking key, w, m)"
| "resolve_step h (Marking key, w, m) = (Resolved (Inr key), w, m \<or> lh_marker_writable h)"
| "resolve_step h (Resolved r, w, m) = (Resolved r, w, m)"

text \<open>How many steps a phase still has to go.\<close>

fun phase_rank :: "phase \<Rightarrow> nat" where
  "phase_rank (Getting mode drawn) = 5"
| "phase_rank (Checking mode drawn) = 4"
| "phase_rank (Minting drawn) = 3"
| "phase_rank (Rereading drawn) = 2"
| "phase_rank (Backfilling key) = 2"
| "phase_rank (Marking key) = 1"
| "phase_rank (Resolved r) = 0"

lemma phase_rank_0: "phase_rank p = 0 \<longleftrightarrow> (\<exists>r. p = Resolved r)"
  by (cases p) simp_all

lemma phase_rank_step: "phase_rank (fst (resolve_step h (p, s))) \<le> phase_rank p - 1"
  by (cases p; cases s) (auto split: sum.split option.split prod.split)

section \<open>Uninterrupted, the steps are the function\<close>

lemma own_turns:
  "i < length ps \<Longrightarrow> interleave step (replicate n i) (ps, s)
     = (case (step ^^ n) (ps ! i, s) of (p, s') \<Rightarrow> (ps[i := p], s'))"
proof (induction n arbitrary: ps s)
  case (Suc n)
  obtain p t where "step (ps ! i, s) = (p, t)" by (rule prod.exhaust)
  with Suc show ?case
    by (simp add: take_turn_def funpow_swap1 split: prod.split)
qed simp

lemma resolve_steps:
  "(resolve_step h ^^ 5) (Getting mode drawn, ls_ring s, ls_marker s)
     = (case resolve_lpk h mode drawn s of (r, s') \<Rightarrow> (Resolved r, ls_ring s', ls_marker s'))"
  by (auto simp: eval_nat_numeral resolve_lpk_def mint_lpk_def write_minted_marker_def Let_def
      split: sum.split option.split prod.split)

text \<open>When nobody interrupts it, the process that resolves the local protection key in single
  accesses to keyring and marker does what \<open>resolve_lpk\<close> does in one go: it ends with the same
  key or error and leaves the same keyring and marker, among any number of other processes and
  in every mode.\<close>

theorem resolve_steps_refine_resolve:
  assumes "i < length ps" and "ps ! i = Getting mode drawn" and "resolve_lpk h mode drawn s = (r, s')"
  shows "interleave (resolve_step h) (replicate 5 i) (ps, ls_ring s, ls_marker s)
    = (ps[i := Resolved r], ls_ring s', ls_marker s')"
  unfolding own_turns [OF assms(1)] assms(2) resolve_steps assms(3) by simp

theorem resolve_steps_refine_resolve_witness:
  "interleave (resolve_step demo_host) (replicate 5 0) ([Getting Seal demo_key], None, False)
     = ([Resolved (Inr demo_key)], Some (hex_encode demo_key), True)"
proof -
  have "resolve_lpk demo_host Seal demo_key demo_first = (Inr demo_key, demo_minted\<lparr>ls_cache := None\<rparr>)"
    by (simp add: resolve_lpk_def mint_lpk_def lpk_get_def lpk_set_def lpk_decode_def write_minted_marker_def
        demo_host_def demo_first_def demo_minted_def)
       (simp add: demo_key_def)
  from resolve_steps_refine_resolve [OF _ _ this, of 0 "[Getting Seal demo_key]"]
  show ?thesis by (simp add: demo_first_def demo_minted_def)
qed

section \<open>A key that is there\<close>

fun agrees :: "bytes \<Rightarrow> phase \<Rightarrow> bool" where
  "agrees k (Getting mode drawn) \<longleftrightarrow> True"
| "agrees k (Checking mode drawn) \<longleftrightarrow> False"
| "agrees k (Minting drawn) \<longleftrightarrow> False"
| "agrees k (Rereading drawn) \<longleftrightarrow> True"
| "agrees k (Backfilling key) \<longleftrightarrow> key = k"
| "agrees k (Marking key) \<longleftrightarrow> key = k"
| "agrees k (Resolved r) \<longleftrightarrow> r = Inr k"

interpretation present: interference_free "\<lambda>_. True" "\<lambda>(h, k). resolve_step h"
  "\<lambda>(h, k) (w, m). ring_holds h w k" "\<lambda>(h, k) s. agrees k"
proof (unfold_locales, goal_cases)
  case (1 c s p p' s')
  obtain h k w m where "c = (h, k)" "s = (w, m)" by (metis prod.exhaust)
  with 1 show ?case by (cases p) (auto simp: ring_holds_def)
next
  case (2 c s p p' s' q)
  then show ?case by (auto split: prod.splits)
qed

section \<open>The first launch\<close>

definition drawn_key_there :: "'w lpk_host \<Rightarrow> bytes set \<Rightarrow> 'w \<Rightarrow> bool" where
  "drawn_key_there h D w \<longleftrightarrow> (\<exists>k\<in>D. ring_holds h w k)"

fun launching :: "'w lpk_host \<Rightarrow> bytes set \<Rightarrow> 'w \<times> bool \<Rightarrow> phase \<Rightarrow> bool" where
  "launching h D (w, m) (Getting mode drawn) \<longleftrightarrow> drawn \<in> D"
| "launching h D (w, m) (Checking mode drawn) \<longleftrightarrow> drawn \<in> D"
| "launching h D (w, m) (Minting drawn) \<longleftrightarrow> drawn \<in> D"
| "launching h D (w, m) (Rereading drawn) \<longleftrightarrow> drawn_key_there h D w"
| "launching h D (w, m) (Backfilling key) \<longleftrightarrow> key \<in> D \<and> drawn_key_there h D w"
| "launching h D (w, m) (Marking key) \<longleftrightarrow> key \<in> D \<and> drawn_key_there h D w"
| "launching h D (w, m) (Resolved r) \<longleftrightarrow>
     (case r of
        Inr key \<Rightarrow> key \<in> D \<and> drawn_key_there h D w
      | Inl e \<Rightarrow> e = lpk_missing_on_open \<or> (\<exists>x. e = CredentialStore (''LPK persist failed: '' @ x))
          \<or> e = lpk_missing_on_seal h \<and> m)"

text \<open>A write that fails keeps what is read.\<close>

definition failed_set_keeps :: "'w lpk_host \<Rightarrow> bool" where
  "failed_set_keeps h \<longleftrightarrow> (\<forall>b w e w'. lpk_set h b w = (Inl e, w') \<longrightarrow> lpk_get h w' = lpk_get h w)"

definition empty_or_drawn :: "'w lpk_host \<Rightarrow> bytes set \<Rightarrow> 'w \<times> bool \<Rightarrow> bool" where
  "empty_or_drawn h D s \<longleftrightarrow> lpk_get h (fst s) = Inr None \<or> drawn_key_there h D (fst s)"

lemma set_holds:
  assumes "host_ok h" and "length d = 32" and "lpk_set h (lh_b64_encode h d) w = (Inr u, w')"
  shows "ring_holds h w' d"
  using keyring.get_put [OF assms(1)] assms(3) lpk_decode_encode [OF assms(1,2)]
  by (auto simp: ring_holds_def)

lemma launching_step:
  assumes "host_ok h" "failed_set_keeps h" "\<forall>d\<in>D. length d = 32"
    and "empty_or_drawn h D (w, m)" "launching h D (w, m) p" "resolve_step h (p, w, m) = (p', w', m')"
  shows "empty_or_drawn h D (w', m') \<and> launching h D (w', m') p'
    \<and> (drawn_key_there h D w \<longrightarrow> drawn_key_there h D w') \<and> (m \<longrightarrow> m')"
proof (cases "\<exists>d. p = Minting d")
  case False
  then show ?thesis
    using assms(4-6)
    by (cases p) (auto simp: empty_or_drawn_def drawn_key_there_def ring_holds_def
        split: sum.splits option.splits if_splits)
next
  case True
  then obtain d where p: "p = Minting d" ..
  show ?thesis
  proof (cases "lpk_set h (lh_b64_encode h d) w")
    case (Pair r u)
    show ?thesis
    proof (cases r)
      case (Inl e)
      then have "lpk_get h u = lpk_get h w" using assms(2) Pair by (simp add: failed_set_keeps_def)
      then show ?thesis
        using Inl Pair p assms(4-6) by (auto simp: empty_or_drawn_def drawn_key_there_def ring_holds_def)
    next
      case (Inr x)
      then have "drawn_key_there h D u"
        using set_holds [OF assms(1) _ Pair [unfolded Inr]] assms(3,5) p by (auto simp: drawn_key_there_def)
      then show ?thesis using Inr Pair p assms(6) by (auto simp: empty_or_drawn_def)
    qed
  qed
qed

lemma launching_mono:
  assumes "launching h D (w, m) q" and "drawn_key_there h D w \<longrightarrow> drawn_key_there h D w'" and "m \<longrightarrow> m'"
  shows "launching h D (w', m') q"
  using assms by (cases q) (auto split: sum.splits)

interpretation launch: interference_free
  "\<lambda>(h, D). host_ok h \<and> failed_set_keeps h \<and> (\<forall>d\<in>D. length d = 32)" "\<lambda>(h, D). resolve_step h"
  "\<lambda>(h, D). empty_or_drawn h D" "\<lambda>(h, D). launching h D"
proof (unfold_locales, goal_cases)
  case (1 c s p p' s')
  obtain h D w m w' m' where "c = (h, D)" "s = (w, m)" "s' = (w', m')" by (metis prod.exhaust)
  with 1 launching_step [of h D w m p p' w' m'] show ?case by auto
next
  case (2 c s p p' s' q)
  obtain h D w m w' m' where "c = (h, D)" "s = (w, m)" "s' = (w', m')" by (metis prod.exhaust)
  with 2 launching_step [of h D w m p p' w' m'] launching_mono [of h D w m q w' m'] show ?case by auto
qed

section \<open>What a race can and cannot do\<close>

definition starting :: "(LpkMode \<times> bytes) list \<Rightarrow> phase list" where
  "starting starts = map (\<lambda>(mode, drawn). Getting mode drawn) starts"

lemma race_present:
  assumes "list_all (agrees k) ps" "ring_holds h w k"
    and "interleave (resolve_step h) sched (ps, w, m) = (ps', w', m')"
  shows "ring_holds h w' k \<and> list_all (agrees k) ps'"
  using present.interleave_keeps [of "(h, k)" "(w, m)" ps sched ps' "(w', m')"] assms by simp

lemma race_launch:
  assumes "host_ok h" "failed_set_keeps h" "\<forall>d\<in>snd ` set starts. length d = 32" "lpk_get h w = Inr None"
    and "interleave (resolve_step h) sched (starting starts, w, m) = (ps', w', m')"
  shows "empty_or_drawn h (snd ` set starts) (w', m') \<and> list_all (launching h (snd ` set starts) (w', m')) ps'"
  using launch.interleave_keeps [of "(h, snd ` set starts)" "(w, m)" "starting starts" sched ps' "(w', m')"] assms
  by (force simp: empty_or_drawn_def starting_def list_all_iff)

lemma race_converges:
  assumes "host_ok h" "failed_set_keeps h" "\<forall>d\<in>snd ` set starts. length d = 32" "lpk_get h w = Inr None"
    and "interleave (resolve_step h) xs (starting starts, w, m) = (ps1, w1, m1)"
    and "ps1 \<noteq> []" "\<forall>p\<in>set ps1. \<exists>d. p = Rereading d"
    and "interleave (resolve_step h) ys (ps1, w1, m1) = (ps', w', m')"
  shows "\<exists>k. ring_holds h w' k \<and> (\<forall>r. Resolved r \<in> set ps' \<longrightarrow> r = Inr k)"
proof -
  from assms(6,7) obtain d where d: "Rereading d \<in> set ps1" by (cases ps1) auto
  have "list_all (launching h (snd ` set starts) (w1, m1)) ps1" using race_launch [OF assms(1-5)] by blast
  with d have "drawn_key_there h (snd ` set starts) w1" by (force simp: list_all_iff)
  then obtain k where k: "ring_holds h w1 k" by (auto simp: drawn_key_there_def)
  have "list_all (agrees k) ps1" using assms(7) by (force simp: list_all_iff)
  from race_present [OF this k assms(8)] show ?thesis
    by (intro exI [of _ k]) (force simp: list_all_iff)
qed

text \<open>C12: Any number of processes resolve the local protection key at once, in any modes and
  in any interleaving of their accesses. If the keyring holds a key, it keeps it and everyone who
  is done has that key. If it holds none, everyone who gets a key gets one that was drawn, and
  such a key is in the keyring; an error is a report of a missing key or a write that failed; and
  where all have written before the first reads again, everyone gets the key that is in the
  keyring. Each is done after five steps of its own.\<close>

theorem concurrent_resolution:
  assumes "host_ok h" and "failed_set_keeps h" and "\<forall>d\<in>snd ` set starts. length d = 32"
    and "interleave (resolve_step h) (xs @ ys) (starting starts, w, m) = (ps', w', m')"
  shows "(\<forall>k. ring_holds h w k \<longrightarrow> ring_holds h w' k \<and> (\<forall>r. Resolved r \<in> set ps' \<longrightarrow> r = Inr k))
    \<and> (lpk_get h w = Inr None \<longrightarrow>
        (\<forall>k. Resolved (Inr k) \<in> set ps' \<longrightarrow> k \<in> snd ` set starts \<and> (\<exists>k'\<in>snd ` set starts. ring_holds h w' k'))
      \<and> (\<forall>e. Resolved (Inl e) \<in> set ps' \<longrightarrow> e = lpk_missing_on_open \<or> e = lpk_missing_on_seal h \<and> m'
            \<or> (\<exists>x. e = CredentialStore (''LPK persist failed: '' @ x)))
      \<and> (\<forall>ps1 w1 m1. interleave (resolve_step h) xs (starting starts, w, m) = (ps1, w1, m1)
            \<longrightarrow> ps1 \<noteq> [] \<longrightarrow> (\<forall>p\<in>set ps1. \<exists>d. p = Rereading d)
            \<longrightarrow> (\<exists>k. ring_holds h w' k \<and> (\<forall>r. Resolved r \<in> set ps' \<longrightarrow> r = Inr k))))
    \<and> (\<forall>i < length starts. 5 \<le> count_list (xs @ ys) i \<longrightarrow> (\<exists>r. ps' ! i = Resolved r))"
proof (intro conjI allI impI)
  have start: "list_all (agrees k) (starting starts)" for k by (auto simp: starting_def list_all_iff)
  show "ring_holds h w' k" if "ring_holds h w k" for k
    using race_present [OF start that assms(4)] by simp
  show "r = Inr k" if "ring_holds h w k" "Resolved r \<in> set ps'" for k r
    using race_present [OF start that(1) assms(4)] that(2) by (force simp: list_all_iff)
next
  assume none: "lpk_get h w = Inr None"
  note launched = race_launch [OF assms(1-3) none assms(4)]
  show "k \<in> snd ` set starts" "\<exists>k'\<in>snd ` set starts. ring_holds h w' k'" if "Resolved (Inr k) \<in> set ps'" for k
    using launched that by (force simp: list_all_iff drawn_key_there_def)+
  show "e = lpk_missing_on_open \<or> e = lpk_missing_on_seal h \<and> m'
      \<or> (\<exists>x. e = CredentialStore (''LPK persist failed: '' @ x))" if "Resolved (Inl e) \<in> set ps'" for e
    using launched that by (force simp: list_all_iff)
  show "\<exists>k. ring_holds h w' k \<and> (\<forall>r. Resolved r \<in> set ps' \<longrightarrow> r = Inr k)"
    if "interleave (resolve_step h) xs (starting starts, w, m) = (ps1, w1, m1)" "ps1 \<noteq> []"
      "\<forall>p\<in>set ps1. \<exists>d. p = Rereading d" for ps1 w1 m1
    by (rule race_converges [OF assms(1-3) none that]) (use assms(4) that(1) in \<open>simp add: interleave_append\<close>)
next
  fix i assume i: "i < length starts" "5 \<le> count_list (xs @ ys) i"
  have "phase_rank (ps' ! i) \<le> phase_rank (starting starts ! i) - count_list (xs @ ys) i"
    using turns_finish [of phase_rank, OF phase_rank_step assms(4), of i] i(1) by (simp add: starting_def)
  moreover have "phase_rank (starting starts ! i) = 5" using i(1) by (simp add: starting_def split: prod.split)
  ultimately show "\<exists>r. ps' ! i = Resolved r" using i(2) phase_rank_0 by simp
qed

definition other_key :: bytes where
  "other_key = replicate 32 6"

lemma demo_failed_set: "failed_set_keeps demo_host"
  by (simp add: failed_set_keeps_def lpk_set_def demo_host_def)

lemma demo_race_simps:
  "lpk_get demo_host None = Inr None"
  "lpk_get demo_host (Some b64) = Inr (Some b64)"
  "lpk_set demo_host b64 w = (Inr (), Some b64)"
  "lh_b64_encode demo_host = hex_encode"
  "lpk_decode demo_host (hex_encode demo_key) = Inr demo_key"
  "lpk_decode demo_host (hex_encode other_key) = Inr other_key"
  "lh_marker_writable demo_host"
  by (simp_all add: lpk_get_def lpk_set_def lpk_decode_def demo_host_def)
     (simp_all add: demo_key_def other_key_def)

theorem concurrent_resolution_witness:
  "\<exists>k ps w m. interleave (resolve_step demo_host) ([0, 1, 0, 1, 0, 1] @ [0, 0, 1, 1])
      (starting [(Seal, demo_key), (Seal, other_key)], None, False) = (ps, w, m)
    \<and> ps = [Resolved (Inr k), Resolved (Inr k)] \<and> ring_holds demo_host w k"
proof -
  have first: "interleave (resolve_step demo_host) [0, 1, 0, 1, 0, 1]
      (starting [(Seal, demo_key), (Seal, other_key)], None, False)
      = ([Rereading demo_key, Rereading other_key], Some (hex_encode other_key), False)"
    by (simp add: take_turn_def starting_def demo_race_simps)
  have all: "interleave (resolve_step demo_host) ([0, 1, 0, 1, 0, 1] @ [0, 0, 1, 1])
      (starting [(Seal, demo_key), (Seal, other_key)], None, False)
      = ([Resolved (Inr other_key), Resolved (Inr other_key)], Some (hex_encode other_key), True)"
    unfolding interleave_append first by (simp add: take_turn_def demo_race_simps)
  have "\<forall>d\<in>snd ` set [(Seal, demo_key), (Seal, other_key)]. length d = 32"
    by (simp add: demo_key_def other_key_def)
  note raced = concurrent_resolution [OF demo_host_ok demo_failed_set this all, THEN conjunct2, THEN conjunct1]
  have "\<exists>k. ring_holds demo_host (Some (hex_encode other_key)) k
      \<and> (\<forall>r. Resolved r \<in> set [Resolved (Inr other_key), Resolved (Inr other_key)] \<longrightarrow> r = Inr k)"
    using raced [rule_format, OF demo_race_simps(1), THEN conjunct2, THEN conjunct2, rule_format, OF first]
    by auto
  then show ?thesis using all by auto
qed

text \<open>Reading again does not make two minting processes converge: one that writes after the other
  has read again leaves it with a key the keyring has lost. And a process that found the keyring
  empty just before another minted may report the key as missing that is there.\<close>

lemma mint_race_diverges:
  "interleave (resolve_step demo_host) ([0, 1] @ [0, 0, 0] @ [1, 1, 1] @ [0, 1])
      (starting [(Seal, demo_key), (Seal, other_key)], None, False)
    = ([Resolved (Inr demo_key), Resolved (Inr other_key)], Some (hex_encode other_key), True)"
  by (simp add: take_turn_def starting_def demo_race_simps)

lemma mint_race_reports_missing:
  "interleave (resolve_step demo_host) ([0, 1] @ [0, 0, 0, 0] @ [1])
      (starting [(Seal, demo_key), (Seal, other_key)], None, False)
    = ([Resolved (Inr demo_key), Resolved (Inl (lpk_missing_on_seal demo_host))], Some (hex_encode demo_key), True)"
  by (simp add: take_turn_def starting_def demo_race_simps)

end
