(* ===== verification/Keywrap_Runs.thy ===== *)
theory Keywrap_Runs
  imports Keywrap_Race
begin

text \<open>
  The local protection key over the life of an installation: processes seal, open, ask for the
  source, replace a lost key, fail and restart, in any order. The keyring changes only through
  them. Nothing is ever sealed under a key that a later process would not resolve, so that
  what was sealed once opens for ever.
\<close>

section \<open>The key of a host\<close>

definition host_key :: "'w lpk_host \<Rightarrow> 'w \<Rightarrow> bytes \<Rightarrow> bool" where
  "host_key h w k \<longleftrightarrow>
     (if lh_persistent h then lh_entry_new h = Inr () \<and> ring_holds h w k
      else headless_lpk_from_env h = Inr (Inr (Some k)))"

text \<open>A host whose keyring persists has no headless secret to fall back on: with one, a failing
  keyring would make a process seal under a key that the next does not use.\<close>

definition one_source :: "'w lpk_host \<Rightarrow> bool" where
  "one_source h \<longleftrightarrow> (lh_persistent h \<longrightarrow> (\<forall>k. headless_lpk_from_env h \<noteq> Inr (Inr (Some k))))"

definition sound_cache :: "'w lpk_host \<Rightarrow> 'w lpk_state \<Rightarrow> bool" where
  "sound_cache h s \<longleftrightarrow> (\<forall>k source. ls_cache s = Some (k, source) \<longrightarrow> host_key h (ls_ring s) k)"

lemma resolve_lpk_keeps_key:
  assumes "ring_holds h (ls_ring s) k"
  shows "\<exists>s'. resolve_lpk h mode drawn s = (Inr k, s') \<and> ls_ring s' = ls_ring s \<and> ls_cache s' = ls_cache s"
  using assms by (auto simp: resolve_lpk_def ring_holds_def)

lemma resolve_lpk_cache: "resolve_lpk h mode drawn s = (r, s') \<Longrightarrow> ls_cache s' = ls_cache s"
  by (auto simp: resolve_lpk_def mint_lpk_def Let_def split: sum.splits option.splits prod.splits if_splits)

text \<open>What resolving does on such a host: it finds the key, or makes one, or fails.\<close>

lemma resolve_host_key:
  assumes "host_ok h" "one_source h" "length drawn = 32" "resolve_host_lpk h mode drawn s = (r, s')"
  shows "ls_cache s' = ls_cache s
    \<and> (\<forall>k. host_key h (ls_ring s) k \<longrightarrow> host_key h (ls_ring s') k \<and> (\<exists>source. r = Inr (Inr (k, source))))
    \<and> (\<forall>k source. r = Inr (Inr (k, source)) \<longrightarrow> host_key h (ls_ring s') k)"
proof (cases "lh_persistent h \<and> lh_entry_new h = Inr ()")
  case False
  then show ?thesis
    using assms(2,4)
    by (auto simp: resolve_host_lpk_def choose_lpk_def host_key_def one_source_def
        split: sum.splits option.splits if_splits)
next
  case True
  obtain r1 s1 where os: "resolve_lpk h mode drawn s = (r1, s1)" by (rule prod.exhaust)
  have cache: "ls_cache s1 = ls_cache s" by (rule resolve_lpk_cache [OF os])
  have s': "s' = s1" and r: "\<And>k source. r = Inr (Inr (k, source)) \<Longrightarrow> r1 = Inr k"
    using assms(2,4) True os
    by (auto simp: resolve_host_lpk_def choose_lpk_def one_source_def
        split: sum.splits option.splits if_splits)
  have "host_key h (ls_ring s') k \<and> (\<exists>source. r = Inr (Inr (k, source)))"
    if "host_key h (ls_ring s) k" for k
  proof -
    from that True obtain s2 where "resolve_lpk h mode drawn s = (Inr k, s2)" "ls_ring s2 = ls_ring s"
      using resolve_lpk_keeps_key [of h s k mode drawn] by (auto simp: host_key_def)
    then show ?thesis
      using assms(4) True os s' that
      by (auto simp: resolve_host_lpk_def choose_lpk_def)
  qed
  moreover have "host_key h (ls_ring s') k" if "r = Inr (Inr (k, source))" for k source
    using resolve_lpk_holds [OF assms(1,3)] os r [OF that] s' True by (simp add: host_key_def)
  ultimately show ?thesis using cache s' by blast
qed

lemma host_key_unique: "host_key h w k \<Longrightarrow> host_key h w k' \<Longrightarrow> k = k'"
  by (auto simp: host_key_def ring_holds_def split: if_splits)

lemma cached_host_key:
  assumes "host_ok h" "one_source h" "length drawn = 32" "sound_cache h s" "cached_lpk h mode drawn s = (r, s')"
  shows "sound_cache h s'
    \<and> (\<forall>k. host_key h (ls_ring s) k \<longrightarrow> host_key h (ls_ring s') k \<and> r = Inr (Inr k))
    \<and> (\<forall>k. r = Inr (Inr k) \<longrightarrow> host_key h (ls_ring s') k)"
proof (cases "ls_cache s")
  case (Some c)
  obtain k0 src where c: "c = (k0, src)" by (rule prod.exhaust)
  have k0: "host_key h (ls_ring s) k0" using assms(4) Some c by (simp add: sound_cache_def)
  have "r = Inr (Inr k0)" "s' = s" using assms(5) Some c by (simp_all add: cached_lpk_def)
  with k0 assms(4) host_key_unique [OF _ k0] show ?thesis by blast
next
  case None
  obtain r1 s1 where res: "resolve_host_lpk h mode drawn s = (r1, s1)" by (rule prod.exhaust)
  note key = resolve_host_key [OF assms(1-3) res]
  show ?thesis
  proof (cases "\<exists>k source. r1 = Inr (Inr (k, source))")
    case True
    then obtain k source where r1: "r1 = Inr (Inr (k, source))" by blast
    with res None assms(5) have "r = Inr (Inr k)" "s' = s1\<lparr>ls_cache := Some (k, source)\<rparr>"
      by (simp_all add: cached_lpk_def)
    with key r1 show ?thesis by (auto simp: sound_cache_def)
  next
    case False
    with res None assms(5) have "s' = s1" "\<forall>k. r \<noteq> Inr (Inr k)"
      by (auto simp: cached_lpk_def split: sum.splits)
    with key False None show ?thesis by (simp add: sound_cache_def)
  qed
qed

section \<open>Runs\<close>

text \<open>What a process does, with the key its random generator would draw; a restart forgets the cache.\<close>

datatype lpk_op =
    SealOp bytes bytes
  | OpenOp bytes
  | SourceOp
  | RemintOp
  | RestartOp

fun lpk_exec :: "'w lpk_host \<Rightarrow> bytes \<times> lpk_op \<Rightarrow> 'w lpk_state \<Rightarrow> 'w lpk_state" where
  "lpk_exec h (drawn, SealOp nonce plaintext) s = snd (wrap_at_rest h drawn nonce plaintext s)"
| "lpk_exec h (drawn, OpenOp blob) s = snd (unwrap_at_rest h drawn blob s)"
| "lpk_exec h (drawn, SourceOp) s = snd (local_protection_source h drawn s)"
| "lpk_exec h (drawn, RemintOp) s = snd (remint_local_protection_key h drawn s)"
| "lpk_exec h (drawn, RestartOp) s = s\<lparr>ls_cache := None\<rparr>"

fun lpk_run :: "'w lpk_host \<Rightarrow> (bytes \<times> lpk_op) list \<Rightarrow> 'w lpk_state \<Rightarrow> 'w lpk_state" where
  "lpk_run h [] s = s"
| "lpk_run h (op # ops) s = lpk_run h ops (lpk_exec h op s)"

lemma wrap_state: "snd (wrap_at_rest h drawn n p s) = snd (cached_lpk h Seal drawn s)"
  by (simp add: wrap_at_rest_def local_protection_key_def split: prod.split sum.split)

lemma unwrap_state:
  "snd (unwrap_at_rest h drawn b s) = (if is_wrapped b then snd (cached_lpk h Open drawn s) else s)"
  by (simp add: unwrap_at_rest_def split: prod.split sum.split)

lemma source_state: "snd (local_protection_source h drawn s) = snd (cached_lpk h Seal drawn s)"
  by (simp add: local_protection_source_def split: prod.split sum.split)

lemma remint_keeps:
  assumes "host_ok h" "one_source h" "length drawn = 32" "sound_cache h s"
  shows "sound_cache h (snd (remint_local_protection_key h drawn s))
    \<and> (\<forall>k. host_key h (ls_ring s) k \<longrightarrow> host_key h (ls_ring (snd (remint_local_protection_key h drawn s))) k)"
proof -
  obtain r s1 where "resolve_host_lpk h Remint drawn s = (r, s1)" by (rule prod.exhaust)
  with resolve_host_key [OF assms(1-3) this] assms(4) show ?thesis
    by (auto simp: remint_local_protection_key_def sound_cache_def split: sum.splits)
qed

lemma lpk_exec_keeps:
  assumes "host_ok h" "one_source h" "length (fst op) = 32" "sound_cache h s"
  shows "sound_cache h (lpk_exec h op s)
    \<and> (\<forall>k. host_key h (ls_ring s) k \<longrightarrow> host_key h (ls_ring (lpk_exec h op s)) k)"
proof -
  obtain drawn x where op: "op = (drawn, x)" by (rule prod.exhaust)
  have cached: "sound_cache h (snd (cached_lpk h mode drawn s))
      \<and> (\<forall>k. host_key h (ls_ring s) k \<longrightarrow> host_key h (ls_ring (snd (cached_lpk h mode drawn s))) k)" for mode
    using cached_host_key [OF assms(1,2) _ assms(4)] assms(3) op by (metis fst_conv prod.collapse)
  show ?thesis
  proof (cases x)
    case RestartOp
    then show ?thesis using op by (simp add: sound_cache_def)
  next
    case RemintOp
    then show ?thesis using op remint_keeps [OF assms(1,2) _ assms(4)] assms(3) by simp
  qed (use op cached assms(4) in \<open>simp_all add: wrap_state unwrap_state source_state\<close>)
qed

lemma lpk_run_keeps:
  assumes "host_ok h" "one_source h" "\<forall>op\<in>set ops. length (fst op) = 32" "sound_cache h s"
  shows "sound_cache h (lpk_run h ops s)
    \<and> (\<forall>k. host_key h (ls_ring s) k \<longrightarrow> host_key h (ls_ring (lpk_run h ops s)) k)"
  using assms(3,4)
proof (induction ops arbitrary: s)
  case (Cons op ops)
  from lpk_exec_keeps [OF assms(1,2) _ Cons.prems(2), of op] Cons.prems(1) Cons.IH [of "lpk_exec h op s"]
  show ?case by simp
qed simp

lemma wrap_under_key:
  assumes "host_ok h" "one_source h" "length drawn = 32" "sound_cache h s"
    and "wrap_at_rest h drawn n p s = (Inr (Inr blob), s')"
  shows "\<exists>k. host_key h (ls_ring s') k \<and> wrap_with_key (lh_prim h) n p k = Inr blob \<and> sound_cache h s'"
proof -
  from assms(5) obtain k where "cached_lpk h Seal drawn s = (Inr (Inr k), s')"
    and "wrap_with_key (lh_prim h) n p k = Inr blob"
    by (auto simp: wrap_at_rest_def local_protection_key_def try_bind_eq_Inr split: sum.splits prod.splits)
  with cached_host_key [OF assms(1-4)] show ?thesis by blast
qed

lemma unwrap_under_key:
  assumes "host_ok h" "one_source h" "gcm_ok (lh_prim h)" "length drawn = 32" "length n = 12" "sound_cache h s"
    and "host_key h (ls_ring s) k" "wrap_with_key (lh_prim h) n p k = Inr blob"
  shows "\<exists>s'. unwrap_at_rest h drawn blob s = (Inr (Inr p), s') \<and> sound_cache h s'
    \<and> (\<forall>k. host_key h (ls_ring s) k \<longrightarrow> host_key h (ls_ring s') k)"
proof -
  obtain r s' where c: "cached_lpk h Open drawn s = (r, s')" by (rule prod.exhaust)
  note key = cached_host_key [OF assms(1,2,4,6) c]
  with assms(7) have "r = Inr (Inr k)" by blast
  moreover have "unwrap_with_key (lh_prim h) blob k = Inr p" using unwrap_wrap [OF assms(3)] assms(5,8) by blast
  moreover have "is_wrapped blob" using assms(8) by (auto simp: wrap_with_key_eq_Inr)
  ultimately show ?thesis using c key by (simp add: unwrap_at_rest_def)
qed

text \<open>C13: On a host with one source of the local protection key, a blob that any process seals opens
  to its plaintext for ever: whatever processes before and after seal, open, ask, replace a lost
  key, fail or restart, and whatever the random generator draws. From then on every process, in
  every mode, resolves one and the same key, and it is the key the blob is sealed under.\<close>

theorem sealed_stays_readable:
  assumes "host_ok h" "one_source h" "gcm_ok (lh_prim h)" "ls_cache s0 = None"
    and "\<forall>op\<in>set (ops @ ops'). length (fst op) = 32" "length drawn = 32" "length drawn' = 32" "length n = 12"
    and "wrap_at_rest h drawn n p (lpk_run h ops s0) = (Inr (Inr blob), s1)"
  shows "(\<exists>s2. unwrap_at_rest h drawn' blob (lpk_run h ops' s1) = (Inr (Inr p), s2))
    \<and> (\<exists>k. unwrap_with_key (lh_prim h) blob k = Inr p
         \<and> (\<forall>mode d. length d = 32 \<longrightarrow> fst (cached_lpk h mode d (lpk_run h ops' s1)) = Inr (Inr k)))"
proof -
  have "sound_cache h s0" using assms(4) by (simp add: sound_cache_def)
  then have before: "sound_cache h (lpk_run h ops s0)" using lpk_run_keeps [OF assms(1,2)] assms(5) by simp
  from wrap_under_key [OF assms(1,2,6) before assms(9)] obtain k where k: "host_key h (ls_ring s1) k"
    and sealed: "wrap_with_key (lh_prim h) n p k = Inr blob" and "sound_cache h s1" by blast
  with lpk_run_keeps [OF assms(1,2), of ops' s1] assms(5) have after: "sound_cache h (lpk_run h ops' s1)"
    and k': "host_key h (ls_ring (lpk_run h ops' s1)) k" by simp_all
  have same: "fst (cached_lpk h mode d (lpk_run h ops' s1)) = Inr (Inr k)" if "length d = 32" for mode d
    using cached_host_key [OF assms(1,2) that after] k' by (metis prod.collapse)
  have "unwrap_with_key (lh_prim h) blob k = Inr p" using unwrap_wrap [OF assms(3)] assms(8) sealed by blast
  then show ?thesis
    using unwrap_under_key [OF assms(1,2,3,7,8) after k' sealed] same by blast
qed

definition demo_single :: "string option lpk_host" where
  "demo_single = demo_host\<lparr>lh_secret := None\<rparr>"

lemma demo_single_ok: "host_ok demo_single" "one_source demo_single" "gcm_ok (lh_prim demo_single)"
  using demo_host_ok demo_gcm_ok
  by (simp_all add: demo_single_def host_ok_def one_source_def headless_lpk_from_env_def headless_lpk_from_def
      not_blank_def)
     (simp_all add: demo_host_def)

lemma demo_single_seals:
  "wrap_at_rest demo_single demo_key (replicate 12 0) [7] demo_first
     = (Inr (Inr (KEYWRAP_MAGIC @ replicate 12 0 @ [7] @ demo_tag [] [7])), demo_minted)"
proof -
  have "local_protection_key demo_single demo_key demo_first = (Inr (Inr demo_key), demo_minted)"
    by (simp add: local_protection_key_def cached_lpk_def resolve_host_lpk_def choose_lpk_def
        resolve_lpk_def mint_lpk_def lpk_get_def lpk_set_def lpk_decode_def write_minted_marker_def
        demo_single_def demo_host_def demo_first_def demo_minted_def)
       (simp add: demo_key_def)
  moreover have "lh_prim demo_single = demo_prim" by (simp add: demo_single_def demo_host_def)
  ultimately show ?thesis
    by (simp add: wrap_at_rest_def wrap_with_key_def demo_prim_def demo_env_def demo_aead_def)
qed

theorem sealed_stays_readable_witness:
  "\<exists>s2. unwrap_at_rest demo_single other_key (KEYWRAP_MAGIC @ replicate 12 0 @ [7] @ demo_tag [] [7])
      (lpk_run demo_single [(other_key, RestartOp), (other_key, RemintOp), (other_key, SealOp (replicate 12 1) [8])]
        demo_minted) = (Inr (Inr [7]), s2)"
proof -
  have "wrap_at_rest demo_single demo_key (replicate 12 0) [7] (lpk_run demo_single [] demo_first)
      = (Inr (Inr (KEYWRAP_MAGIC @ replicate 12 0 @ [7] @ demo_tag [] [7])), demo_minted)"
    by (simp add: demo_single_seals)
  from sealed_stays_readable [OF demo_single_ok _ _ _ _ _ this, THEN conjunct1,
      of "[(other_key, RestartOp), (other_key, RemintOp), (other_key, SealOp (replicate 12 1) [8])]" other_key]
  show ?thesis by (simp add: demo_key_def other_key_def demo_first_def)
qed

text \<open>With a second source the premise fails: what is sealed while the keyring fails is sealed
  under the headless key, and once the keyring works again, the key that opens is another one.\<close>

lemma fallback_key_is_dropped:
  assumes "lh_persistent h" "lh_entry_new h = Inr ()" "headless_lpk_from_env h = Inr (Inr (Some k1))"
    and "lpk_get h (ls_ring s) = Inl e"
    and "\<not> contains_str LPK_MISSING_MARKER (passkey_error_text (CredentialStore (''LPK retrieval failed: '' @ e)))"
    and "ls_cache s = None" "ls_cache t = None" "ring_holds h (ls_ring t) k2"
  shows "fst (cached_lpk h Seal drawn s) = Inr (Inr k1) \<and> fst (cached_lpk h Open drawn t) = Inr (Inr k2)"
  using assms
  by (auto simp: cached_lpk_def resolve_host_lpk_def choose_lpk_def resolve_lpk_def ring_holds_def)

end
