(* ===== verification/Identity_Runs.thy ===== *)
theory Identity_Runs
  imports Identity_Laws Keywrap_Runs
begin

text \<open>
  The identity files of an installation over its life: the users' identities are saved, loaded and
  deleted by any number of processes, with any failures of the file system and the keyring in
  between. They refine a map from names to identities; the state of the local protection key is
  that of \<open>Keywrap_Runs\<close>.
\<close>

section \<open>One operation on the tree and the key\<close>

lemma save_to_state:
  assumes "save_to h drawn n G F disp i (key_dir ds) t s = (res, t', s')" and "tree_ok t"
  shows "tree_ok t' \<and> (s' = s \<or> (\<exists>tsk. s' = snd (wrap_at_rest h drawn n tsk s)))
    \<and> (\<forall>q d. q \<notin> {ds @ [SECRET_KEY_FILE], ds @ [PUBLIC_KEY_FILE]} \<longrightarrow>
         (node_at t' q = Some (File d) \<longleftrightarrow> node_at t q = Some (File d)))"
proof (cases "io_tsk G i")
  case (Inl e)
  with assms show ?thesis by (auto simp: save_to_def save_to_with_sealer_def)
next
  case (Inr tsk)
  obtain x s1 where seal: "seal_secret_key h drawn n tsk s = (x, s1)" by (rule prod.exhaust)
  then have s1: "s1 = snd (wrap_at_rest h drawn n tsk s)"
    by (auto simp: seal_secret_key_def split: prod.splits sum.splits)
  show ?thesis
  proof (cases "\<exists>blob. x = Inr (Inr blob)")
    case True
    then obtain blob where x: "x = Inr (Inr blob)" ..
    obtain r t1 where w: "write_identity G F disp i (key_dir ds) blob t = (r, t1)" by (rule prod.exhaust)
    have "t' = t1" "s' = s1"
      using assms(1) Inr seal x w by (auto simp: save_to_def save_to_with_sealer_def)
    with write_identity_effect [OF w assms(2)] s1 show ?thesis by blast
  next
    case False
    then have "t' = t" "s' = s1"
      using assms(1) Inr seal by (auto simp: save_to_def save_to_with_sealer_def split: sum.splits)
    with assms(2) s1 show ?thesis by blast
  qed
qed

lemma load_from_state:
  "snd (load_from h drawn G F disp path t s) = s
   \<or> (\<exists>raw. snd (load_from h drawn G F disp path t s) = snd (unwrap_at_rest h drawn raw s))"
proof (cases "stat F t (path @ [Normal SECRET_KEY_FILE]) = None")
  case False
  show ?thesis
  proof (cases "read_file F t (path @ [Normal SECRET_KEY_FILE])")
    case (Inr raw)
    obtain x s1 where u: "unwrap_at_rest h drawn raw s = (x, s1)" by (rule prod.exhaust)
    then have "snd (load_from h drawn G F disp path t s) = (if is_wrapped raw then s1 else s)"
      using Inr False by (auto simp: load_from_def Let_def split: sum.split)
    then show ?thesis using u by (metis snd_conv)
  qed (simp add: load_from_def Let_def)
qed (simp add: load_from_def Let_def)

lemma load_needs_file:
  assumes "load_from h drawn G F disp (key_dir ds) t s = (Inr (Inr i), s')" and "tree_ok t"
  shows "\<exists>d. node_at t (ds @ [SECRET_KEY_FILE]) = Some (File d)"
proof -
  from assms(1) obtain raw where "read_file F t (RootDir # map Normal (ds @ [SECRET_KEY_FILE])) = Inr raw"
    unfolding load_from_def key_dir_file by (auto simp: Let_def split: if_splits sum.splits)
  then show ?thesis unfolding read_file_abs [OF assms(2)] by blast
qed

lemma delete_identity_any:
  assumes "delete_identity_at F (key_dir ds) t = (r, t')" and "tree_ok t"
  shows "tree_ok t' \<and> (\<forall>q. q \<notin> {ds @ [SECRET_KEY_FILE], ds @ [PUBLIC_KEY_FILE]} \<longrightarrow> node_at t' q = node_at t q)"
proof -
  have path: "key_dir ds @ [Normal n] = RootDir # map Normal (ds @ [n])" for n by (rule key_dir_file)
  obtain r1 t1 where r1: "remove_if_there F (RootDir # map Normal (ds @ [SECRET_KEY_FILE])) t = (r1, t1)"
    by (rule prod.exhaust)
  note e1 = remove_if_there_effect [OF r1 assms(2)]
  obtain r2 t2 where r2: "remove_if_there F (RootDir # map Normal (ds @ [PUBLIC_KEY_FILE])) t1 = (r2, t2)"
    by (rule prod.exhaust)
  note e2 = remove_if_there_effect [OF r2] 
  have "t' = t1 \<or> t' = t2"
    using assms(1) r1 r2
    by (auto simp: delete_identity_at_def path simp del: map_append split: sum.splits)
  with e1 e2 show ?thesis by auto
qed

section \<open>Runs\<close>

datatype user_op =
    SaveUser string Identity
  | LoadUser string
  | DeleteUser string
  | NewProcess

datatype user_result =
    Reported "panic + unit PasskeyResult"
  | Loaded "panic + Identity PasskeyResult"

text \<open>With each operation come the failures of the file system while it runs, and the key and
  nonce that would be drawn.\<close>

type_synonym user_event = "faults \<times> bytes \<times> bytes \<times> user_op"

fun user_exec ::
    "'w lpk_host \<Rightarrow> pgp_io \<Rightarrow> (component list \<Rightarrow> string) \<Rightarrow> user_paths \<Rightarrow> user_event
     \<Rightarrow> tree \<times> 'w lpk_state \<Rightarrow> user_result \<times> tree \<times> 'w lpk_state" where
  "user_exec h G disp c (F, drawn, n, SaveUser u i) (t, s) =
     (case save_for_user h drawn n G F disp i c u t s of (r, t', s') \<Rightarrow> (Reported r, t', s'))"
| "user_exec h G disp c (F, drawn, n, LoadUser u) (t, s) =
     (case load_user h drawn G F disp c u t s of (r, s') \<Rightarrow> (Loaded r, t, s'))"
| "user_exec h G disp c (F, drawn, n, DeleteUser u) (t, s) =
     (case delete_user_identity F c u t of (r, t') \<Rightarrow> (Reported (Inr r), t', s))"
| "user_exec h G disp c (F, drawn, n, NewProcess) (t, s) = (Reported (Inr (Inr ())), t, s\<lparr>ls_cache := None\<rparr>)"

fun user_run ::
    "'w lpk_host \<Rightarrow> pgp_io \<Rightarrow> (component list \<Rightarrow> string) \<Rightarrow> user_paths \<Rightarrow> user_event list
     \<Rightarrow> tree \<times> 'w lpk_state \<Rightarrow> user_result list \<times> tree \<times> 'w lpk_state" where
  "user_run h G disp c [] st = ([], st)"
| "user_run h G disp c (ev # evs) st =
     (case user_exec h G disp c ev st of (r, st1) \<Rightarrow>
      case user_run h G disp c evs st1 of (rs, st2) \<Rightarrow> (r # rs, st2))"

section \<open>The map it refines\<close>

datatype known = Unknown | Absent | Present Identity

fun known_after :: "user_event \<Rightarrow> user_result \<Rightarrow> (string \<Rightarrow> known) \<Rightarrow> string \<Rightarrow> known" where
  "known_after (F, drawn, n, SaveUser u i) r M =
     M(u := if r = Reported (Inr (Inr ())) then Present i else Unknown)"
| "known_after (F, drawn, n, DeleteUser u) r M =
     M(u := if r = Reported (Inr (Inr ())) \<and> readable F then Absent else Unknown)"
| "known_after (F, drawn, n, LoadUser u) r M = M"
| "known_after (F, drawn, n, NewProcess) r M = M"

text \<open>What the map allows a load to return.\<close>

fun allowed :: "(string \<Rightarrow> known) \<Rightarrow> user_event \<Rightarrow> user_result \<Rightarrow> bool" where
  "allowed M (F, drawn, n, LoadUser u) r \<longleftrightarrow>
     (case M u of
        Present i \<Rightarrow> readable F \<longrightarrow> r = Loaded (Inr (Inr i))
      | Absent \<Rightarrow> \<forall>i. r \<noteq> Loaded (Inr (Inr i))
      | Unknown \<Rightarrow> True)"
| "allowed M ev r \<longleftrightarrow> True"

fun user_trace :: "(string \<Rightarrow> known) \<Rightarrow> user_event list \<Rightarrow> user_result list \<Rightarrow> bool" where
  "user_trace M [] [] \<longleftrightarrow> True"
| "user_trace M (ev # evs) (r # rs) \<longleftrightarrow> allowed M ev r \<and> user_trace (known_after ev r M) evs rs"
| "user_trace M evs rs \<longleftrightarrow> False"

section \<open>The simulation\<close>

definition base_dir :: "user_paths \<Rightarrow> string list \<Rightarrow> bool" where
  "base_dir c bs \<longleftrightarrow> config_dir (up_platform c) (up_config c) = key_dir bs"

definition user_key_dir :: "string list \<Rightarrow> string \<Rightarrow> string list" where
  "user_key_dir bs u = bs @ [''users'', u, ''identity'']"

definition key_file :: "string list \<Rightarrow> string \<Rightarrow> string list" where
  "key_file bs u = user_key_dir bs u @ [SECRET_KEY_FILE]"

lemma identity_dir_checked_cases:
  assumes "base_dir c bs"
  shows "(\<exists>e. identity_dir_checked c u = Inl e) \<or> identity_dir_checked c u = Inr (key_dir (user_key_dir bs u))"
  using assms plain_join [of "''users''" "key_dir bs"]
  by (cases "identity_dir_checked c u")
     (auto simp: identity_dir_checked_def checked_identity_dir_eq_Inr users_dir_def base_dir_def user_key_dir_def
        key_dir_def)

lemma key_files_apart:
  "u \<noteq> v \<Longrightarrow> key_file bs v \<notin> {user_key_dir bs u @ [SECRET_KEY_FILE], user_key_dir bs u @ [PUBLIC_KEY_FILE]}"
  by (simp add: key_file_def user_key_dir_def)

definition holds_identity :: "'w lpk_host \<Rightarrow> pgp_io \<Rightarrow> 'w \<Rightarrow> bytes \<Rightarrow> Identity \<Rightarrow> bool" where
  "holds_identity h G w blob i \<longleftrightarrow>
     (\<exists>k n tsk c. host_key h w k \<and> length n = 12 \<and> wrap_with_key (lh_prim h) n tsk k = Inr blob
        \<and> io_parse G tsk = Inr c \<and> identity_of G c = i)"

definition represents ::
    "'w lpk_host \<Rightarrow> pgp_io \<Rightarrow> user_paths \<Rightarrow> string list \<Rightarrow> tree \<Rightarrow> 'w \<Rightarrow> string \<Rightarrow> known \<Rightarrow> bool" where
  "represents h G c bs t w u x \<longleftrightarrow>
     (case x of
        Unknown \<Rightarrow> True
      | Absent \<Rightarrow> \<forall>d. node_at t (key_file bs u) \<noteq> Some (File d)
      | Present i \<Rightarrow> identity_dir_checked c u = Inr (key_dir (user_key_dir bs u))
          \<and> (\<exists>blob. node_at t (key_file bs u) = Some (File blob) \<and> holds_identity h G w blob i))"

lemma represents_Unknown [simp]: "represents h G c bs t w u Unknown"
  by (simp add: represents_def)

lemma holds_identity_mono:
  "holds_identity h G w blob i \<Longrightarrow> \<forall>k. host_key h w k \<longrightarrow> host_key h w' k \<Longrightarrow> holds_identity h G w' blob i"
  unfolding holds_identity_def by blast

lemma represents_mono:
  assumes "represents h G c bs t w u x" and "\<forall>k. host_key h w k \<longrightarrow> host_key h w' k"
    and "\<forall>d. node_at t' (key_file bs u) = Some (File d) \<longleftrightarrow> node_at t (key_file bs u) = Some (File d)"
  shows "represents h G c bs t' w' u x"
  using assms holds_identity_mono [OF _ assms(2)] by (auto simp: represents_def split: known.split)

definition user_sim ::
    "'w lpk_host \<Rightarrow> pgp_io \<Rightarrow> user_paths \<Rightarrow> string list \<Rightarrow> tree \<times> 'w lpk_state \<Rightarrow> (string \<Rightarrow> known) \<Rightarrow> bool" where
  "user_sim h G c bs st M \<longleftrightarrow>
     tree_ok (fst st) \<and> sound_cache h (snd st) \<and> (\<forall>u. represents h G c bs (fst st) (ls_ring (snd st)) u (M u))"

definition one_host :: "'w lpk_host \<Rightarrow> bool" where
  "one_host h \<longleftrightarrow> host_ok h \<and> one_source h \<and> gcm_ok (lh_prim h)"

definition reads_back :: "pgp_io \<Rightarrow> Identity \<Rightarrow> bool" where
  "reads_back G i \<longleftrightarrow> (\<forall>tsk. io_tsk G i = Inr tsk \<longrightarrow> (\<exists>c. io_parse G tsk = Inr c \<and> identity_of G c = i))"

fun good_event :: "pgp_io \<Rightarrow> user_event \<Rightarrow> bool" where
  "good_event G (F, drawn, n, op) \<longleftrightarrow> length drawn = 32 \<and> length n = 12
     \<and> (case op of SaveUser u i \<Rightarrow> reads_back G i | _ \<Rightarrow> True)"

lemma key_state_keeps:
  assumes "one_host h" "length drawn = 32" "sound_cache h s"
    and "s' = s \<or> (\<exists>n p. s' = snd (wrap_at_rest h drawn n p s)) \<or> (\<exists>b. s' = snd (unwrap_at_rest h drawn b s))"
  shows "sound_cache h s' \<and> (\<forall>k. host_key h (ls_ring s) k \<longrightarrow> host_key h (ls_ring s') k)"
proof -
  have ok: "host_ok h" "one_source h" using assms(1) by (simp_all add: one_host_def)
  note keeps = lpk_exec_keeps [OF ok _ assms(3)]
  show ?thesis
    using assms(2-4) keeps [of "(drawn, SealOp n p)" for n p] keeps [of "(drawn, OpenOp b)" for b] by auto
qed

lemma save_sim:
  assumes "one_host h" "base_dir c bs" "good_event G (F, drawn, n, SaveUser u i)" "user_sim h G c bs (t, s) M"
    and "save_for_user h drawn n G F disp i c u t s = (r, t', s')"
  shows "user_sim h G c bs (t', s') (M(u := if r = Inr (Inr ()) then Present i else Unknown))"
proof (cases "identity_dir_checked c u = Inr (key_dir (user_key_dir bs u))")
  case False
  then obtain e where "identity_dir_checked c u = Inl e"
    using identity_dir_checked_cases [OF assms(2)] by blast
  with assms(4,5) show ?thesis by (auto simp: save_for_user_def user_sim_def)
next
  case True
  let ?ds = "user_key_dir bs u"
  have save: "save_to h drawn n G F disp i (key_dir ?ds) t s = (r, t', s')"
    using assms(5) True by (simp add: save_for_user_def)
  have sim: "tree_ok t" "sound_cache h s" "\<And>v. represents h G c bs t (ls_ring s) v (M v)"
    using assms(4) by (simp_all add: user_sim_def)
  have len: "length drawn = 32" "length n = 12" and parses: "reads_back G i" using assms(3) by simp_all
  note eff = save_to_state [OF save sim(1)]
  have key: "sound_cache h s' \<and> (\<forall>k. host_key h (ls_ring s) k \<longrightarrow> host_key h (ls_ring s') k)"
    using key_state_keeps [OF assms(1) len(1) sim(2)] eff by blast
  have other: "represents h G c bs t' (ls_ring s') v (M v)" if "v \<noteq> u" for v
    by (rule represents_mono [OF sim(3)]) (use key eff key_files_apart [of u v bs] that in auto)
  have "represents h G c bs t' (ls_ring s') u (Present i)" if r: "r = Inr (Inr ())"
  proof -
    from save_to_Inr [OF save [unfolded r] sim(1)] obtain tsk blob where tsk: "io_tsk G i = Inr tsk"
      and w: "wrap_at_rest h drawn n tsk s = (Inr (Inr blob), s')"
      and at: "node_at t' (?ds @ [SECRET_KEY_FILE]) = Some (File blob)" .
    from wrap_under_key [OF _ _ len(1) sim(2) w] assms(1) obtain k where
      "host_key h (ls_ring s') k" "wrap_with_key (lh_prim h) n tsk k = Inr blob" by (auto simp: one_host_def)
    with parses tsk len(2) have "holds_identity h G (ls_ring s') blob i"
      unfolding holds_identity_def reads_back_def by blast
    with at True show ?thesis by (simp add: represents_def key_file_def)
  qed
  with other key eff show ?thesis by (auto simp: user_sim_def)
qed

lemma delete_sim:
  assumes "base_dir c bs" "user_sim h G c bs (t, s) M" "delete_user_identity F c u t = (r, t')"
  shows "user_sim h G c bs (t', s) (M(u := if r = Inr () \<and> readable F then Absent else Unknown))"
proof (cases "identity_dir_checked c u = Inr (key_dir (user_key_dir bs u))")
  case False
  then obtain e where "identity_dir_checked c u = Inl e"
    using identity_dir_checked_cases [OF assms(1)] by blast
  with assms(2,3) show ?thesis by (auto simp: delete_user_identity_def user_sim_def)
next
  case True
  let ?ds = "user_key_dir bs u"
  have del: "delete_identity_at F (key_dir ?ds) t = (r, t')"
    using assms(3) True by (simp add: delete_user_identity_def)
  have sim: "tree_ok t" "sound_cache h s" "\<And>v. represents h G c bs t (ls_ring s) v (M v)"
    using assms(2) by (simp_all add: user_sim_def)
  note eff = delete_identity_any [OF del sim(1)]
  have other: "represents h G c bs t' (ls_ring s) v (M v)" if "v \<noteq> u" for v
    by (rule represents_mono [OF sim(3)]) (use eff key_files_apart [of u v bs] that in auto)
  have "represents h G c bs t' (ls_ring s) u Absent" if r: "r = Inr ()" and "readable F"
  proof -
    have "\<not> identity_exists_at F t' (key_dir ?ds)" "tree_ok t'"
      using delete_identity_effect [OF del [unfolded r] sim(1)] by simp_all
    then have "node_at t' (?ds @ [SECRET_KEY_FILE]) = None"
      using \<open>readable F\<close> unfolding identity_exists_at_def key_dir_file
      by (simp add: stat_abs readable_def del: map_append)
    then show ?thesis by (simp add: represents_def key_file_def)
  qed
  with other sim eff show ?thesis by (auto simp: user_sim_def)
qed

lemma load_sim:
  assumes "one_host h" "base_dir c bs" "length drawn = 32" "user_sim h G c bs (t, s) M"
    and "load_user h drawn G F disp c u t s = (r, s')"
  shows "user_sim h G c bs (t, s') M \<and> allowed M (F, drawn, n, LoadUser u) (Loaded r)"
proof (cases "identity_dir_checked c u = Inr (key_dir (user_key_dir bs u))")
  case False
  then obtain e where e: "identity_dir_checked c u = Inl e"
    using identity_dir_checked_cases [OF assms(2)] by blast
  have "represents h G c bs t (ls_ring s) u (M u)" using assms(4) by (simp add: user_sim_def)
  then show ?thesis
    using e assms(4,5) by (auto simp: load_user_def represents_def split: known.splits)
next
  case True
  let ?ds = "user_key_dir bs u"
  have load: "load_from h drawn G F disp (key_dir ?ds) t s = (r, s')"
    using assms(5) True by (simp add: load_user_def)
  have sim: "tree_ok t" "sound_cache h s" "\<And>v. represents h G c bs t (ls_ring s) v (M v)"
    using assms(4) by (simp_all add: user_sim_def)
  have key: "sound_cache h s' \<and> (\<forall>k. host_key h (ls_ring s) k \<longrightarrow> host_key h (ls_ring s') k)"
    using key_state_keeps [OF assms(1,3) sim(2)] load_from_state [of h drawn G F disp "key_dir ?ds" t s] load
    by (metis snd_conv)
  have "represents h G c bs t (ls_ring s') v (M v)" for v
    by (rule represents_mono [OF sim(3)]) (use key in auto)
  moreover have "r = Inr (Inr i)" if "M u = Present i" "readable F" for i
  proof -
    from sim(3) [of u] that obtain blob k n tsk cc where
      at: "node_at t (?ds @ [SECRET_KEY_FILE]) = Some (File blob)" and k: "host_key h (ls_ring s) k"
      and len: "length n = 12" and seal: "wrap_with_key (lh_prim h) n tsk k = Inr blob"
      and p: "io_parse G tsk = Inr cc" "identity_of G cc = i"
      by (auto simp: represents_def holds_identity_def key_file_def)
    obtain s2 where u: "unwrap_at_rest h drawn blob s = (Inr (Inr tsk), s2)"
      using unwrap_under_key [OF _ _ _ assms(3) len sim(2) k seal] assms(1) by (auto simp: one_host_def)
    have "is_wrapped blob" using seal by (auto simp: wrap_with_key_eq_Inr)
    from load_file [OF at sim(1) that(2) this u p(1)] p(2) load show ?thesis by simp
  qed
  moreover have "r \<noteq> Inr (Inr i)" if "M u = Absent" for i
    using sim(3) [of u] that load_needs_file [OF _ sim(1), of h drawn G F disp ?ds s i s'] load
    by (auto simp: represents_def key_file_def)
  ultimately show ?thesis using sim key by (auto simp: user_sim_def split: known.split)
qed

lemma user_exec_sim:
  assumes "one_host h" "base_dir c bs" "good_event G ev" "user_sim h G c bs st M"
    and "user_exec h G disp c ev st = (r, st')"
  shows "user_sim h G c bs st' (known_after ev r M) \<and> allowed M ev r"
proof -
  obtain F drawn n op where ev: "ev = (F, drawn, n, op)" by (metis prod.exhaust)
  obtain t s t' s' where st: "st = (t, s)" "st' = (t', s')" by (metis prod.exhaust)
  note given = assms(3-5) [unfolded ev st]
  show ?thesis
  proof (cases op)
    case (SaveUser u i)
    with save_sim [OF assms(1,2), of G F drawn n u i t s M disp] given ev st
    show ?thesis by (auto split: prod.splits if_splits)
  next
    case (LoadUser u)
    with load_sim [OF assms(1,2), of drawn G t s M F disp u _ _ n] given ev st
    show ?thesis by (auto split: prod.splits)
  next
    case (DeleteUser u)
    with delete_sim [OF assms(2), of h G t s M F u] given ev st
    show ?thesis by (auto split: prod.splits if_splits)
  next
    case NewProcess
    with given ev st show ?thesis by (auto simp: user_sim_def sound_cache_def)
  qed
qed

lemma user_run_sim:
  assumes "one_host h" "base_dir c bs" "list_all (good_event G) evs" "user_sim h G c bs st M"
    and "user_run h G disp c evs st = (rs, st')"
  shows "user_trace M evs rs"
  using assms(3-)
proof (induction evs arbitrary: st M rs st')
  case (Cons ev evs)
  obtain r st1 where ex: "user_exec h G disp c ev st = (r, st1)" by (rule prod.exhaust)
  obtain rs1 st2 where run: "user_run h G disp c evs st1 = (rs1, st2)" by (rule prod.exhaust)
  have "good_event G ev" "list_all (good_event G) evs" using Cons.prems(1) by simp_all
  with user_exec_sim [OF assms(1,2) _ Cons.prems(2) ex] Cons.IH [OF _ _ run] Cons.prems(3) ex run
  show ?case by auto
qed simp


section \<open>Witness\<close>

definition demo_user_paths :: user_paths where
  "demo_user_paths = \<lparr>up_debug = (\<lambda>u. u), up_canon = (\<lambda>p. None),
     up_platform = \<lparr>pf_windows = False, pf_appdata = None, pf_localappdata = None, pf_config_dir = None,
       pf_data_dir = None, pf_data_local_dir = None, pf_home_dir = None, pf_os = ''linux'', pf_hostname = None\<rparr>,
     up_config = config_gitcellar\<lparr>config_dir_override := Some (key_dir [''c''])\<rparr>\<rparr>"

lemma demo_user_base: "config_dir (up_platform demo_user_paths) (up_config demo_user_paths) = key_dir [''c'']"
  by (simp add: demo_user_paths_def config_dir_def or_else_def)

lemma demo_user_dir: "identity_dir_checked demo_user_paths ''default'' = Inr (key_dir [''c'', ''users'', ''default'', ''identity''])"
proof -
  have "validate_user_dir_name (up_debug demo_user_paths) ''default'' = Inr ()"
    by (simp add: validate_user_dir_name_def RESERVED_USER_DIR_NAMES_def validate_username_eq_Inr
        is_ascii_alphanumeric_def code_of_def WINDOWS_DEVICE_NAMES_def eq_ignore_ascii_case_def)
  then have "\<exists>d. identity_dir_checked demo_user_paths ''default'' = Inr d"
    by (auto simp: identity_dir_checked_def checked_identity_dir_eq_Inr config_checked_user_dir_eq_Inr
        demo_user_paths_def)
  then show ?thesis
    using identity_dir_checked_cases [of demo_user_paths "[''c'']" "''default''"] demo_user_base
    by (auto simp: base_dir_def user_key_dir_def)
qed

lemma demo_user_write:
  "\<exists>t'. write_identity demo_pgp_io calm (\<lambda>_. []) demo_id (key_dir [''c'', ''users'', ''default'', ''identity'']) blob []
     = (Inr (), t')"
  by (simp add: write_identity_def key_dir_def write_file_def set_mode_def calm_def node_at_def Let_def
      demo_pgp_io_def identity_files)


end
