(* ===== verification/Ffi.thy ===== *)
theory Ffi
  imports Pgp_Engine
begin

text \<open>
  \<open>vault-core/src/ffi.rs\<close>: the C interface to the chunker and the AES engine.

  The memory behind it is a heap of typed blocks, as Rust allocates them; address 0 is \<open>NULL\<close>, and
  an address is not used again. A \<open>Vec\<close> or boxed slice is a block of its own, also when it is
  empty, and has no spare capacity. What C must not do is the outcome \<open>Undefined\<close>: to read or free
  a block that is not there, or as something it is not. A panic cannot leave an \<open>extern "C"\<close>
  function: the process aborts. Memory the caller owns is the argument \<open>c_bytes\<close>, which tells
  whether the pointer is null. The error slot is that of the calling thread.
\<close>

section \<open>Memory\<close>

type_synonym ptr = nat

record VaultBuffer =
  vb_data :: ptr
  vb_len :: nat
  vb_capacity :: nat

record VaultChunkInfo =
  vi_hash :: ptr
  vi_size :: nat
  vi_offset :: u64

record VaultChunkList =
  vl_chunks :: ptr
  vl_count :: nat
  vl_data :: ptr

datatype block =
    BytesBlock bytes
  | BufferBlock VaultBuffer
  | StringBlock string
  | AesBlock AesEncryptionEngine
  | ChunkerBlock ChunkEngine
  | InfoBlock "VaultChunkInfo list"
  | PtrBlock "ptr list"
  | ListBlock VaultChunkList

type_synonym heap = "ptr \<rightharpoonup> block"

record ffi_state =
  ff_heap :: heap
  ff_next :: ptr
  ff_error :: "string option"

datatype 'a outcome = Returns 'a | Aborts panic | Undefined | Diverges

type_synonym 'a ffi = "ffi_state \<Rightarrow> ('a \<times> ffi_state) outcome"

definition ffi_return :: "'a \<Rightarrow> 'a ffi" where
  "ffi_return x s = Returns (x, s)"

definition ffi_undefined :: "'a ffi" where
  "ffi_undefined s = Undefined"

definition ffi_bind :: "'a ffi \<Rightarrow> ('a \<Rightarrow> 'b ffi) \<Rightarrow> 'b ffi" where
  "ffi_bind m f s =
     (case m s of
        Returns (x, s') \<Rightarrow> f x s'
      | Aborts p \<Rightarrow> Aborts p
      | Undefined \<Rightarrow> Undefined
      | Diverges \<Rightarrow> Diverges)"

fun ffi_map :: "('a \<Rightarrow> 'b ffi) \<Rightarrow> 'a list \<Rightarrow> 'b list ffi" where
  "ffi_map f [] = ffi_return []"
| "ffi_map f (x # xs) =
     ffi_bind (f x) (\<lambda>y. ffi_bind (ffi_map f xs) (\<lambda>ys. ffi_return (y # ys)))"

definition new_block :: "block \<Rightarrow> ptr ffi" where
  "new_block b s = Returns (ff_next s,
     s\<lparr>ff_heap := (ff_heap s)(ff_next s \<mapsto> b), ff_next := ff_next s + 1\<rparr>)"

definition read_block :: "ptr \<Rightarrow> block ffi" where
  "read_block p s = (case ff_heap s p of None \<Rightarrow> Undefined | Some b \<Rightarrow> Returns (b, s))"

definition take_block :: "ptr \<Rightarrow> block ffi" where
  "take_block p s =
     (case ff_heap s p of
        None \<Rightarrow> Undefined
      | Some b \<Rightarrow> Returns (b, s\<lparr>ff_heap := (ff_heap s)(p := None)\<rparr>))"

section \<open>Errors\<close>

definition set_last_error :: "string \<Rightarrow> unit ffi" where
  "set_last_error msg s = Returns ((), s\<lparr>ff_error := Some msg\<rparr>)"

definition clear_last_error :: "unit ffi" where
  "clear_last_error s = Returns ((), s\<lparr>ff_error := None\<rparr>)"

definition ffi_refuse :: "string \<Rightarrow> ptr ffi" where
  "ffi_refuse msg = ffi_bind (set_last_error msg) (\<lambda>_. ffi_return 0)"

text \<open>\<open>CString::new(s)\<close> and \<open>into_raw\<close>: a string with a NUL has no C form.\<close>

definition c_string :: "string \<Rightarrow> ptr option ffi" where
  "c_string s =
     (if CHR 0x00 \<in> set s then ffi_return None
      else ffi_bind (new_block (StringBlock s)) (\<lambda>p. ffi_return (Some p)))"

definition c_string_unwrap :: "string \<Rightarrow> ptr ffi" where
  "c_string_unwrap s =
     (if CHR 0x00 \<in> set s then (\<lambda>st. Aborts (ExpectFailed ''NulError''))
      else new_block (StringBlock s))"

definition vault_last_error :: "ptr ffi" where
  "vault_last_error s =
     (case ff_error s of
        Some msg \<Rightarrow> ffi_bind (c_string msg) (\<lambda>p. ffi_return (case p of Some p \<Rightarrow> p | None \<Rightarrow> 0)) s
      | None \<Rightarrow> Returns (0, s))"

definition vault_error_free :: "ptr \<Rightarrow> unit ffi" where
  "vault_error_free p =
     (if p = 0 then ffi_return ()
      else ffi_bind (take_block p) (\<lambda>b. case b of StringBlock _ \<Rightarrow> ffi_return () | _ \<Rightarrow> ffi_undefined))"

section \<open>Buffers\<close>

definition buffer_from_vec :: "bytes \<Rightarrow> ptr ffi" where
  "buffer_from_vec v =
     ffi_bind (new_block (BytesBlock v)) (\<lambda>d.
     new_block (BufferBlock \<lparr>vb_data = d, vb_len = length v, vb_capacity = length v\<rparr>))"

definition buffer_into_vec :: "ptr \<Rightarrow> bytes ffi" where
  "buffer_into_vec p =
     (if p = 0 then ffi_return []
      else ffi_bind (take_block p) (\<lambda>b. case b of
          BufferBlock vb \<Rightarrow> ffi_bind (take_block (vb_data vb)) (\<lambda>c. case c of
              BytesBlock v \<Rightarrow>
                if length v = vb_capacity vb \<and> vb_len vb \<le> vb_capacity vb
                then ffi_return (take (vb_len vb) v) else ffi_undefined
            | _ \<Rightarrow> ffi_undefined)
        | _ \<Rightarrow> ffi_undefined))"

definition vault_buffer_free :: "ptr \<Rightarrow> unit ffi" where
  "vault_buffer_free p =
     (if p = 0 then ffi_return () else ffi_bind (buffer_into_vec p) (\<lambda>_. ffi_return ()))"

section \<open>Arguments\<close>

datatype c_bytes = NullBytes nat | CBytes bytes

definition is_null :: "c_bytes \<Rightarrow> bool" where
  "is_null a = (case a of NullBytes _ \<Rightarrow> True | CBytes _ \<Rightarrow> False)"

definition data_len :: "c_bytes \<Rightarrow> nat" where
  "data_len a = (case a of NullBytes n \<Rightarrow> n | CBytes b \<Rightarrow> length b)"

text \<open>\<open>slice::from_raw_parts\<close> on a pointer that is not null, and the empty slice otherwise.\<close>

definition arg_slice :: "c_bytes \<Rightarrow> bytes" where
  "arg_slice a = (case a of NullBytes _ \<Rightarrow> [] | CBytes b \<Rightarrow> b)"

section \<open>The AES engine\<close>

text \<open>The keys, salts and nonces of the random generator are arguments.\<close>

definition vault_aes_generate_key :: "bytes \<Rightarrow> ptr ffi" where
  "vault_aes_generate_key drawn = ffi_bind clear_last_error (\<lambda>_. buffer_from_vec drawn)"

definition vault_aes_generate_salt :: "bytes \<Rightarrow> ptr ffi" where
  "vault_aes_generate_salt drawn = ffi_bind clear_last_error (\<lambda>_. buffer_from_vec drawn)"

definition return_buffer :: "env \<Rightarrow> bytes VaultResult \<Rightarrow> ptr ffi" where
  "return_buffer V r =
     (case r of Inr v \<Rightarrow> buffer_from_vec v | Inl e \<Rightarrow> ffi_refuse (vault_error_text V e))"

definition vault_aes_derive_key :: "env \<Rightarrow> c_bytes \<Rightarrow> c_bytes \<Rightarrow> ptr ffi" where
  "vault_aes_derive_key V passphrase salt =
     ffi_bind clear_last_error (\<lambda>_.
     if is_null passphrase \<or> is_null salt then ffi_refuse ''Null pointer argument''
     else return_buffer V (aes_derive_key (ev_prim V) (arg_slice passphrase) (arg_slice salt)))"

definition vault_aes_create :: "env \<Rightarrow> c_bytes \<Rightarrow> ptr ffi" where
  "vault_aes_create V key =
     ffi_bind clear_last_error (\<lambda>_.
     if is_null key then ffi_refuse ''Null key pointer''
     else case aes_engine_new (ev_prim V) (ev_hash V) (arg_slice key) of
       Inr engine \<Rightarrow> new_block (AesBlock engine)
     | Inl e \<Rightarrow> ffi_refuse (vault_error_text V e))"

definition vault_aes_free :: "ptr \<Rightarrow> unit ffi" where
  "vault_aes_free p =
     (if p = 0 then ffi_return ()
      else ffi_bind (take_block p) (\<lambda>b. case b of AesBlock _ \<Rightarrow> ffi_return () | _ \<Rightarrow> ffi_undefined))"

definition with_aes :: "ptr \<Rightarrow> (AesEncryptionEngine \<Rightarrow> ptr ffi) \<Rightarrow> ptr ffi" where
  "with_aes p f = ffi_bind (read_block p) (\<lambda>b. case b of AesBlock e \<Rightarrow> f e | _ \<Rightarrow> ffi_undefined)"

definition vault_aes_encrypt :: "env \<Rightarrow> bytes \<Rightarrow> ptr \<Rightarrow> c_bytes \<Rightarrow> ptr ffi" where
  "vault_aes_encrypt V drawn_nonce engine plaintext =
     ffi_bind clear_last_error (\<lambda>_.
     if engine = 0 \<or> is_null plaintext then ffi_refuse ''Null pointer argument''
     else with_aes engine (\<lambda>e. return_buffer V (aes_encrypt e drawn_nonce (arg_slice plaintext))))"

definition vault_aes_decrypt :: "env \<Rightarrow> ptr \<Rightarrow> c_bytes \<Rightarrow> ptr ffi" where
  "vault_aes_decrypt V engine ciphertext =
     ffi_bind clear_last_error (\<lambda>_.
     if engine = 0 \<or> is_null ciphertext then ffi_refuse ''Null pointer argument''
     else with_aes engine (\<lambda>e. return_buffer V (aes_decrypt e (arg_slice ciphertext))))"

section \<open>The chunker\<close>

definition vault_chunker_create :: "env \<Rightarrow> ptr ffi" where
  "vault_chunker_create V =
     ffi_bind clear_last_error (\<lambda>_. new_block (ChunkerBlock (engine_new (ev_hash V) default_config)))"

definition vault_chunker_create_custom :: "env \<Rightarrow> nat \<Rightarrow> nat \<Rightarrow> nat \<Rightarrow> ptr ffi" where
  "vault_chunker_create_custom V mn avg mx =
     ffi_bind clear_last_error (\<lambda>_.
     case config_new mn avg mx of
       Inl p \<Rightarrow> (\<lambda>s. Aborts p)
     | Inr config \<Rightarrow> new_block (ChunkerBlock (engine_new (ev_hash V) config)))"

definition vault_chunker_free :: "ptr \<Rightarrow> unit ffi" where
  "vault_chunker_free p =
     (if p = 0 then ffi_return ()
      else ffi_bind (take_block p) (\<lambda>b. case b of ChunkerBlock _ \<Rightarrow> ffi_return () | _ \<Rightarrow> ffi_undefined))"

definition chunk_info :: "Chunk \<Rightarrow> VaultChunkInfo ffi" where
  "chunk_info c =
     ffi_bind (c_string_unwrap (ck_hash c)) (\<lambda>hash.
     ffi_return \<lparr>vi_hash = hash, vi_size = ck_size c, vi_offset = ck_offset c\<rparr>)"

definition chunk_list :: "Chunk list \<Rightarrow> ptr ffi" where
  "chunk_list chunks =
     ffi_bind (ffi_map chunk_info chunks) (\<lambda>infos.
     ffi_bind (ffi_map (\<lambda>c. buffer_from_vec (ck_data c)) chunks) (\<lambda>buffers.
     ffi_bind (new_block (InfoBlock infos)) (\<lambda>i.
     ffi_bind (new_block (PtrBlock buffers)) (\<lambda>d.
     new_block (ListBlock \<lparr>vl_chunks = i, vl_count = length chunks, vl_data = d\<rparr>)))))"

definition vault_chunker_chunk :: "env \<Rightarrow> ptr \<Rightarrow> c_bytes \<Rightarrow> ptr ffi" where
  "vault_chunker_chunk V engine dat =
     ffi_bind clear_last_error (\<lambda>_.
     if engine = 0 \<or> is_null dat \<and> 0 < data_len dat then ffi_refuse ''Null pointer argument''
     else ffi_bind (read_block engine) (\<lambda>b. case b of
         ChunkerBlock e \<Rightarrow> (case chunk_data (ev_hash V) e (arg_slice dat) of
             None \<Rightarrow> (\<lambda>s. Diverges)
           | Some (Inl p) \<Rightarrow> (\<lambda>s. Aborts p)
           | Some (Inr chunks) \<Rightarrow> chunk_list chunks)
       | _ \<Rightarrow> ffi_undefined))"

definition free_hash :: "ptr \<Rightarrow> nat \<Rightarrow> unit ffi" where
  "free_hash infos i =
     ffi_bind (read_block infos) (\<lambda>b. case b of
         InfoBlock is \<Rightarrow> if i < length is then vault_error_free (vi_hash (is ! i)) else ffi_undefined
       | _ \<Rightarrow> ffi_undefined)"

definition free_data :: "ptr \<Rightarrow> nat \<Rightarrow> unit ffi" where
  "free_data dat i =
     ffi_bind (read_block dat) (\<lambda>b. case b of
         PtrBlock ps \<Rightarrow> if i < length ps then vault_buffer_free (ps ! i) else ffi_undefined
       | _ \<Rightarrow> ffi_undefined)"

definition free_arrays :: "VaultChunkList \<Rightarrow> unit ffi" where
  "free_arrays l =
     ffi_bind (take_block (vl_chunks l)) (\<lambda>b. case b of
         InfoBlock is \<Rightarrow> if length is = vl_count l
           then ffi_bind (take_block (vl_data l)) (\<lambda>c. case c of
               PtrBlock ps \<Rightarrow> if length ps = vl_count l then ffi_return () else ffi_undefined
             | _ \<Rightarrow> ffi_undefined)
           else ffi_undefined
       | _ \<Rightarrow> ffi_undefined)"

definition vault_chunk_list_free :: "ptr \<Rightarrow> unit ffi" where
  "vault_chunk_list_free p =
     (if p = 0 then ffi_return ()
      else ffi_bind (take_block p) (\<lambda>b. case b of
          ListBlock l \<Rightarrow>
            ffi_bind (ffi_map (free_hash (vl_chunks l)) [0..<vl_count l]) (\<lambda>_.
            ffi_bind (ffi_map (free_data (vl_data l)) [0..<vl_count l]) (\<lambda>_. free_arrays l))
        | _ \<Rightarrow> ffi_undefined))"

definition vault_compute_hash :: "env \<Rightarrow> c_bytes \<Rightarrow> ptr ffi" where
  "vault_compute_hash V dat =
     ffi_bind clear_last_error (\<lambda>_.
     if is_null dat \<and> 0 < data_len dat then ffi_refuse ''Null pointer argument''
     else c_string_unwrap (compute_hash (ev_hash V) (arg_slice dat)))"

end
