(* ===== verification/Ffi_Triples.thy ===== *)
theory Ffi_Triples
  imports Ffi
begin

text \<open>
  Assertions on the heap behind the C interface, with a separating conjunction. \<open>triple t P c Q\<close>
  says of a function \<open>c\<close> that from any heap that holds \<open>P\<close> and anything else apart from it, it
  does nothing undefined and leaves \<open>Q\<close> and that rest; with \<open>t\<close> also that it returns.
\<close>

section \<open>Assertions\<close>

type_synonym assertion = "heap \<Rightarrow> bool"

definition emp :: assertion where
  "emp h \<longleftrightarrow> h = Map.empty"

definition cell :: "ptr \<Rightarrow> block \<Rightarrow> assertion" where
  "cell p b h \<longleftrightarrow> p \<noteq> 0 \<and> h = [p \<mapsto> b]"

definition sep :: "assertion \<Rightarrow> assertion \<Rightarrow> assertion" where
  "sep P Q h \<longleftrightarrow> (\<exists>h1 h2. dom h1 \<inter> dom h2 = {} \<and> h = h1 ++ h2 \<and> P h1 \<and> Q h2)"

definition sep_list :: "assertion list \<Rightarrow> assertion" where
  "sep_list Ps = foldr sep Ps emp"

lemma sep_comm: "sep P Q = sep Q P"
  unfolding sep_def by (intro ext) (metis map_add_comm inf_commute)

lemma sep_assoc: "sep (sep P Q) R = sep P (sep Q R)"
proof (intro ext iffI)
  fix h assume "sep (sep P Q) R h"
  then obtain a b c where "dom (a ++ b) \<inter> dom c = {}" "h = (a ++ b) ++ c" "dom a \<inter> dom b = {}"
    "P a" "Q b" "R c" unfolding sep_def by blast
  then have "dom a \<inter> dom (b ++ c) = {}" "h = a ++ (b ++ c)" "dom b \<inter> dom c = {}" by auto
  with \<open>P a\<close> \<open>Q b\<close> \<open>R c\<close> show "sep P (sep Q R) h" unfolding sep_def by blast
next
  fix h assume "sep P (sep Q R) h"
  then obtain a b c where "dom a \<inter> dom (b ++ c) = {}" "h = a ++ (b ++ c)" "dom b \<inter> dom c = {}"
    "P a" "Q b" "R c" unfolding sep_def by blast
  then have "dom (a ++ b) \<inter> dom c = {}" "h = (a ++ b) ++ c" "dom a \<inter> dom b = {}" by auto
  with \<open>P a\<close> \<open>Q b\<close> \<open>R c\<close> show "sep (sep P Q) R h" unfolding sep_def by blast
qed

lemma sep_left_comm: "sep P (sep Q R) = sep Q (sep P R)"
  by (metis sep_assoc sep_comm)

lemmas sep_ac = sep_assoc sep_comm sep_left_comm

lemma sep_emp [simp]: "sep emp P = P" "sep P emp = P"
proof -
  show "sep emp P = P" by (intro ext) (auto simp: sep_def emp_def)
  then show "sep P emp = P" by (simp add: sep_comm)
qed

lemma sep_ex: "sep (\<lambda>h. \<exists>x. P x h) R h \<longleftrightarrow> (\<exists>x. sep (P x) R h)"
  unfolding sep_def by blast

lemma sep_pure: "sep (\<lambda>h. b \<and> P h) R h \<longleftrightarrow> b \<and> sep P R h" "sep R (\<lambda>h. b \<and> P h) h \<longleftrightarrow> b \<and> sep R P h"
  unfolding sep_def by blast+

lemma sep_pure_fun: "sep (\<lambda>h. b \<and> P h) R = (\<lambda>h. b \<and> sep P R h)" "sep R (\<lambda>h. b \<and> P h) = (\<lambda>h. b \<and> sep R P h)"
  by (intro ext, rule sep_pure)+

lemma sep_list_simps [simp]:
  "sep_list [] = emp"
  "sep_list (P # Ps) = sep P (sep_list Ps)"
  by (simp_all add: sep_list_def)

lemma sep_list_append [simp]: "sep_list (Ps @ Qs) = sep (sep_list Ps) (sep_list Qs)"
  by (induction Ps) (simp_all add: sep_assoc)

lemma sep_cell: "sep (cell p b) R h \<longleftrightarrow> p \<noteq> 0 \<and> h p = Some b \<and> R (h(p := None))"
proof
  assume "sep (cell p b) R h"
  then obtain h2 where "p \<noteq> 0" "p \<notin> dom h2" "h = [p \<mapsto> b] ++ h2" "R h2"
    by (auto simp: sep_def cell_def)
  then have "h(p := None) = h2" "h p = Some b" by (auto simp: fun_eq_iff map_add_def split: option.split)
  with \<open>p \<noteq> 0\<close> \<open>R h2\<close> show "p \<noteq> 0 \<and> h p = Some b \<and> R (h(p := None))" by simp
next
  assume h: "p \<noteq> 0 \<and> h p = Some b \<and> R (h(p := None))"
  then have "h = [p \<mapsto> b] ++ h(p := None)" by (auto simp: fun_eq_iff map_add_def split: option.split)
  with h show "sep (cell p b) R h"
    unfolding sep_def cell_def by (intro exI [of _ "[p \<mapsto> b]"] exI [of _ "h(p := None)"]) auto
qed

lemma sep_list_member: "x \<in> set xs \<Longrightarrow> sep_list (map F xs) = sep (F x) (sep_list (map F (remove1 x xs)))"
proof (induction xs)
  case (Cons y ys)
  show ?case
  proof (cases "x = y")
    case False
    with Cons have "sep_list (map F ys) = sep (F x) (sep_list (map F (remove1 x ys)))" by simp
    with False show ?thesis by (simp add: sep_left_comm)
  qed simp
qed simp

lemma sep_list_part: "sep_list Ps h \<Longrightarrow> P \<in> set Ps \<Longrightarrow> \<exists>R. sep P R h"
  using sep_list_member [of P Ps "\<lambda>P. P"] by auto

lemma sep_list_cell: "sep_list Ps h \<Longrightarrow> cell p b \<in> set Ps \<Longrightarrow> h p = Some b"
  using sep_list_part [of Ps h "cell p b"] by (auto simp: sep_cell)

section \<open>Triples\<close>

definition fresh :: "ffi_state \<Rightarrow> bool" where
  "fresh s \<longleftrightarrow> 0 < ff_next s \<and> (\<forall>p \<in> dom (ff_heap s). 0 < p \<and> p < ff_next s)"

definition triple :: "bool \<Rightarrow> assertion \<Rightarrow> 'a ffi \<Rightarrow> ('a \<Rightarrow> assertion) \<Rightarrow> bool" where
  "triple t P c Q \<longleftrightarrow>
     (\<forall>s R. fresh s \<and> sep P R (ff_heap s) \<longrightarrow>
        (case c s of
           Returns (x, s') \<Rightarrow> fresh s' \<and> sep (Q x) R (ff_heap s')
         | Undefined \<Rightarrow> False
         | _ \<Rightarrow> \<not> t))"

lemma triple_run:
  assumes "triple t P c Q" and "fresh s" and "sep P R (ff_heap s)"
  shows "case c s of Returns (x, s') \<Rightarrow> fresh s' \<and> sep (Q x) R (ff_heap s') | Undefined \<Rightarrow> False | _ \<Rightarrow> \<not> t"
  using assms unfolding triple_def by blast

lemma triple_result:
  assumes "triple t P c Q" and "fresh s" and "sep P R (ff_heap s)" and "c s = Returns (x, s')"
  shows "fresh s' \<and> sep (Q x) R (ff_heap s')"
  using triple_run [OF assms(1-3)] assms(4) by simp

lemma triple_defined: "triple t P c Q \<Longrightarrow> fresh s \<Longrightarrow> sep P R (ff_heap s) \<Longrightarrow> c s \<noteq> Undefined"
  using triple_run [of t P c Q s R] by auto

lemma triple_returns:
  assumes "triple True P c Q" and "fresh s" and "sep P R (ff_heap s)"
  obtains x s' where "c s = Returns (x, s')" and "fresh s'" and "sep (Q x) R (ff_heap s')"
  using triple_run [OF assms] by (cases "c s") auto

lemma triple_bind:
  assumes "triple t P m Q" and "\<And>x. triple t (Q x) (f x) S"
  shows "triple t P (ffi_bind m f) S"
  unfolding triple_def
proof (intro allI impI)
  fix s R assume s: "fresh s \<and> sep P R (ff_heap s)"
  with assms(1) have m: "case m s of Returns (x, s') \<Rightarrow> fresh s' \<and> sep (Q x) R (ff_heap s')
      | Undefined \<Rightarrow> False | _ \<Rightarrow> \<not> t" unfolding triple_def by blast
  show "case ffi_bind m f s of Returns (x, s') \<Rightarrow> fresh s' \<and> sep (S x) R (ff_heap s')
      | Undefined \<Rightarrow> False | _ \<Rightarrow> \<not> t"
  proof (cases "m s")
    case (Returns xs)
    obtain x s' where "xs = (x, s')" by (rule prod.exhaust)
    with m Returns assms(2) [of x] show ?thesis by (auto simp: ffi_bind_def triple_def)
  qed (use m in \<open>simp_all add: ffi_bind_def\<close>)
qed

lemma triple_frame: "triple t P c Q \<Longrightarrow> triple t (sep P F) c (\<lambda>x. sep (Q x) F)"
  unfolding triple_def sep_assoc by blast

lemma sep_mono: "sep P R h \<Longrightarrow> (\<And>h. P h \<Longrightarrow> Q h) \<Longrightarrow> sep Q R h"
  unfolding sep_def by blast

lemma triple_return: "(\<And>h. P h \<Longrightarrow> Q x h) \<Longrightarrow> triple t P (ffi_return x) Q"
  by (auto simp: triple_def ffi_return_def elim: sep_mono)

lemma triple_ex: "(\<And>x. triple t (P x) c Q) \<Longrightarrow> triple t (\<lambda>h. \<exists>x. P x h) c Q"
  unfolding triple_def by (simp add: sep_ex) blast

lemma triple_pure: "(b \<Longrightarrow> triple t P c Q) \<Longrightarrow> triple t (\<lambda>h. b \<and> P h) c Q"
  unfolding triple_def by (simp add: sep_pure)

lemma triple_post: "triple t P c Q \<Longrightarrow> (\<And>x h. Q x h \<Longrightarrow> S x h) \<Longrightarrow> triple t P c S"
proof -
  assume c: "triple t P c Q" and Q: "\<And>x h. Q x h \<Longrightarrow> S x h"
  have "case c s of Returns (x, s') \<Rightarrow> fresh s' \<and> sep (S x) R (ff_heap s')
      | Undefined \<Rightarrow> False | _ \<Rightarrow> \<not> t" if "fresh s \<and> sep P R (ff_heap s)" for s R
  proof -
    have "case c s of Returns (x, s') \<Rightarrow> fresh s' \<and> sep (Q x) R (ff_heap s')
        | Undefined \<Rightarrow> False | _ \<Rightarrow> \<not> t" using c that unfolding triple_def by blast
    then show ?thesis by (cases "c s") (auto elim: sep_mono Q)
  qed
  then show "triple t P c S" unfolding triple_def by blast
qed

lemma triple_error: "ff_heap (f s) = ff_heap s \<Longrightarrow> ff_next (f s) = ff_next s \<Longrightarrow> fresh (f s) = fresh s"
  by (simp add: fresh_def)

lemma triple_clear: "triple t P c Q \<Longrightarrow> triple t P (ffi_bind clear_last_error (\<lambda>_. c)) Q"
  by (rule triple_bind [where Q = "\<lambda>_. P"]) (simp_all add: triple_def clear_last_error_def fresh_def)

lemma triple_new: "triple t P (new_block b) (\<lambda>p. sep (cell p b) P)"
proof -
  have "sep (cell p b) Q (h(p \<mapsto> b))" if "Q h" "p \<noteq> 0" "h p = None" for p Q h
  proof -
    have "(h(p \<mapsto> b))(p := None) = h" using that by (simp add: fun_eq_iff)
    then show ?thesis using that by (simp add: sep_cell)
  qed
  moreover have "ff_heap s (ff_next s) = None" "ff_next s \<noteq> 0" if "fresh s" for s
    using that by (auto simp: fresh_def)
  ultimately show ?thesis
    by (auto simp: triple_def new_block_def sep_assoc fresh_def intro: less_SucI)
qed

lemma triple_new_bind:
  "(\<And>p. triple t (sep (cell p b) P) (f p) S) \<Longrightarrow> triple t P (ffi_bind (new_block b) f) S"
  by (rule triple_bind [OF triple_new])

lemma triple_take:
  assumes "triple t P (f b) S"
  shows "triple t (sep (cell p b) P) (ffi_bind (take_block p) f) S"
proof -
  have "fresh (s\<lparr>ff_heap := (ff_heap s)(p := None)\<rparr>)" if "fresh s" for s
    using that by (auto simp: fresh_def)
  with assms show ?thesis
    by (auto simp: triple_def sep_assoc sep_cell ffi_bind_def take_block_def)
qed

lemma triple_read:
  assumes "triple t (sep (cell p b) P) (f b) S"
  shows "triple t (sep (cell p b) P) (ffi_bind (read_block p) f) S"
  using assms by (auto simp: triple_def sep_assoc sep_cell ffi_bind_def read_block_def)

lemma triple_take1: "triple t emp (f b) S \<Longrightarrow> triple t (cell p b) (ffi_bind (take_block p) f) S"
  using triple_take [of t emp f b S p] by simp

lemma triple_nonnull:
  "(p \<noteq> 0 \<Longrightarrow> triple t (sep (cell p b) P) c Q) \<Longrightarrow> triple t (sep (cell p b) P) c Q"
  unfolding triple_def sep_assoc sep_cell by blast

lemma triple_nonnull1: "(p \<noteq> 0 \<Longrightarrow> triple t (cell p b) c Q) \<Longrightarrow> triple t (cell p b) c Q"
  using triple_nonnull [of p t b emp c Q] by simp

lemma ffi_bind_assoc: "ffi_bind (ffi_bind m f) g = ffi_bind m (\<lambda>x. ffi_bind (f x) g)"
  by (auto simp: fun_eq_iff ffi_bind_def split: outcome.splits)

lemma ffi_return_bind: "ffi_bind (ffi_return x) f = f x"
  by (simp add: fun_eq_iff ffi_bind_def ffi_return_def)

lemma triple_refuse: "triple t P (ffi_refuse msg) (\<lambda>p h. p = 0 \<and> P h)"
  by (simp add: triple_def ffi_refuse_def ffi_bind_def set_last_error_def ffi_return_def fresh_def)

text \<open>Loops.\<close>

lemma triple_map_make:
  assumes "\<And>x. x \<in> set xs \<Longrightarrow> triple t emp (f x) (\<lambda>y. A y x)"
  shows "triple t emp (ffi_map f xs) (\<lambda>ys h. length ys = length xs \<and> sep_list (map2 A ys xs) h)"
  using assms
proof (induction xs)
  case Nil
  then show ?case by (simp add: triple_return)
next
  case (Cons x xs)
  have step: "triple t (A y x) (ffi_bind (ffi_map f xs) (\<lambda>ys. ffi_return (y # ys)))
      (\<lambda>zs h. length zs = length (x # xs) \<and> sep_list (map2 A zs (x # xs)) h)" for y
  proof (rule triple_bind)
    show "triple t (A y x) (ffi_map f xs)
        (\<lambda>ys. sep (\<lambda>h. length ys = length xs \<and> sep_list (map2 A ys xs) h) (A y x))"
      using triple_frame [OF Cons.IH [OF Cons.prems], of "A y x"] by simp
    show "triple t (sep (\<lambda>h. length ys = length xs \<and> sep_list (map2 A ys xs) h) (A y x))
        (ffi_return (y # ys)) (\<lambda>zs h. length zs = length (x # xs) \<and> sep_list (map2 A zs (x # xs)) h)" for ys
      by (rule triple_return) (simp add: sep_pure sep_comm [of _ "A y x"])
  qed
  show ?case
    unfolding ffi_map.simps by (rule triple_bind [OF _ step]) (rule Cons.prems, simp)
qed

lemma triple_map_free:
  assumes "\<And>k. k \<in> set ks \<Longrightarrow> triple t (sep (A k) P) (f k) (\<lambda>_. P)"
  shows "triple t (sep (sep_list (map A ks)) P) (ffi_map f ks) (\<lambda>_. P)"
  using assms
proof (induction ks)
  case Nil
  then show ?case by (simp add: triple_return)
next
  case (Cons k ks)
  have "triple t (sep (sep_list (map A ks)) (sep (A k) P)) (f k) (\<lambda>_. sep (sep_list (map A ks)) P)"
    using triple_frame [OF Cons.prems [of k], of "sep_list (map A ks)"] by (simp add: sep_ac)
  moreover have "triple t (sep (sep_list (map A ks)) P) (ffi_bind (ffi_map f ks) (\<lambda>ys. ffi_return (y # ys)))
      (\<lambda>_. P)" for y
    by (rule triple_bind [OF Cons.IH triple_return]) (simp_all add: Cons.prems)
  ultimately show ?case
    by (simp add: sep_ac) (rule triple_bind, assumption, simp add: sep_ac)
qed

lemma map2_nth: "length xs = length ys \<Longrightarrow> map2 f xs ys = map (\<lambda>k. f (xs ! k) (ys ! k)) [0..<length ys]"
  by (rule nth_equalityI) simp_all

lemma triple_make_bind:
  assumes "triple t emp m Q" and "\<And>x. triple t (sep (Q x) P) (f x) S"
  shows "triple t P (ffi_bind m f) S"
proof (rule triple_bind)
  show "triple t P m (\<lambda>x. sep (Q x) P)" using triple_frame [OF assms(1), of P] by simp
qed (rule assms(2))

lemma triple_frame_eq:
  assumes "triple t P c Q" and "P' = sep P F" and "\<And>x. Q' x = sep (Q x) F"
  shows "triple t P' c Q'"
proof -
  have "Q' = (\<lambda>x. sep (Q x) F)" by (rule ext) (rule assms(3))
  then show ?thesis using triple_frame [OF assms(1), of F] by (simp only: assms(2))
qed

lemma triple_read1: "triple t (sep (cell p b) P) (f b) S \<Longrightarrow> triple t (sep P (cell p b)) (ffi_bind (read_block p) f) S"
  using triple_read [of t p b P f S] by (simp only: sep_comm)

end
