(* ===== verification/Ffi_Laws.thy ===== *)
theory Ffi_Laws
  imports Ffi_Triples Chunking_Laws Chunk_Encryption_Laws
begin

text \<open>
  What the C interface promises: a client that frees what it was given, once and by the function
  for it, never meets undefined behaviour and leaks nothing; and what it reads through the
  returned pointers is what the Rust functions computed.
\<close>

section \<open>What the pointers own\<close>

definition buffer :: "ptr \<Rightarrow> bytes \<Rightarrow> assertion" where
  "buffer p v = (\<lambda>h. \<exists>d. sep (cell p (BufferBlock \<lparr>vb_data = d, vb_len = length v, vb_capacity = length v\<rparr>))
                           (cell d (BytesBlock v)) h)"

definition info_of :: "ptr \<Rightarrow> Chunk \<Rightarrow> VaultChunkInfo" where
  "info_of p c = \<lparr>vi_hash = p, vi_size = ck_size c, vi_offset = ck_offset c\<rparr>"

definition hashes_of :: "ptr list \<Rightarrow> Chunk list \<Rightarrow> assertion" where
  "hashes_of ps cs = sep_list (map2 (\<lambda>p c. cell p (StringBlock (ck_hash c))) ps cs)"

definition buffers_of :: "ptr list \<Rightarrow> Chunk list \<Rightarrow> assertion" where
  "buffers_of qs cs = sep_list (map2 (\<lambda>q c. buffer q (ck_data c)) qs cs)"

definition list_layout :: "ptr \<Rightarrow> Chunk list \<Rightarrow> ptr \<times> ptr \<times> ptr list \<times> ptr list \<Rightarrow> assertion" where
  "list_layout p cs x = (case x of (i, d, ps, qs) \<Rightarrow> (\<lambda>h. (length ps = length cs \<and> length qs = length cs) \<and>
     sep (cell p (ListBlock \<lparr>vl_chunks = i, vl_count = length cs, vl_data = d\<rparr>))
       (sep (cell i (InfoBlock (map2 info_of ps cs)))
         (sep (cell d (PtrBlock qs)) (sep (hashes_of ps cs) (buffers_of qs cs)))) h))"

definition chunks_at :: "ptr \<Rightarrow> Chunk list \<Rightarrow> assertion" where
  "chunks_at p cs = (\<lambda>h. \<exists>x. list_layout p cs x h)"

lemma buffer_from_vec_triple: "triple t emp (buffer_from_vec v) (\<lambda>p. buffer p v)"
  unfolding buffer_from_vec_def
  by (rule triple_new_bind, rule triple_post [OF triple_new]) (auto simp: buffer_def)

lemma vault_buffer_free_triple: "triple t (buffer p v) (vault_buffer_free p) (\<lambda>_. emp)"
  unfolding buffer_def
proof (rule triple_ex, rule triple_nonnull)
  fix d assume "p \<noteq> 0"
  then show "triple t (sep (cell p (BufferBlock \<lparr>vb_data = d, vb_len = length v, vb_capacity = length v\<rparr>))
      (cell d (BytesBlock v))) (vault_buffer_free p) (\<lambda>_. emp)"
    by (simp add: vault_buffer_free_def buffer_into_vec_def ffi_bind_assoc)
       (rule triple_take, simp add: ffi_bind_assoc, rule triple_take1, simp add: ffi_return_bind triple_return)
qed

lemma free_string_triple: "triple t (cell p (StringBlock x)) (vault_error_free p) (\<lambda>_. emp)"
proof (rule triple_nonnull1)
  assume "p \<noteq> 0"
  then show "triple t (cell p (StringBlock x)) (vault_error_free p) (\<lambda>_. emp)"
    by (simp add: vault_error_free_def) (rule triple_take1, simp add: triple_return)
qed

lemma free_aes_triple: "triple t (cell p (AesBlock x)) (vault_aes_free p) (\<lambda>_. emp)"
proof (rule triple_nonnull1)
  assume "p \<noteq> 0"
  then show "triple t (cell p (AesBlock x)) (vault_aes_free p) (\<lambda>_. emp)"
    by (simp add: vault_aes_free_def) (rule triple_take1, simp add: triple_return)
qed

lemma free_chunker_triple: "triple t (cell p (ChunkerBlock x)) (vault_chunker_free p) (\<lambda>_. emp)"
proof (rule triple_nonnull1)
  assume "p \<noteq> 0"
  then show "triple t (cell p (ChunkerBlock x)) (vault_chunker_free p) (\<lambda>_. emp)"
    by (simp add: vault_chunker_free_def) (rule triple_take1, simp add: triple_return)
qed

lemma c_string_unwrap_triple:
  assumes "t \<Longrightarrow> CHR 0x00 \<notin> set x"
  shows "triple t emp (c_string_unwrap x) (\<lambda>p. cell p (StringBlock x))"
  using assms triple_new [of t emp "StringBlock x"] by (auto simp: c_string_unwrap_def triple_def)

definition info_at :: "VaultChunkInfo \<Rightarrow> Chunk \<Rightarrow> assertion" where
  "info_at y c = (\<lambda>h. y = info_of (vi_hash y) c \<and> cell (vi_hash y) (StringBlock (ck_hash c)) h)"

lemma chunk_info_triple:
  assumes "t \<Longrightarrow> CHR 0x00 \<notin> set (ck_hash c)"
  shows "triple t emp (chunk_info c) (\<lambda>y. info_at y c)"
  unfolding chunk_info_def
  by (rule triple_bind [OF c_string_unwrap_triple [OF assms]])
     (auto simp: info_at_def info_of_def intro: triple_return)

lemma infos_at:
  assumes "length ys = length cs" and "sep_list (map2 info_at ys cs) h"
  shows "ys = map2 info_of (map vi_hash ys) cs \<and> hashes_of (map vi_hash ys) cs h"
  using assms
proof (induction ys cs arbitrary: h rule: list_induct2)
  case Nil
  then show ?case by (simp add: hashes_of_def)
next
  case (Cons y ys c cs)
  let ?C = "cell (vi_hash y) (StringBlock (ck_hash c))"
  from Cons.prems have "sep (info_at y c) (sep_list (map2 info_at ys cs)) h" by simp
  then have y: "y = info_of (vi_hash y) c" and "sep ?C (sep_list (map2 info_at ys cs)) h"
    unfolding info_at_def sep_pure by blast+
  then have h: "sep (sep_list (map2 info_at ys cs)) ?C h" by (simp only: sep_comm)
  from h obtain g where "sep_list (map2 info_at ys cs) g" unfolding sep_def by blast
  then have ys: "ys = map2 info_of (map vi_hash ys) cs" using Cons.IH by blast
  have "sep (hashes_of (map vi_hash ys) cs) ?C h"
    by (rule sep_mono [OF h]) (use Cons.IH in blast)
  then have "sep ?C (hashes_of (map vi_hash ys) cs) h" by (simp only: sep_comm)
  then show ?case using y ys by (simp add: hashes_of_def)
qed

lemma chunk_list_triple:
  assumes "\<And>c. t \<Longrightarrow> c \<in> set cs \<Longrightarrow> CHR 0x00 \<notin> set (ck_hash c)"
  shows "triple t emp (chunk_list cs) (\<lambda>p. chunks_at p cs)"
  unfolding chunk_list_def
proof (rule triple_make_bind [OF triple_map_make])
  show "triple t emp (chunk_info c) (\<lambda>y. info_at y c)" if "c \<in> set cs" for c
    by (rule chunk_info_triple) (rule assms [OF _ that])
  fix ys
  have "triple t (sep (\<lambda>h. length qs = length cs \<and> buffers_of qs cs h)
        (\<lambda>h. length ys = length cs \<and> sep_list (map2 info_at ys cs) h))
      (ffi_bind (new_block (InfoBlock ys)) (\<lambda>i. ffi_bind (new_block (PtrBlock qs)) (\<lambda>d.
         new_block (ListBlock \<lparr>vl_chunks = i, vl_count = length cs, vl_data = d\<rparr>))))
      (\<lambda>p. chunks_at p cs)" for qs
  proof (rule triple_new_bind, rule triple_new_bind, rule triple_post [OF triple_new])
    fix i d p h
    assume h: "sep (cell p (ListBlock \<lparr>vl_chunks = i, vl_count = length cs, vl_data = d\<rparr>))
        (sep (cell d (PtrBlock qs)) (sep (cell i (InfoBlock ys))
          (sep (\<lambda>h. length qs = length cs \<and> buffers_of qs cs h)
            (\<lambda>h. length ys = length cs \<and> sep_list (map2 info_at ys cs) h)))) h"
    let ?C = "sep (cell p (ListBlock \<lparr>vl_chunks = i, vl_count = length cs, vl_data = d\<rparr>))
        (sep (cell d (PtrBlock qs)) (sep (cell i (InfoBlock ys)) (buffers_of qs cs)))"
    have len: "length qs = length cs" "length ys = length cs"
      and h': "sep (sep_list (map2 info_at ys cs)) ?C h"
      using h unfolding sep_pure_fun by (simp_all only: sep_ac)
    from h' obtain g where "sep_list (map2 info_at ys cs) g" unfolding sep_def by blast
    then have ys: "ys = map2 info_of (map vi_hash ys) cs" using infos_at [OF len(2)] by blast
    have "sep (hashes_of (map vi_hash ys) cs) ?C h"
      by (rule sep_mono [OF h']) (use infos_at [OF len(2)] in blast)
    then have "list_layout p cs (i, d, map vi_hash ys, qs) h"
      using ys len by (simp add: list_layout_def sep_ac)
    then show "chunks_at p cs h" unfolding chunks_at_def by blast
  qed
  then show "triple t (sep (\<lambda>h. length ys = length cs \<and> sep_list (map2 info_at ys cs) h) emp)
      (ffi_bind (ffi_map (\<lambda>c. buffer_from_vec (ck_data c)) cs) (\<lambda>buffers.
         ffi_bind (new_block (InfoBlock ys)) (\<lambda>i. ffi_bind (new_block (PtrBlock buffers)) (\<lambda>d.
           new_block (ListBlock \<lparr>vl_chunks = i, vl_count = length cs, vl_data = d\<rparr>)))))
      (\<lambda>p. chunks_at p cs)"
    unfolding sep_emp buffers_of_def
    by (intro triple_make_bind [OF triple_map_make [OF buffer_from_vec_triple]])
qed

text \<open>Freeing a list: the loops over its two arrays, then the arrays.\<close>

lemma free_hashes_triple:
  assumes "length ps = length cs"
  shows "triple t (sep (hashes_of ps cs) (cell i (InfoBlock (map2 info_of ps cs))))
    (ffi_map (free_hash i) [0..<length cs]) (\<lambda>_. cell i (InfoBlock (map2 info_of ps cs)))"
  unfolding hashes_of_def map2_nth [OF assms, of "\<lambda>p c. cell p (StringBlock (ck_hash c))"]
proof (rule triple_map_free)
  fix k assume "k \<in> set [0..<length cs]"
  then have "k < length (map2 info_of ps cs)" "vi_hash (map2 info_of ps cs ! k) = ps ! k"
    using assms by (simp_all add: info_of_def)
  then show "triple t (sep (cell (ps ! k) (StringBlock (ck_hash (cs ! k)))) (cell i (InfoBlock (map2 info_of ps cs))))
      (free_hash i k) (\<lambda>_. cell i (InfoBlock (map2 info_of ps cs)))"
    unfolding free_hash_def
    by (intro triple_read1)
       (simp, rule triple_frame_eq [OF free_string_triple [of t "ps ! k" "ck_hash (cs ! k)"]], rule sep_comm, simp)
qed

lemma free_buffers_triple:
  assumes "length qs = length cs"
  shows "triple t (sep (buffers_of qs cs) (cell d (PtrBlock qs)))
    (ffi_map (free_data d) [0..<length cs]) (\<lambda>_. cell d (PtrBlock qs))"
  unfolding buffers_of_def map2_nth [OF assms]
proof (rule triple_map_free)
  fix k assume "k \<in> set [0..<length cs]"
  then have "k < length qs" using assms by simp
  then show "triple t (sep (buffer (qs ! k) (ck_data (cs ! k))) (cell d (PtrBlock qs)))
      (free_data d k) (\<lambda>_. cell d (PtrBlock qs))"
    unfolding free_data_def
    by (intro triple_read1)
       (simp, rule triple_frame_eq [OF vault_buffer_free_triple [of t "qs ! k" "ck_data (cs ! k)"]], rule sep_comm, simp)
qed

lemma chunk_list_free_triple: "triple t (chunks_at p cs) (vault_chunk_list_free p) (\<lambda>_. emp)"
  unfolding chunks_at_def
proof (rule triple_ex)
  fix x :: "ptr \<times> ptr \<times> ptr list \<times> ptr list"
  obtain i d ps qs where x: "x = (i, d, ps, qs)" by (metis prod.exhaust)
  let ?l = "\<lparr>vl_chunks = i, vl_count = length cs, vl_data = d\<rparr>"
  let ?I = "cell i (InfoBlock (map2 info_of ps cs))" and ?D = "cell d (PtrBlock qs)"
  have rest: "triple t (sep ?I (sep ?D (sep (hashes_of ps cs) (buffers_of qs cs))))
      (ffi_bind (ffi_map (free_hash i) [0..<length cs]) (\<lambda>_.
         ffi_bind (ffi_map (free_data d) [0..<length cs]) (\<lambda>_. free_arrays ?l))) (\<lambda>_. emp)"
    if len: "length ps = length cs \<and> length qs = length cs"
  proof (rule triple_bind, rule triple_frame_eq [OF free_hashes_triple])
    show "length ps = length cs" using len by simp
    show "sep ?I (sep ?D (sep (hashes_of ps cs) (buffers_of qs cs)))
        = sep (sep (hashes_of ps cs) ?I) (sep ?D (buffers_of qs cs))" by (simp only: sep_ac)
    show "triple t (sep ?I (sep ?D (buffers_of qs cs)))
        (ffi_bind (ffi_map (free_data d) [0..<length cs]) (\<lambda>_. free_arrays ?l)) (\<lambda>_. emp)"
    proof (rule triple_bind, rule triple_frame_eq [OF free_buffers_triple])
      show "length qs = length cs" using len by simp
      show "sep ?I (sep ?D (buffers_of qs cs)) = sep (sep (buffers_of qs cs) ?D) ?I" by (simp only: sep_ac)
      show "triple t (sep ?I ?D) (free_arrays ?l) (\<lambda>_. emp)"
        using len
        by (simp add: free_arrays_def)
           (rule triple_take, simp, rule triple_take1, simp add: triple_return)
    qed (simp only: sep_comm)
  qed simp
  show "triple t (list_layout p cs x) (vault_chunk_list_free p) (\<lambda>_. emp)"
    unfolding x list_layout_def prod.case
  proof (rule triple_pure, rule triple_nonnull)
    assume "length ps = length cs \<and> length qs = length cs" and "p \<noteq> 0"
    then show "triple t (sep (cell p (ListBlock ?l)) (sep ?I (sep ?D (sep (hashes_of ps cs) (buffers_of qs cs)))))
        (vault_chunk_list_free p) (\<lambda>_. emp)"
      by (simp add: vault_chunk_list_free_def) (rule triple_take, simp, rule rest)
  qed
qed

section \<open>What a client reads\<close>

definition read_string :: "heap \<Rightarrow> ptr \<Rightarrow> string option" where
  "read_string h p = (case h p of Some (StringBlock x) \<Rightarrow> Some x | _ \<Rightarrow> None)"

definition read_buffer :: "heap \<Rightarrow> ptr \<Rightarrow> bytes option" where
  "read_buffer h p =
     (case h p of
        Some (BufferBlock vb) \<Rightarrow> (case h (vb_data vb) of
            Some (BytesBlock v) \<Rightarrow> Some (take (vb_len vb) v)
          | _ \<Rightarrow> None)
      | _ \<Rightarrow> None)"

definition read_chunks_at :: "heap \<Rightarrow> ptr \<Rightarrow> (string option \<times> nat \<times> u64 \<times> bytes option) list option" where
  "read_chunks_at h p =
     (case h p of
        Some (ListBlock l) \<Rightarrow> (case (h (vl_chunks l), h (vl_data l)) of
            (Some (InfoBlock is), Some (PtrBlock qs)) \<Rightarrow>
              Some (map (\<lambda>k. (read_string h (vi_hash (is ! k)), vi_size (is ! k), vi_offset (is ! k),
                              read_buffer h (qs ! k))) [0..<vl_count l])
          | _ \<Rightarrow> None)
      | _ \<Rightarrow> None)"

lemma sep_buffer: "sep (buffer q v) R h \<Longrightarrow> read_buffer h q = Some v"
  unfolding buffer_def sep_ex sep_assoc
  by (auto simp: sep_cell read_buffer_def split: if_splits)

lemma chunks_at_read:
  assumes "sep (chunks_at p cs) R h"
  shows "read_chunks_at h p = Some (map (\<lambda>c. (Some (ck_hash c), ck_size c, ck_offset c, Some (ck_data c))) cs)"
proof -
  obtain i d ps qs where len: "length ps = length cs" "length qs = length cs" and
    h: "sep (sep (cell p (ListBlock \<lparr>vl_chunks = i, vl_count = length cs, vl_data = d\<rparr>))
       (sep (cell i (InfoBlock (map2 info_of ps cs)))
         (sep (cell d (PtrBlock qs)) (sep (hashes_of ps cs) (buffers_of qs cs))))) R h"
    using assms by (auto simp: chunks_at_def sep_ex list_layout_def sep_pure)
  let ?n = "[0..<length cs]"
  let ?Ps = "[cell p (ListBlock \<lparr>vl_chunks = i, vl_count = length cs, vl_data = d\<rparr>),
      cell i (InfoBlock (map2 info_of ps cs)), cell d (PtrBlock qs)]
    @ map (\<lambda>k. cell (ps ! k) (StringBlock (ck_hash (cs ! k)))) ?n
    @ map (\<lambda>k. buffer (qs ! k) (ck_data (cs ! k))) ?n @ [R]"
  have all: "sep_list ?Ps h"
    using h by (simp add: hashes_of_def buffers_of_def map2_nth len sep_assoc)
  have "read_string h (ps ! k) = Some (ck_hash (cs ! k))" if "k < length cs" for k
  proof -
    have "cell (ps ! k) (StringBlock (ck_hash (cs ! k))) \<in> set ?Ps" using that by simp
    from sep_list_cell [OF all this] show ?thesis by (simp add: read_string_def)
  qed
  moreover have "read_buffer h (qs ! k) = Some (ck_data (cs ! k))" if "k < length cs" for k
  proof -
    have "buffer (qs ! k) (ck_data (cs ! k)) \<in> set ?Ps" using that by simp
    from sep_list_part [OF all this] show ?thesis by (auto dest: sep_buffer)
  qed
  moreover have "h p = Some (ListBlock \<lparr>vl_chunks = i, vl_count = length cs, vl_data = d\<rparr>)"
    "h i = Some (InfoBlock (map2 info_of ps cs))" "h d = Some (PtrBlock qs)"
    using sep_list_cell [OF all] by simp_all
  ultimately show ?thesis
    by (auto simp: read_chunks_at_def info_of_def len intro!: nth_equalityI)
qed

lemma chunk_names_plain:
  assumes "valid_config (eng_config e)" and "chunk_data H e x = Some (Inr cs)" and "c \<in> set cs"
  shows "CHR 0x00 \<notin> set (ck_hash c)"
proof -
  from assms have "ck_hash c = engine_name H e (ck_data c)"
    using lay_hash chunk_data_pieces [OF assms(1), of H x] by auto
  then obtain b where "ck_hash c = hex_encode b"
    by (auto simp: engine_name_def name_with_def compute_hash_def keying_name_def split: option.splits)
  then show ?thesis using hex_encode_lower [of "CHR 0x00" b] by (auto simp: is_lower_hex_def)
qed

end
