(* ===== verification/Ffi_Sessions.thy ===== *)
theory Ffi_Sessions
  imports Ffi_Laws Pgp_Engine_Laws
begin

text \<open>
  Clients of the C interface. A client holds handles, the pointers it was given and has not freed;
  it may call any function with \<open>NULL\<close> or a handle of the right kind, and frees a handle by the
  function for its kind. What a session of such calls can do is proved from the triples.
\<close>

section \<open>Handles\<close>

datatype handle = HBuffer ptr | HString ptr | HAes ptr | HChunker ptr | HList ptr

fun holds :: "handle \<Rightarrow> assertion" where
  "holds (HBuffer p) = (\<lambda>h. \<exists>v. buffer p v h)"
| "holds (HString p) = (\<lambda>h. \<exists>x. cell p (StringBlock x) h)"
| "holds (HAes p) = (\<lambda>h. \<exists>e. cell p (AesBlock e) h)"
| "holds (HChunker p) = (\<lambda>h. \<exists>e. cell p (ChunkerBlock e) h)"
| "holds (HList p) = (\<lambda>h. \<exists>cs. chunks_at p cs h)"

definition holding :: "handle list \<Rightarrow> assertion" where
  "holding hs = sep_list (map holds hs)"

definition new_handle :: "(ptr \<Rightarrow> handle) \<Rightarrow> ptr \<Rightarrow> handle list \<Rightarrow> handle list" where
  "new_handle K r hs = (if r = 0 then hs else K r # hs)"

definition freed_handle :: "(ptr \<Rightarrow> handle) \<Rightarrow> ptr \<Rightarrow> handle list \<Rightarrow> handle list" where
  "freed_handle K p hs = (if p = 0 then hs else remove1 (K p) hs)"

datatype call =
    GenerateKey bytes | GenerateSalt bytes | DeriveKey c_bytes c_bytes
  | AesCreate c_bytes | AesEncrypt bytes ptr c_bytes | AesDecrypt ptr c_bytes | AesFree ptr
  | BufferFree ptr | LastError | ErrorFree ptr
  | ChunkerCreate | ChunkerCustom nat nat nat | ChunkerChunk ptr c_bytes | ChunkerFree ptr
  | ListFree ptr | ComputeHash c_bytes

definition no_result :: "unit ffi \<Rightarrow> ptr ffi" where
  "no_result c = ffi_bind c (\<lambda>_. ffi_return 0)"

fun run_call :: "env \<Rightarrow> call \<Rightarrow> ptr ffi" where
  "run_call V (GenerateKey drawn) = vault_aes_generate_key drawn"
| "run_call V (GenerateSalt drawn) = vault_aes_generate_salt drawn"
| "run_call V (DeriveKey pass salt) = vault_aes_derive_key V pass salt"
| "run_call V (AesCreate key) = vault_aes_create V key"
| "run_call V (AesEncrypt drawn p dat) = vault_aes_encrypt V drawn p dat"
| "run_call V (AesDecrypt p dat) = vault_aes_decrypt V p dat"
| "run_call V (AesFree p) = no_result (vault_aes_free p)"
| "run_call V (BufferFree p) = no_result (vault_buffer_free p)"
| "run_call V LastError = vault_last_error"
| "run_call V (ErrorFree p) = no_result (vault_error_free p)"
| "run_call V ChunkerCreate = vault_chunker_create V"
| "run_call V (ChunkerCustom mn avg mx) = vault_chunker_create_custom V mn avg mx"
| "run_call V (ChunkerChunk p dat) = vault_chunker_chunk V p dat"
| "run_call V (ChunkerFree p) = no_result (vault_chunker_free p)"
| "run_call V (ListFree p) = no_result (vault_chunk_list_free p)"
| "run_call V (ComputeHash dat) = vault_compute_hash V dat"

fun permitted :: "handle list \<Rightarrow> call \<Rightarrow> bool" where
  "permitted hs (AesEncrypt drawn p dat) \<longleftrightarrow> p = 0 \<or> HAes p \<in> set hs"
| "permitted hs (AesDecrypt p dat) \<longleftrightarrow> p = 0 \<or> HAes p \<in> set hs"
| "permitted hs (AesFree p) \<longleftrightarrow> p = 0 \<or> HAes p \<in> set hs"
| "permitted hs (BufferFree p) \<longleftrightarrow> p = 0 \<or> HBuffer p \<in> set hs"
| "permitted hs (ErrorFree p) \<longleftrightarrow> p = 0 \<or> HString p \<in> set hs"
| "permitted hs (ChunkerChunk p dat) \<longleftrightarrow> p = 0 \<or> HChunker p \<in> set hs"
| "permitted hs (ChunkerFree p) \<longleftrightarrow> p = 0 \<or> HChunker p \<in> set hs"
| "permitted hs (ListFree p) \<longleftrightarrow> p = 0 \<or> HList p \<in> set hs"
| "permitted hs c \<longleftrightarrow> True"

fun handles_after :: "call \<Rightarrow> ptr \<Rightarrow> handle list \<Rightarrow> handle list" where
  "handles_after (GenerateKey drawn) r hs = new_handle HBuffer r hs"
| "handles_after (GenerateSalt drawn) r hs = new_handle HBuffer r hs"
| "handles_after (DeriveKey pass salt) r hs = new_handle HBuffer r hs"
| "handles_after (AesCreate key) r hs = new_handle HAes r hs"
| "handles_after (AesEncrypt drawn p dat) r hs = new_handle HBuffer r hs"
| "handles_after (AesDecrypt p dat) r hs = new_handle HBuffer r hs"
| "handles_after (AesFree p) r hs = freed_handle HAes p hs"
| "handles_after (BufferFree p) r hs = freed_handle HBuffer p hs"
| "handles_after LastError r hs = new_handle HString r hs"
| "handles_after (ErrorFree p) r hs = freed_handle HString p hs"
| "handles_after ChunkerCreate r hs = new_handle HChunker r hs"
| "handles_after (ChunkerCustom mn avg mx) r hs = new_handle HChunker r hs"
| "handles_after (ChunkerChunk p dat) r hs = new_handle HList r hs"
| "handles_after (ChunkerFree p) r hs = freed_handle HChunker p hs"
| "handles_after (ListFree p) r hs = freed_handle HList p hs"
| "handles_after (ComputeHash dat) r hs = new_handle HString r hs"

definition ffi_start :: ffi_state where
  "ffi_start = \<lparr>ff_heap = Map.empty, ff_next = 1, ff_error = None\<rparr>"

inductive c_session :: "env \<Rightarrow> handle list \<Rightarrow> ffi_state \<Rightarrow> bool" for V :: env where
  session_start: "c_session V [] ffi_start"
| session_call: "c_session V hs s \<Longrightarrow> permitted hs c \<Longrightarrow> run_call V c s = Returns (r, s') \<Longrightarrow>
    c_session V (handles_after c r hs) s'"

section \<open>Making and freeing handles\<close>

definition made :: "(ptr \<Rightarrow> handle) \<Rightarrow> ptr \<Rightarrow> assertion" where
  "made K r h \<longleftrightarrow> (if r = 0 then emp h else holds (K r) h)"

lemma triple_create:
  assumes "triple t emp c (made K)"
  shows "triple t (holding hs) c (\<lambda>r. holding (new_handle K r hs))"
proof (rule triple_post)
  show "triple t (holding hs) c (\<lambda>r. sep (made K r) (holding hs))"
    using triple_frame [OF assms, of "holding hs"] by simp
  show "holding (new_handle K r hs) h" if "sep (made K r) (holding hs) h" for r h
  proof (cases "r = 0")
    case True
    have "sep emp (holding hs) h" by (rule sep_mono [OF that]) (simp add: made_def True)
    then show ?thesis by (simp add: new_handle_def True)
  next
    case False
    have "sep (holds (K r)) (holding hs) h" by (rule sep_mono [OF that]) (simp add: made_def False)
    then show ?thesis by (simp add: new_handle_def holding_def False)
  qed
qed

lemma triple_destroy:
  assumes "p = 0 \<or> K p \<in> set hs" and "triple t (holds (K p)) (f p) (\<lambda>_. emp)"
    and "p = 0 \<Longrightarrow> f p = ffi_return ()"
  shows "triple t (holding hs) (no_result (f p)) (\<lambda>r. holding (freed_handle K p hs))"
proof (cases "p = 0")
  case True
  show ?thesis
    unfolding no_result_def freed_handle_def assms(3) [OF True]
    by (simp add: True ffi_return_bind triple_return)
next
  case False
  with assms(1) have K: "K p \<in> set hs" by simp
  have "triple t (holding hs) (f p) (\<lambda>_. holding (remove1 (K p) hs))"
    unfolding holding_def sep_list_member [OF K]
    using triple_frame [OF assms(2), of "sep_list (map holds (remove1 (K p) hs))"] by simp
  then show ?thesis
    unfolding no_result_def freed_handle_def using False
    by (simp add: triple_bind triple_return)
qed

lemma holding_block:
  assumes "sep (holding hs) R h" and "x \<in> set hs" and "\<And>h. holds x h \<Longrightarrow> \<exists>b. cell p b h \<and> B b"
  shows "\<exists>b. h p = Some b \<and> B b"
proof -
  have "sep (holds x) (sep (sep_list (map holds (remove1 x hs))) R) h"
    using assms(1) unfolding holding_def sep_list_member [OF assms(2)] by (simp only: sep_assoc)
  then have "sep (\<lambda>h. \<exists>b. B b \<and> cell p b h) (sep (sep_list (map holds (remove1 x hs))) R) h"
    by (rule sep_mono) (use assms(3) in blast)
  then show ?thesis by (auto simp: sep_ex sep_pure sep_cell)
qed

lemma triple_use:
  assumes "x \<in> set hs" and "\<And>h. holds x h \<Longrightarrow> \<exists>b. cell p b h \<and> B b"
    and "\<And>b. B b \<Longrightarrow> triple t (holding hs) (f b) S"
  shows "triple t (holding hs) (ffi_bind (read_block p) f) S"
  unfolding triple_def
proof (intro allI impI)
  fix s R assume s: "fresh s \<and> sep (holding hs) R (ff_heap s)"
  then obtain b where b: "ff_heap s p = Some b" "B b"
    using holding_block [OF _ assms(1,2)] by blast
  then have "ffi_bind (read_block p) f s = f b s" by (simp add: ffi_bind_def read_block_def)
  with assms(3) [OF b(2)] s show "case ffi_bind (read_block p) f s of
      Returns (x, s') \<Rightarrow> fresh s' \<and> sep (S x) R (ff_heap s') | Undefined \<Rightarrow> False | _ \<Rightarrow> \<not> t"
    unfolding triple_def by simp
qed

lemma made_cell: "(\<And>h. cell p b h \<Longrightarrow> holds (K p) h) \<Longrightarrow> cell p b h \<Longrightarrow> made K p h"
  by (auto simp: made_def cell_def)

lemma string_cell_made: "cell p (StringBlock x) h \<Longrightarrow> made HString p h"
  by (rule made_cell) auto

lemma refuse_made: "triple t emp (ffi_refuse msg) (made K)"
  by (rule triple_post [OF triple_refuse]) (auto simp: made_def)

lemma new_block_made:
  assumes "\<And>p h. cell p b h \<Longrightarrow> holds (K p) h"
  shows "triple t emp (new_block b) (made K)"
  by (rule triple_post [OF triple_new]) (auto intro: made_cell assms)

lemma buffer_made: "triple t emp (buffer_from_vec v) (made HBuffer)"
proof (rule triple_post [OF buffer_from_vec_triple])
  fix p h assume "buffer p v h"
  moreover then have "p \<noteq> 0" by (auto simp: buffer_def sep_cell)
  ultimately show "made HBuffer p h" by (auto simp: made_def)
qed

lemma return_buffer_made: "triple t emp (return_buffer V r) (made HBuffer)"
  by (cases r) (simp_all add: return_buffer_def buffer_made refuse_made)

lemma string_made: "triple False emp (c_string_unwrap x) (made HString)"
  by (rule triple_post [OF c_string_unwrap_triple]) (simp_all add: string_cell_made)

lemma last_error_made: "triple t emp vault_last_error (made HString)"
proof -
  have "triple t emp (ffi_bind (c_string msg) (\<lambda>p. ffi_return (case p of Some p \<Rightarrow> p | None \<Rightarrow> 0))) (made HString)"
    for msg
  proof (cases "CHR 0x00 \<in> set msg")
    case True
    then show ?thesis by (simp add: c_string_def ffi_return_bind triple_return made_def)
  next
    case False
    then show ?thesis
      by (simp add: c_string_def ffi_bind_assoc ffi_return_bind)
         (rule triple_new_bind, rule triple_return, simp add: string_cell_made)
  qed
  moreover have "triple t emp (ffi_return 0) (made HString)" by (rule triple_return) (simp add: made_def)
  ultimately show ?thesis
    unfolding triple_def vault_last_error_def
    by (auto simp: ffi_return_def split: option.split)
qed

lemma chunk_list_made: "triple False emp (chunk_list cs) (made HList)"
proof (rule triple_post [OF chunk_list_triple])
  fix p h assume "chunks_at p cs h"
  moreover then have "p \<noteq> 0" by (auto simp: chunks_at_def list_layout_def sep_cell)
  ultimately show "made HList p h" by (auto simp: made_def)
qed simp

lemma partial_abort: "triple False P (\<lambda>s. Aborts p) Q" "triple False P (\<lambda>s. Diverges) Q"
  by (simp_all add: triple_def)

lemma chunk_made:
  "triple False emp (case r of None \<Rightarrow> (\<lambda>s. Diverges) | Some (Inl p) \<Rightarrow> (\<lambda>s. Aborts p)
      | Some (Inr cs) \<Rightarrow> chunk_list cs) (made HList)"
  by (simp add: partial_abort chunk_list_made split: option.split sum.split)

lemma free_made:
  "triple t (holds (HBuffer p)) (vault_buffer_free p) (\<lambda>_. emp)"
  "triple t (holds (HString p)) (vault_error_free p) (\<lambda>_. emp)"
  "triple t (holds (HAes p)) (vault_aes_free p) (\<lambda>_. emp)"
  "triple t (holds (HChunker p)) (vault_chunker_free p) (\<lambda>_. emp)"
  "triple t (holds (HList p)) (vault_chunk_list_free p) (\<lambda>_. emp)"
  by (simp_all add: triple_ex vault_buffer_free_triple free_string_triple free_aes_triple
      free_chunker_triple chunk_list_free_triple)

lemma free_null:
  "vault_buffer_free 0 = ffi_return ()" "vault_error_free 0 = ffi_return ()"
  "vault_aes_free 0 = ffi_return ()" "vault_chunker_free 0 = ffi_return ()"
  "vault_chunk_list_free 0 = ffi_return ()"
  by (simp_all add: vault_buffer_free_def vault_error_free_def vault_aes_free_def
      vault_chunker_free_def vault_chunk_list_free_def)

text \<open>A handle owns a block at its address.\<close>

fun handle_ptr :: "handle \<Rightarrow> ptr" where
  "handle_ptr (HBuffer p) = p"
| "handle_ptr (HString p) = p"
| "handle_ptr (HAes p) = p"
| "handle_ptr (HChunker p) = p"
| "handle_ptr (HList p) = p"

lemma holds_dom: "holds x h \<Longrightarrow> handle_ptr x \<in> dom h"
  by (cases x) (auto simp: buffer_def chunks_at_def list_layout_def cell_def sep_cell)

lemma holding_member: "holding hs h \<Longrightarrow> x \<in> set hs \<Longrightarrow> handle_ptr x \<in> dom h"
  unfolding holding_def
  by (subst (asm) sep_list_member) (auto simp: sep_def dest!: holds_dom)

lemma holding_nonempty: "holding hs h \<Longrightarrow> hs \<noteq> [] \<Longrightarrow> h \<noteq> Map.empty"
  using holding_member [of hs h "hd hs"] by auto

lemma holding_distinct: "holding hs h \<Longrightarrow> distinct hs"
proof (induction hs arbitrary: h)
  case (Cons x hs)
  then obtain h1 h2 where d: "dom h1 \<inter> dom h2 = {}" and x: "holds x h1" and hs: "holding hs h2"
    by (auto simp: holding_def sep_def)
  have "x \<notin> set hs" using holds_dom [OF x] holding_member [OF hs] d by blast
  then show ?case using Cons.IH [OF hs] by simp
qed simp

section \<open>Every call\<close>

lemma triple_create_cleared:
  "triple t emp c (made K) \<Longrightarrow>
     triple t (holding hs) (ffi_bind clear_last_error (\<lambda>_. c)) (\<lambda>r. holding (new_handle K r hs))"
  by (rule triple_clear [OF triple_create])

lemma with_aes_triple:
  assumes "p = 0 \<or> HAes p \<in> set hs" and "\<And>e. triple t emp (f e) (made K)"
  shows "triple t (holding hs)
    (ffi_bind clear_last_error (\<lambda>_. if p = 0 \<or> refused then ffi_refuse msg else with_aes p f))
    (\<lambda>r. holding (new_handle K r hs))"
proof (cases "p = 0 \<or> refused")
  case True
  then show ?thesis by (simp add: triple_create_cleared refuse_made)
next
  case False
  with assms(1) have p: "HAes p \<in> set hs" by simp
  have "triple t (holding hs) (with_aes p f) (\<lambda>r. holding (new_handle K r hs))"
    unfolding with_aes_def
  proof (rule triple_use [OF p, where B = "\<lambda>b. \<exists>e. b = AesBlock e"])
    fix b assume "\<exists>e. b = AesBlock e"
    then obtain e where "b = AesBlock e" ..
    with triple_create [OF assms(2) [of e]] show "triple t (holding hs)
        (case b of AesBlock e \<Rightarrow> f e | _ \<Rightarrow> ffi_undefined) (\<lambda>r. holding (new_handle K r hs))" by simp
  qed auto
  then show ?thesis unfolding if_not_P [OF False] by (rule triple_clear)
qed

lemmas free_triples =
  triple_destroy [where K = HBuffer and f = vault_buffer_free, OF _ free_made(1)]
  triple_destroy [where K = HString and f = vault_error_free, OF _ free_made(2)]
  triple_destroy [where K = HAes and f = vault_aes_free, OF _ free_made(3)]
  triple_destroy [where K = HChunker and f = vault_chunker_free, OF _ free_made(4)]
  triple_destroy [where K = HList and f = vault_chunk_list_free, OF _ free_made(5)]

lemma call_triple:
  assumes "permitted hs c"
  shows "triple False (holding hs) (run_call V c) (\<lambda>r. holding (handles_after c r hs))"
proof (cases c)
  case (AesEncrypt drawn p dat)
  then show ?thesis
    using assms by (simp add: vault_aes_encrypt_def with_aes_triple return_buffer_made)
next
  case (AesDecrypt p dat)
  then show ?thesis
    using assms by (simp add: vault_aes_decrypt_def with_aes_triple return_buffer_made)
next
  case (ChunkerChunk p dat)
  have "triple False (holding hs) (vault_chunker_chunk V p dat) (\<lambda>r. holding (new_handle HList r hs))"
  proof (cases "p = 0 \<or> is_null dat \<and> 0 < data_len dat")
    case True
    then show ?thesis
      by (simp add: vault_chunker_chunk_def triple_create_cleared refuse_made)
  next
    case False
    with assms ChunkerChunk have p: "HChunker p \<in> set hs" by simp
    show ?thesis
      unfolding vault_chunker_chunk_def if_not_P [OF False]
    proof (rule triple_clear, rule triple_use [OF p, where B = "\<lambda>b. \<exists>e. b = ChunkerBlock e"])
      fix b assume "\<exists>e. b = ChunkerBlock e"
      then obtain e where b: "b = ChunkerBlock e" ..
      show "triple False (holding hs) (case b of
          ChunkerBlock e \<Rightarrow> (case chunk_data (ev_hash V) e (arg_slice dat) of
             None \<Rightarrow> (\<lambda>s. Diverges)
           | Some (Inl p) \<Rightarrow> (\<lambda>s. Aborts p)
           | Some (Inr chunks) \<Rightarrow> chunk_list chunks)
        | _ \<Rightarrow> ffi_undefined) (\<lambda>r. holding (new_handle HList r hs))"
        unfolding b block.case by (rule triple_create [OF chunk_made])
    qed auto
  qed
  then show ?thesis by (simp add: ChunkerChunk)
next
  case (AesCreate key)
  then show ?thesis
    by (auto simp: vault_aes_create_def intro!: triple_create_cleared refuse_made new_block_made
        split: sum.split)
next
  case (ChunkerCustom mn avg mx)
  then show ?thesis
    by (auto simp: vault_chunker_create_custom_def intro!: triple_create_cleared partial_abort new_block_made
        split: sum.split)
next
  case (GenerateKey drawn)
  then show ?thesis by (simp add: vault_aes_generate_key_def triple_create_cleared buffer_made)
next
  case (GenerateSalt drawn)
  then show ?thesis by (simp add: vault_aes_generate_salt_def triple_create_cleared buffer_made)
next
  case (DeriveKey pass salt)
  then show ?thesis
    by (simp add: vault_aes_derive_key_def triple_create_cleared return_buffer_made refuse_made)
next
  case ChunkerCreate
  then show ?thesis by (simp add: vault_chunker_create_def, intro triple_create_cleared new_block_made) auto
next
  case (ComputeHash dat)
  then show ?thesis by (simp add: vault_compute_hash_def triple_create_cleared string_made refuse_made)
next
  case LastError
  then show ?thesis by (simp add: triple_create last_error_made)
qed (use assms in \<open>simp_all add: free_triples free_null\<close>)

lemma session_holding: "c_session V hs s \<Longrightarrow> fresh s \<and> holding hs (ff_heap s)"
proof (induction rule: c_session.induct)
  case session_start
  show ?case by (simp add: ffi_start_def fresh_def holding_def emp_def)
next
  case (session_call hs s c r s')
  then show ?case
    using triple_result [OF call_triple [OF session_call.hyps(2)] _ _ session_call.hyps(3), of emp] by simp
qed

text \<open>C14: A C client that calls with \<open>NULL\<close> or with pointers it was given and has not freed, and frees
  each by the function for its kind, meets no undefined behaviour, whatever lengths, keys, bytes
  and configurations it passes: every call returns, aborts the process or runs on. No pointer
  is handed out twice while it is held, all that is allocated belongs to a handle, and when every
  handle has been freed nothing is left.\<close>

theorem c_session_safe:
  assumes "c_session V hs s" and "permitted hs c"
  shows "run_call V c s \<noteq> Undefined
    \<and> distinct hs
    \<and> (hs = [] \<longleftrightarrow> ff_heap s = Map.empty)"
proof -
  have s: "fresh s" "holding hs (ff_heap s)" using session_holding [OF assms(1)] by simp_all
  have "run_call V c s \<noteq> Undefined"
    using triple_defined [OF call_triple [OF assms(2)], of s emp] s by simp
  moreover have "distinct hs" by (rule holding_distinct [OF s(2)])
  moreover have "hs = [] \<longleftrightarrow> ff_heap s = Map.empty"
    using s(2) holding_nonempty [of hs "ff_heap s"] by (auto simp: holding_def emp_def)
  ultimately show ?thesis by blast
qed

lemma run_generate_key:
  "run_call V (GenerateKey v) s = Returns (ff_next s + 1,
     \<lparr>ff_heap = (ff_heap s)(ff_next s \<mapsto> BytesBlock v,
        ff_next s + 1 \<mapsto> BufferBlock \<lparr>vb_data = ff_next s, vb_len = length v, vb_capacity = length v\<rparr>),
      ff_next = ff_next s + 2, ff_error = None\<rparr>)"
  by (cases s) (simp add: vault_aes_generate_key_def buffer_from_vec_def ffi_bind_def clear_last_error_def
      new_block_def)

theorem c_session_safe_witness:
  "(\<exists>s r s'. run_call demo_env (GenerateKey [7, 8]) ffi_start = Returns (2, s)
      \<and> run_call demo_env (BufferFree 2) s \<noteq> Undefined
      \<and> run_call demo_env (BufferFree 2) s = Returns (r, s') \<and> run_call demo_env (BufferFree 2) s' = Undefined)"
proof -
  obtain s where s: "run_call demo_env (GenerateKey [7, 8]) ffi_start = Returns (2, s)"
    and heap: "ff_heap s = [1 \<mapsto> BytesBlock [7, 8], 2 \<mapsto> BufferBlock \<lparr>vb_data = 1, vb_len = 2, vb_capacity = 2\<rparr>]"
    using run_generate_key [of demo_env "[7, 8]" ffi_start] by (simp add: ffi_start_def numeral_2_eq_2)
  have "c_session demo_env [HBuffer 2] s"
    using session_call [OF session_start [of demo_env] _ s] by (simp add: new_handle_def)
  from c_session_safe [OF this, of "BufferFree 2"]
  have "run_call demo_env (BufferFree 2) s \<noteq> Undefined" by simp
  moreover have "run_call demo_env (BufferFree 2) s = Returns (0, s\<lparr>ff_heap := Map.empty\<rparr>)"
    by (simp add: no_result_def vault_buffer_free_def buffer_into_vec_def ffi_bind_def take_block_def heap
        ffi_return_def fun_eq_iff)
  moreover have "run_call demo_env (BufferFree 2) (s\<lparr>ff_heap := Map.empty\<rparr>) = Undefined"
    by (simp add: no_result_def vault_buffer_free_def buffer_into_vec_def ffi_bind_def take_block_def)
  ultimately show ?thesis using s by blast
qed

section \<open>Results read back\<close>

lemma keeps_heap:
  assumes "triple True emp c Q" and "fresh s"
  obtains r s' where "c s = Returns (r, s')" and "fresh s'" and "sep (Q r) (\<lambda>h. h = ff_heap s) (ff_heap s')"
    and "ff_heap s \<subseteq>\<^sub>m ff_heap s'"
proof (rule triple_returns [OF assms, of "\<lambda>h. h = ff_heap s"])
  show "sep emp (\<lambda>h. h = ff_heap s) (ff_heap s)" by simp
  fix r s' assume *: "c s = Returns (r, s')" "fresh s'" "sep (Q r) (\<lambda>h. h = ff_heap s) (ff_heap s')"
  then have "ff_heap s \<subseteq>\<^sub>m ff_heap s'" by (auto simp: sep_def map_le_def map_add_dom_app_simps)
  with * that show thesis by blast
qed

lemma fresh_clear: "fresh (s\<lparr>ff_error := e\<rparr>) = fresh s"
  by (simp add: fresh_def)

text \<open>C15: What a C client gets from \<open>vault_chunker_chunk\<close> on a chunker it holds, with sizes
  \<open>0 < min_size <= max_size\<close>, is what \<open>ChunkEngine::chunk_data\<close> computes: reading the arrays and
  buffers behind the returned list gives the name, size, offset and bytes of every chunk in
  order, the bytes together are the data, and nothing the client held before has changed.\<close>

theorem c_chunks_read_back:
  assumes "c_session V hs s" and "HChunker p \<in> set hs" and "ff_heap s p = Some (ChunkerBlock e)"
    and "valid_config (eng_config e)"
  shows "\<exists>r s' cs. run_call V (ChunkerChunk p (CBytes x)) s = Returns (r, s')
    \<and> chunk_data (ev_hash V) e x = Some (Inr cs)
    \<and> read_chunks_at (ff_heap s') r
        = Some (map (\<lambda>c. (Some (ck_hash c), ck_size c, ck_offset c, Some (ck_data c))) cs)
    \<and> concat (map ck_data cs) = x
    \<and> ff_heap s \<subseteq>\<^sub>m ff_heap s'"
proof -
  have fresh: "fresh s" using session_holding [OF assms(1)] by simp
  then have "p \<noteq> 0" using assms(3) by (auto simp: fresh_def)
  obtain cs where cs: "chunk_data (ev_hash V) e x = Some (Inr cs)" and x: "concat (map ck_data cs) = x"
    using chunk_data_pieces [OF assms(4), of "ev_hash V" x] assms(4)
    by (simp add: fastcdc.concat_pieces cdc_ok_def)
  let ?s = "s\<lparr>ff_error := None\<rparr>"
  have run: "run_call V (ChunkerChunk p (CBytes x)) s = chunk_list cs ?s"
    using \<open>p \<noteq> 0\<close> assms(3) cs
    by (simp add: vault_chunker_chunk_def ffi_bind_def clear_last_error_def read_block_def is_null_def
        arg_slice_def)
  obtain r s' where "chunk_list cs ?s = Returns (r, s')"
    and "sep (chunks_at r cs) (\<lambda>h. h = ff_heap ?s) (ff_heap s')" and "ff_heap ?s \<subseteq>\<^sub>m ff_heap s'"
    by (rule keeps_heap [OF chunk_list_triple [of True cs], of ?s])
       (use chunk_names_plain [OF assms(4) cs] fresh in \<open>auto simp: fresh_clear\<close>)
  then show ?thesis using run cs x chunks_at_read by fastforce
qed

theorem c_chunks_read_back_witness:
  "\<exists>s r s' l. run_call demo_env ChunkerCreate ffi_start = Returns (1, s)
     \<and> run_call demo_env (ChunkerChunk 1 (CBytes [7, 8, 9])) s = Returns (r, s')
     \<and> read_chunks_at (ff_heap s') r = Some l"
proof -
  let ?e = "engine_new (ev_hash demo_env) default_config"
  obtain s where s: "run_call demo_env ChunkerCreate ffi_start = Returns (1, s)"
    and heap: "ff_heap s = [1 \<mapsto> ChunkerBlock ?e]"
    by (simp add: vault_chunker_create_def ffi_bind_def clear_last_error_def new_block_def ffi_start_def)
  have "c_session demo_env [HChunker 1] s"
    using session_call [OF session_start [of demo_env] _ s] by (simp add: new_handle_def)
  moreover have "valid_config (eng_config ?e)"
    by (simp add: valid_config_def engine_new_def default_config_def)
  ultimately show ?thesis
    using c_chunks_read_back [of demo_env "[HChunker 1]" s 1 ?e "[7, 8, 9]"] s heap by fastforce
qed

text \<open>What \<open>vault_aes_encrypt\<close> returned opens with \<open>vault_aes_decrypt\<close>.\<close>

theorem c_aes_round_trip:
  assumes "fresh s" and "ff_heap s p = Some (AesBlock e)" and "aes_ok e" and "length n = 12"
    and "aes_encrypt e n x = Inr blob"
  shows "\<exists>q s1 r s2. vault_aes_encrypt V n p (CBytes x) s = Returns (q, s1)
    \<and> read_buffer (ff_heap s1) q = Some blob
    \<and> vault_aes_decrypt V p (CBytes blob) s1 = Returns (r, s2)
    \<and> read_buffer (ff_heap s2) r = Some x"
proof -
  have p: "p \<noteq> 0" using assms(1,2) by (auto simp: fresh_def)
  have enc: "vault_aes_encrypt V n p (CBytes x) s = buffer_from_vec blob (s\<lparr>ff_error := None\<rparr>)"
    using p assms(2,5)
    by (simp add: vault_aes_encrypt_def ffi_bind_def clear_last_error_def with_aes_def read_block_def
        is_null_def arg_slice_def return_buffer_def)
  obtain q s1 where q: "buffer_from_vec blob (s\<lparr>ff_error := None\<rparr>) = Returns (q, s1)" and "fresh s1"
    and r1: "sep (buffer q blob) (\<lambda>h. h = ff_heap s) (ff_heap s1)" and "ff_heap s \<subseteq>\<^sub>m ff_heap s1"
    by (rule keeps_heap [OF buffer_from_vec_triple [of True blob], of "s\<lparr>ff_error := None\<rparr>"])
       (use assms(1) in \<open>auto simp: fresh_clear\<close>)
  then have e1: "ff_heap s1 p = Some (AesBlock e)" using assms(2) by (metis domI map_le_def)
  have "aes_decrypt e blob = Inr x"
    using assms(3-5)
    by (auto simp: aes_encrypt_def aes_decrypt_def aes_ok_def aead_ok_def AES_NONCE_SIZE_def try_bind_eq_Inr)
  then have dec: "vault_aes_decrypt V p (CBytes blob) s1 = buffer_from_vec x (s1\<lparr>ff_error := None\<rparr>)"
    using p e1
    by (simp add: vault_aes_decrypt_def ffi_bind_def clear_last_error_def with_aes_def read_block_def
        is_null_def arg_slice_def return_buffer_def)
  obtain r s2 where "buffer_from_vec x (s1\<lparr>ff_error := None\<rparr>) = Returns (r, s2)"
    and "sep (buffer r x) (\<lambda>h. h = ff_heap s1) (ff_heap s2)"
    by (rule keeps_heap [OF buffer_from_vec_triple [of True x], of "s1\<lparr>ff_error := None\<rparr>"])
       (use \<open>fresh s1\<close> in \<open>auto simp: fresh_clear\<close>)
  then show ?thesis using enc q dec sep_buffer [OF r1] sep_buffer by fastforce
qed

text \<open>A configuration out of order does not give \<open>NULL\<close>: the process aborts. One of zeros is taken,
  and chunking any data with it does not return. The string of \<open>vault_last_error\<close> outlives later
  calls, and is leaked unless it is freed.\<close>

lemma custom_chunker_aborts: "avg < mn \<Longrightarrow> \<exists>p. run_call V (ChunkerCustom mn avg mx) s = Aborts p"
  by (simp add: vault_chunker_create_custom_def ffi_bind_def clear_last_error_def config_new_def)

lemma last_error_leaks:
  "ff_error s = Some msg \<Longrightarrow> CHR 0x00 \<notin> set msg \<Longrightarrow>
     run_call V LastError s = Returns (ff_next s,
       s\<lparr>ff_heap := (ff_heap s)(ff_next s \<mapsto> StringBlock msg), ff_next := ff_next s + 1\<rparr>)"
  by (simp add: vault_last_error_def c_string_def ffi_bind_def new_block_def ffi_return_def)

end
