(* ===== verification/Pipeline.thy ===== *)
theory Pipeline
  imports Chunking_Laws Pgp_Engine_Laws Packing_Laws File_Storage
begin

text \<open>
  From a stream to the storage and back, through every layer of the library: \<open>ChunkEngine::chunk_data\<close>
  cuts and names, \<open>EncryptionEngine::encrypt_chunks_parallel\<close> seals, \<open>pack_chunks\<close> packs, a storage
  backend keeps the packs; and a restore looks the names up, slices, opens and concatenates. The
  calls in between are the client's, as the crate documentation puts them together; what a client
  must remember of a stream is the names and sizes of its chunks in order, and the index.
\<close>

section \<open>The client\<close>

datatype archive_error =
    ChunkingPanicked panic
  | ChunkingDiverged
  | PackingPanicked panic
  | SealingFailed CryptoError
  | StorageFailed VaultError
  | NotIndexed string

fun upload_packs ::
    "(string \<Rightarrow> bytes \<Rightarrow> 's \<Rightarrow> unit VaultResult \<times> 's) \<Rightarrow> BuiltPack list \<Rightarrow> 's \<Rightarrow> (archive_error + unit) \<times> 's" where
  "upload_packs up [] s = (Inr (), s)"
| "upload_packs up (p # ps) s =
     (case up (bp_id p) (bp_bytes p) s of
        (Inl e, s1) \<Rightarrow> (Inl (StorageFailed e), s1)
      | (Inr _, s1) \<Rightarrow> upload_packs up ps s1)"

text \<open>\<open>nonces\<close> are those the batch helper draws, one per chunk.\<close>

definition seal_stream ::
    "env \<Rightarrow> 'r rng_ops \<Rightarrow> ChunkEngine \<Rightarrow> EncryptionEngine \<Rightarrow> string \<Rightarrow> (nat \<Rightarrow> bytes) \<Rightarrow> nat \<Rightarrow> bytes \<Rightarrow> 'r
     \<Rightarrow> archive_error + (string \<times> nat) list \<times> PackSet" where
  "seal_stream V R C E uid nonces target x r =
     (case chunk_data (ev_hash V) C x of
        None \<Rightarrow> Inl ChunkingDiverged
      | Some (Inl p) \<Rightarrow> Inl (ChunkingPanicked p)
      | Some (Inr cs) \<Rightarrow>
          try_bind (map_err SealingFailed (encrypt_chunks_parallel V E uid (zip (map nonces [0..<length cs]) cs))) (\<lambda>blobs.
          try_bind (map_err PackingPanicked (pack_chunks R (zip (map ck_hash cs) blobs) target r)) (\<lambda>(out, r').
          Inr (map (\<lambda>c. (ck_hash c, ck_size c)) cs, out))))"

fun fetch_blobs ::
    "(string \<Rightarrow> 's \<Rightarrow> bytes VaultResult \<times> 's) \<Rightarrow> (string \<times> PackLocation) list \<Rightarrow> (string \<times> nat) list \<Rightarrow> 's
     \<Rightarrow> (archive_error + bytes list) \<times> 's" where
  "fetch_blobs down idx [] s = (Inr [], s)"
| "fetch_blobs down idx ((name, sz) # rest) s =
     (case map_of idx name of
        None \<Rightarrow> (Inl (NotIndexed name), s)
      | Some loc \<Rightarrow> (case down (loc_pack_id loc) s of
            (Inl e, s1) \<Rightarrow> (Inl (StorageFailed e), s1)
          | (Inr pack, s1) \<Rightarrow> (case slice_chunk pack loc of
                Inl e \<Rightarrow> (Inl (StorageFailed e), s1)
              | Inr blob \<Rightarrow> (case fetch_blobs down idx rest s1 of
                    (Inl e, s2) \<Rightarrow> (Inl e, s2)
                  | (Inr blobs, s2) \<Rightarrow> (Inr (blob # blobs), s2)))))"

definition open_blobs ::
    "env \<Rightarrow> EncryptionEngine \<Rightarrow> string \<Rightarrow> (string \<times> nat) list \<Rightarrow> bytes list \<Rightarrow> archive_error + bytes" where
  "open_blobs V E uid manifest blobs =
     map_err SealingFailed (try_bind (batch_key_version E) (\<lambda>kv.
     try_bind (try_map (\<lambda>(name, sz). map_err (\<lambda>e. CryptoError.Decryption (vault_error_text V e))
         (aad_content uid name kv (word_of_nat sz))) manifest) (\<lambda>aads.
     try_bind (decrypt_chunks_parallel V E blobs aads) (\<lambda>datas. Inr (concat datas)))))"

definition restore_stream ::
    "env \<Rightarrow> EncryptionEngine \<Rightarrow> string \<Rightarrow> (string \<Rightarrow> 's \<Rightarrow> bytes VaultResult \<times> 's) \<Rightarrow> (string \<times> nat) list
     \<Rightarrow> PackSet \<Rightarrow> 's \<Rightarrow> (archive_error + bytes) \<times> 's" where
  "restore_stream V E uid down manifest out s =
     (case fetch_blobs down (index out) manifest s of
        (Inl e, s1) \<Rightarrow> (Inl e, s1)
      | (Inr blobs, s1) \<Rightarrow> (open_blobs V E uid manifest blobs, s1))"

section \<open>What is sealed\<close>

text \<open>A blob that a chunk opens from: it was sealed under the chunk's identity.\<close>

definition sealed_as :: "XChaChaChunkEngine \<Rightarrow> string \<Rightarrow> u32 \<Rightarrow> Chunk \<Rightarrow> bytes \<Rightarrow> bool" where
  "sealed_as engine uid kv c blob \<longleftrightarrow>
     (\<exists>n. length n = 24 \<and> encrypt_with_nonce engine (ck_data c) n (content_identity uid kv c) = Inr blob)"

lemma sealed_opens:
  assumes "xc_ok engine" and "list_all2 (sealed_as engine uid kv) cs blobs"
  shows "try_map (\<lambda>(blob, aad). map_err f (decrypt_with_aad engine blob aad))
      (zip blobs (map (content_identity uid kv) cs)) = Inr (map ck_data cs)"
  using assms(2)
proof (induction rule: list_all2_induct)
  case (Cons c cs blob blobs)
  then obtain n where "length n = 24" "encrypt_with_nonce engine (ck_data c) n (content_identity uid kv c) = Inr blob"
    by (auto simp: sealed_as_def)
  with xc_open_seal [OF assms(1)] Cons show ?case by simp
qed simp

lemma encrypted_batch_sealed:
  assumes "encrypt_chunks_parallel V E uid (zip (map nonces [0..<length cs]) cs) = Inr blobs"
    and "\<forall>i. length (nonces i) = 24"
  obtains kv engine where "en_key_version E = Some kv" "1 \<le> kv" "chunk_engine V E = Inr engine"
    "list_all2 (sealed_as engine uid kv) cs blobs" "\<forall>c\<in>set cs. aad_check (content_identity uid kv c) = Inr ()"
proof -
  from assms(1) obtain kv engine where kv: "en_key_version E = Some kv" "1 \<le> kv" "chunk_engine V E = Inr engine"
    and all: "list_all2 (\<lambda>(n, c) blob. \<exists>aad. content_chunk_aad V uid kv c = Inr aad
             \<and> encrypt_with_aad engine n (ck_data c) aad = Inr blob) (zip (map nonces [0..<length cs]) cs) blobs"
    by (auto simp: encrypt_chunks_parallel_eq_Inr)
  have "length blobs = length cs" using list_all2_lengthD [OF all] by simp
  moreover have "sealed_as engine uid kv (cs ! i) (blobs ! i) \<and> aad_check (content_identity uid kv (cs ! i)) = Inr ()"
    if "i < length cs" for i
    using list_all2_nthD [OF all, of i] that assms(2)
    by (auto simp: content_chunk_aad_eq_Inr encrypt_with_aad_def sealed_as_def)
  ultimately show thesis
    using kv by (intro that [of kv engine]) (auto simp: list_all2_conv_all_nth in_set_conv_nth)
qed

section \<open>Storing and fetching packs\<close>

definition packs_stored :: "BuiltPack list \<Rightarrow> contents \<Rightarrow> bool" where
  "packs_stored ps m \<longleftrightarrow> (\<forall>p\<in>set ps. m (bp_id p) = Some (bp_bytes p))"

text \<open>What fetching finds for a line of the manifest.\<close>

definition fetched :: "contents \<Rightarrow> (string \<times> PackLocation) list \<Rightarrow> string \<times> nat \<Rightarrow> bytes \<Rightarrow> bool" where
  "fetched m idx line blob \<longleftrightarrow>
     (\<exists>loc pack. map_of idx (fst line) = Some loc \<and> m (loc_pack_id loc) = Some pack \<and> slice_chunk pack loc = Inr blob)"

context storage_backend
begin

lemma upload_packs_stores:
  assumes "upload_packs up ps s = (Inr (), s')" "inv s" "\<forall>p\<in>set ps. ok_key (bp_id p)" "distinct (map bp_id ps)"
  shows "inv s' \<and> packs_stored ps (view s') \<and> (\<forall>q. q \<notin> bp_id ` set ps \<longrightarrow> view s' q = view s q)"
  using assms
proof (induction ps arbitrary: s)
  case (Cons p ps)
  obtain s1 where up: "up (bp_id p) (bp_bytes p) s = (Inr (), s1)" and rest: "upload_packs up ps s1 = (Inr (), s')"
    using Cons.prems(1) by (auto split: prod.splits sum.splits)
  note law = up_law [OF Cons.prems(2) _ up]
  have "inv s' \<and> packs_stored ps (view s') \<and> (\<forall>q. q \<notin> bp_id ` set ps \<longrightarrow> view s' q = view s1 q)"
    by (rule Cons.IH [OF rest]) (use law Cons.prems in simp_all)
  with law Cons.prems(3,4) show ?case by (auto simp: packs_stored_def)
qed (simp add: packs_stored_def)

lemma fetch_blobs_fetched:
  assumes "fetch_blobs down idx manifest s = (Inr blobs, s')" "inv s" "\<forall>e\<in>set idx. ok_key (loc_pack_id (snd e))"
  shows "inv s' \<and> view s' = view s \<and> list_all2 (fetched (view s) idx) manifest blobs"
  using assms(1,2)
proof (induction manifest arbitrary: s blobs)
  case (Cons line manifest)
  obtain name sz where line: "line = (name, sz)" by (rule prod.exhaust)
  from Cons.prems(1) line obtain loc pack s1 blob blobs1 where
    loc: "map_of idx name = Some loc" and down: "down (loc_pack_id loc) s = (Inr pack, s1)"
    and slice: "slice_chunk pack loc = Inr blob" and rest: "fetch_blobs down idx manifest s1 = (Inr blobs1, s')"
    and blobs: "blobs = blob # blobs1"
    by (auto split: option.splits prod.splits sum.splits)
  have "ok_key (loc_pack_id loc)" using assms(3) map_of_SomeD [OF loc] by fastforce
  note law = down_law [OF Cons.prems(2) this down]
  with Cons.IH [OF rest] loc slice line blobs show ?case by (auto simp: fetched_def)
qed simp

end

text \<open>Where downloads answer, fetching does not fail.\<close>

lemma fetch_blobs_succeeds:
  assumes "\<forall>line\<in>set manifest. \<exists>blob. fetched m idx line blob"
    and "\<And>p d. m p = Some d \<Longrightarrow> down p s = (Inr d, s)"
  shows "\<exists>blobs. fetch_blobs down idx manifest s = (Inr blobs, s)"
  using assms(1)
proof (induction manifest)
  case (Cons line manifest)
  obtain name sz where line: "line = (name, sz)" by (rule prod.exhaust)
  with Cons.prems obtain loc pack blob where "map_of idx name = Some loc" "m (loc_pack_id loc) = Some pack"
    "slice_chunk pack loc = Inr blob" by (auto simp: fetched_def)
  moreover obtain blobs where "fetch_blobs down idx manifest s = (Inr blobs, s)" using Cons by auto
  ultimately show ?case using assms(2) line by auto
qed simp

section \<open>Pack identifiers\<close>

definition is_pack_id :: "string \<Rightarrow> bool" where
  "is_pack_id s \<longleftrightarrow> (\<exists>raw. length raw = 32 \<and> s = hex_encode raw)"

definition ids_ok :: "'r pack_state \<Rightarrow> bool" where
  "ids_ok st \<longleftrightarrow> (\<forall>p\<in>set (ps_packs st). is_pack_id (bp_id p)) \<and> (\<forall>i. cur_id st = Some i \<longrightarrow> is_pack_id i)
     \<and> (\<forall>e\<in>set (ps_index st). is_pack_id (loc_pack_id (snd e)))"

lemma random_pack_id_ok: "rng_ok R \<Longrightarrow> random_pack_id R r = (i, r') \<Longrightarrow> is_pack_id i"
  unfolding rng_ok_def random_pack_id_def is_pack_id_def by (metis (no_types, lifting) case_prod_beta' fst_conv)

lemma seal_open_pack_ids: "ids_ok st \<Longrightarrow> seal_open_pack R st = Inr st' \<Longrightarrow> ids_ok st'"
  by (auto simp: ids_ok_def seal_open_pack_def split: prod.splits option.splits)

lemma append_blob_ids: "rng_ok R \<Longrightarrow> ids_ok st \<Longrightarrow> ids_ok (append_blob R nm blob st)"
  by (auto simp: ids_ok_def append_blob_def dest: random_pack_id_ok split: prod.splits option.splits)

lemma pack_step_ids:
  assumes "rng_ok R" "ids_ok st" "pack_step R target st c = Inr st'"
  shows "ids_ok st'"
proof -
  obtain nm blob where c: "c = (nm, blob)" by (rule prod.exhaust)
  let ?st = "st\<lparr>ps_seen := insert nm (ps_seen st)\<rparr>"
  have seen: "ids_ok ?st" using assms(2) by (simp add: ids_ok_def)
  from assms(3) c consider "st' = st" | "st' = append_blob R nm blob ?st"
    | st2 where "seal_open_pack R ?st = Inr st2" "st' = append_blob R nm blob st2"
    by (auto simp: pack_step_def try_bind_eq_Inr Let_def split: if_splits)
  then show ?thesis
    using assms(2) seen append_blob_ids [OF assms(1)] seal_open_pack_ids [OF seen] by cases blast+
qed

lemma pack_loop_ids: "rng_ok R \<Longrightarrow> ids_ok st \<Longrightarrow> pack_loop R target st cs = Inr st' \<Longrightarrow> ids_ok st'"
  by (induction cs arbitrary: st) (auto simp: try_bind_eq_Inr dest: pack_step_ids)

lemma flush_ids: "ids_ok st \<Longrightarrow> ids_ok (flush_open_pack R st)"
  by (auto simp: ids_ok_def flush_open_pack_def split: option.splits prod.splits)

lemma pack_chunks_ids:
  assumes "rng_ok R" "pack_chunks R chunks target r = Inr (out, r')"
  shows "(\<forall>p\<in>set (packs out). is_pack_id (bp_id p)) \<and> (\<forall>e\<in>set (index out). is_pack_id (loc_pack_id (snd e)))"
proof -
  obtain sh r1 where sh: "shuffle R r chunks = (sh, r1)" by (rule prod.exhaust)
  with assms(2) obtain st where "pack_loop R (max target 1) (pack_init r1) sh = Inr st"
    and out: "packs out = ps_packs (flush_open_pack R st)" "index out = ps_index (flush_open_pack R st)"
    by (auto simp: pack_chunks_def Let_def try_bind_eq_Inr)
  moreover have "ids_ok (pack_init r1)" by (simp add: ids_ok_def pack_init_def)
  ultimately have "ids_ok (flush_open_pack R st)" using pack_loop_ids [OF assms(1)] flush_ids by blast
  with out show ?thesis by (simp add: ids_ok_def)
qed

lemma pack_id_plain: "is_pack_id i \<Longrightarrow> plain_path i"
proof -
  assume "is_pack_id i"
  then obtain raw where raw: "length raw = 32" "i = hex_encode raw" by (auto simp: is_pack_id_def)
  have "c \<noteq> CHR ''/'' \<and> c \<noteq> CHR ''.''" if "c \<in> set i" for c
    using hex_encode_lower [of c raw] that raw by (auto simp: is_lower_hex_def code_of_def)
  then have "split_on (CHR ''/'') i = [i]" "i \<noteq> []" "CHR ''.'' \<notin> set i"
    using raw by (auto intro!: split_on_no_sep)
  then show ?thesis by (auto simp: plain_path_def)
qed

section \<open>From the stream and back\<close>

text \<open>No two chunks of the stream share a name without sharing their bytes.\<close>

definition names_distinguish :: "hashes \<Rightarrow> ChunkEngine \<Rightarrow> bytes \<Rightarrow> bool" where
  "names_distinguish H C x \<longleftrightarrow>
     (\<forall>cs. chunk_data H C x = Some (Inr cs) \<longrightarrow>
        (\<forall>c\<in>set cs. \<forall>c'\<in>set cs. ck_hash c = ck_hash c' \<longrightarrow> ck_data c = ck_data c'))"

lemma stream_chunks:
  assumes "valid_config (eng_config C)"
  obtains cs where "chunk_data H C x = Some (Inr cs)" "concat (map ck_data cs) = x"
    "\<forall>c\<in>set cs. ck_size c = length (ck_data c) \<and> ck_data c \<noteq> [] \<and> length (ck_data c) \<le> max_size (eng_config C)"
proof (rule that [OF chunk_data_pieces [OF assms]])
  let ?c = "(eng_gear C, eng_config C)"
  have ok: "cdc_ok ?c" using assms by (simp add: cdc_ok_def)
  show "concat (map ck_data (lay (engine_name H C) 0 (pieces (cdc_bnd ?c) x))) = x"
    by (simp add: fastcdc.concat_pieces [OF ok])
  show "\<forall>c\<in>set (lay (engine_name H C) 0 (pieces (cdc_bnd ?c) x)).
      ck_size c = length (ck_data c) \<and> ck_data c \<noteq> [] \<and> length (ck_data c) \<le> max_size (eng_config C)"
  proof
    fix c assume c: "c \<in> set (lay (engine_name H C) 0 (pieces (cdc_bnd ?c) x))"
    then have "ck_data c \<in> set (pieces (cdc_bnd ?c) x)" by (metis image_eqI lay_data set_map)
    from fastcdc.pieces_sizes [OF ok this] lay_hash [OF c]
    show "ck_size c = length (ck_data c) \<and> ck_data c \<noteq> [] \<and> length (ck_data c) \<le> max_size (eng_config C)"
      by auto
  qed
qed

text \<open>Sealed chunks of a stream are a batch that \<open>pack_chunks\<close> accepts.\<close>

lemma sealed_blob_length: "xc_ok engine \<Longrightarrow> sealed_as engine uid kv c blob \<Longrightarrow> length blob = length (ck_data c) + 41"
  by (auto simp: sealed_as_def xc_size_defs dest: xc_seal_length)

lemma sealed_batch_sizes:
  assumes "xc_ok engine" and "list_all2 (sealed_as engine uid kv) cs blobs" and "\<forall>c\<in>set cs. ck_data c \<noteq> []"
  shows "sum_list (map length blobs) \<le> 42 * length (concat (map ck_data cs))"
  using assms(2,3)
proof (induction rule: list_all2_induct)
  case (Cons c cs blob blobs)
  have "length blob \<le> 42 * length (ck_data c)"
    using Cons.prems sealed_blob_length [OF assms(1) Cons.hyps(1)] by (cases "ck_data c") simp_all
  with Cons show ?case by simp
qed simp

lemma sealed_batch_ok:
  assumes "xc_ok engine" and "list_all2 (sealed_as engine uid kv) cs blobs"
    and "\<forall>c\<in>set cs. ck_data c \<noteq> [] \<and> length (ck_data c) + 41 < 2 ^ 32"
    and "42 * length (concat (map ck_data cs)) < 2 ^ 64"
  shows "batch_ok (zip (map ck_hash cs) blobs) \<and> (\<forall>c\<in>set (zip (map ck_hash cs) blobs). snd c \<noteq> [])"
proof -
  have len: "length blobs = length cs" using list_all2_lengthD [OF assms(2)] by simp
  have blob: "\<exists>c\<in>set cs. length b = length (ck_data c) + 41" if "b \<in> set blobs" for b
    using that assms(2) len sealed_blob_length [OF assms(1)]
    by (metis in_set_conv_nth list_all2_conv_all_nth)
  have "map (length \<circ> snd) (zip (map ck_hash cs) blobs) = map length blobs"
    using len by (metis length_map map_map map_snd_zip)
  then have "sum_list (map (length \<circ> snd) (zip (map ck_hash cs) blobs)) < 2 ^ 64"
    using sealed_batch_sizes [OF assms(1,2)] assms(3,4) by simp
  moreover have "length b < 2 ^ 32 \<and> b \<noteq> []" if "(nm, b) \<in> set (zip (map ck_hash cs) blobs)" for nm b
    using blob [OF set_zip_rightD [OF that]] assms(3) by auto
  ultimately show ?thesis by (auto simp: batch_ok_def)
qed

text \<open>A blob fetched for a chunk was sealed for it: the packs hold, under its name, the blob of a
  chunk of that name, which has the same bytes and therefore the same identity.\<close>

lemma fetched_sealed:
  assumes "list_all2 (sealed_as engine uid kv) cs blobs"
    and "\<forall>c\<in>set cs. \<forall>c'\<in>set cs. ck_hash c = ck_hash c' \<longrightarrow> ck_data c = ck_data c'"
    and "\<forall>c\<in>set cs. ck_size c = length (ck_data c)"
    and "\<forall>e\<in>set idx. \<exists>p\<in>set ps. \<exists>blob. (fst e, blob) \<in> set (zip (map ck_hash cs) blobs)
        \<and> bp_id p = loc_pack_id (snd e) \<and> slice_chunk (bp_bytes p) (snd e) = Inr blob"
    and "packs_stored ps m" and "c \<in> set cs" and "fetched m idx (ck_hash c, sz) blob"
  shows "sealed_as engine uid kv c blob"
proof -
  from assms(7) obtain loc pack where loc: "(ck_hash c, loc) \<in> set idx" and pack: "m (loc_pack_id loc) = Some pack"
    and slice: "slice_chunk pack loc = Inr blob" by (auto simp: fetched_def dest: map_of_SomeD)
  from assms(4) loc obtain p b where p: "p \<in> set ps" "bp_id p = loc_pack_id loc" "slice_chunk (bp_bytes p) loc = Inr b"
    and b: "(ck_hash c, b) \<in> set (zip (map ck_hash cs) blobs)" by fastforce
  have "m (loc_pack_id loc) = Some (bp_bytes p)" using assms(5) p(1,2) by (metis packs_stored_def)
  then have "blob = b" using p(3) pack slice by simp
  from b obtain i where i: "i < length cs" "i < length blobs" "ck_hash (cs ! i) = ck_hash c" "blobs ! i = b"
    by (auto simp: in_set_conv_nth)
  have sealed: "sealed_as engine uid kv (cs ! i) b" using list_all2_nthD [OF assms(1), of i] i by auto
  have "ck_data (cs ! i) = ck_data c" using assms(2,6) i nth_mem by blast
  moreover have "ck_size (cs ! i) = ck_size c" using assms(3,6) calculation i nth_mem by metis
  ultimately show ?thesis
    using sealed \<open>blob = b\<close> i(3) by (simp add: sealed_as_def content_identity_def)
qed

lemma open_blobs_gives:
  assumes "en_key_version E = Some kv" "1 \<le> kv" "chunk_engine V E = Inr engine" "xc_ok engine"
    and "list_all2 (sealed_as engine uid kv) cs blobs" "\<forall>c\<in>set cs. aad_check (content_identity uid kv c) = Inr ()"
  shows "open_blobs V E uid (map (\<lambda>c. (ck_hash c, ck_size c)) cs) blobs = Inr (concat (map ck_data cs))"
proof -
  have "try_map (\<lambda>(name, sz). map_err (\<lambda>e. CryptoError.Decryption (vault_error_text V e))
      (aad_content uid name kv (word_of_nat sz))) (map (\<lambda>c. (ck_hash c, ck_size c)) cs)
      = Inr (map (content_identity uid kv) cs)"
    unfolding try_map_eq_Inr list.rel_map using assms(6)
    by (auto simp: list.rel_refl_strong aad_content_def aad_new_eq_Inr content_identity_def intro!: list.rel_refl_strong)
  moreover have "decrypt_chunks_parallel V E blobs (map (content_identity uid kv) cs) = Inr (map ck_data cs)"
    using sealed_opens [OF assms(4,5)] list_all2_lengthD [OF assms(5)]
    by (simp add: decrypt_chunks_parallel_def assms(3))
  moreover have "batch_key_version E = Inr kv" using assms(1,2) by (simp add: batch_key_version_eq_Inr)
  ultimately show ?thesis by (simp add: open_blobs_def)
qed

lemma seal_stream_facts:
  assumes "env_ok V" "rng_ok R" "valid_config (eng_config C)" "names_distinguish (ev_hash V) C x"
    and "max_size (eng_config C) + 41 < 2 ^ 32" "42 * length x < 2 ^ 64" "\<forall>i. length (nonces i) = 24"
    and "seal_stream V R C E uid nonces target x r = Inr (manifest, out)"
  shows "(\<forall>p\<in>set (packs out). is_pack_id (bp_id p)) \<and> (\<forall>e\<in>set (index out). is_pack_id (loc_pack_id (snd e)))
    \<and> (packs_stored (packs out) m \<longrightarrow> (\<forall>line\<in>set manifest. \<exists>blob. fetched m (index out) line blob)
        \<and> (\<forall>blobs. list_all2 (fetched m (index out)) manifest blobs \<longrightarrow> open_blobs V E uid manifest blobs = Inr x))"
proof -
  obtain cs where cs: "chunk_data (ev_hash V) C x = Some (Inr cs)" and x: "concat (map ck_data cs) = x"
    and size: "\<forall>c\<in>set cs. ck_size c = length (ck_data c) \<and> ck_data c \<noteq> [] \<and> length (ck_data c) \<le> max_size (eng_config C)"
    using stream_chunks [OF assms(3)] .
  from assms(8) cs obtain blobs r' where
    enc: "encrypt_chunks_parallel V E uid (zip (map nonces [0..<length cs]) cs) = Inr blobs"
    and pack: "pack_chunks R (zip (map ck_hash cs) blobs) target r = Inr (out, r')"
    and manifest: "manifest = map (\<lambda>c. (ck_hash c, ck_size c)) cs"
    by (auto simp: seal_stream_def try_bind_eq_Inr split: prod.splits)
  obtain kv engine where kv: "en_key_version E = Some kv" "1 \<le> kv" "chunk_engine V E = Inr engine"
    and sealed: "list_all2 (sealed_as engine uid kv) cs blobs"
    and aads: "\<forall>c\<in>set cs. aad_check (content_identity uid kv c) = Inr ()"
    using encrypted_batch_sealed [OF enc assms(7)] .
  have ok: "xc_ok engine" by (rule chunk_engine_ok [OF assms(1) kv(3)])
  have "batch_ok (zip (map ck_hash cs) blobs) \<and> (\<forall>c\<in>set (zip (map ck_hash cs) blobs). snd c \<noteq> [])"
    by (rule sealed_batch_ok [OF ok sealed]) (use size assms(5,6) x in auto)
  with packed_chunks_slice [OF assms(2), of "zip (map ck_hash cs) blobs" target r] pack
  have names: "fst ` set (index out) = fst ` set (zip (map ck_hash cs) blobs)"
    and located: "\<forall>e\<in>set (index out). \<exists>p\<in>set (packs out). \<exists>blob. (fst e, blob) \<in> set (zip (map ck_hash cs) blobs)
        \<and> bp_id p = loc_pack_id (snd e) \<and> slice_chunk (bp_bytes p) (snd e) = Inr blob"
    by auto
  have len: "length blobs = length cs" using list_all2_lengthD [OF sealed] by simp
  have "set (map fst (zip (map ck_hash cs) blobs)) = ck_hash ` set cs" using len by simp
  with names have indexed: "fst ` set (index out) = ck_hash ` set cs" by simp
  have same: "\<forall>c\<in>set cs. \<forall>c'\<in>set cs. ck_hash c = ck_hash c' \<longrightarrow> ck_data c = ck_data c'"
    using assms(4) cs unfolding names_distinguish_def by blast
  have "\<exists>blob. fetched m (index out) line blob" if st: "packs_stored (packs out) m" and line: "line \<in> set manifest" for line
  proof -
    have "fst line \<in> fst ` set (index out)" using line manifest indexed by auto
    then obtain loc where loc: "map_of (index out) (fst line) = Some loc"
      by (metis map_of_eq_None_iff not_None_eq)
    with located obtain p blob where "p \<in> set (packs out)" "bp_id p = loc_pack_id loc"
      "slice_chunk (bp_bytes p) loc = Inr blob" by (fastforce dest: map_of_SomeD)
    with st loc show ?thesis unfolding fetched_def packs_stored_def by metis
  qed
  moreover have "open_blobs V E uid manifest bs = Inr x"
    if st: "packs_stored (packs out) m" and f: "list_all2 (fetched m (index out)) manifest bs" for bs
  proof -
    have "\<forall>c\<in>set cs. ck_size c = length (ck_data c)" using size by blast
    then have "list_all2 (sealed_as engine uid kv) cs bs"
      using f fetched_sealed [OF sealed same _ located st]
      unfolding manifest list.rel_map by (auto simp: list_all2_conv_all_nth)
    from open_blobs_gives [OF kv ok this aads] show ?thesis by (simp add: manifest x)
  qed
  ultimately show ?thesis using pack_chunks_ids [OF assms(2) pack] by blast
qed

text \<open>C3: A stream that was cut, sealed, packed and uploaded to the file storage restores. Whatever
  is uploaded, fetched or deleted under other keys afterwards and whatever fails there, what a
  restore returns is the stream, byte for byte, and on a file system that can be read it returns: the
  names lead through the index to the packs, the slices are the sealed chunks, also where chunks
  were stored once for several places, and each opens under the identity its name and size give.
  The names are assumed to tell the chunks of the stream apart, and the drawn pack identifiers to differ.\<close>

theorem archived_stream_restores:
  assumes "env_ok V" "rng_ok R" "valid_config (eng_config C)" "names_distinguish (ev_hash V) C x"
    and "max_size (eng_config C) + 41 < 2 ^ 32" "42 * length x < 2 ^ 64" "\<forall>i. length (nonces i) = 24"
    and "seal_stream V R C E uid nonces target x r = Inr (manifest, out)" "distinct (map bp_id (packs out))"
    and "upload_packs (file_upload debug F (dir_path rs)) (packs out) t = (Inr (), t1)" "tree_ok t"
    and "run_storage (file_upload debug G (dir_path rs))
        (\<lambda>p t. (file_download debug G (dir_path rs) p t, t)) (file_delete debug G (dir_path rs)) ops t1 = (res, t2)"
    and "\<forall>op\<in>set ops. plain_path (key_of op) \<and> key_of op \<notin> bp_id ` set (packs out)"
  shows "(\<forall>y t3. restore_stream V E uid (\<lambda>p t. (file_download debug K (dir_path rs) p t, t)) manifest out t2
        = (Inr y, t3) \<longrightarrow> y = x)
    \<and> (quiet K \<longrightarrow> restore_stream V E uid (\<lambda>p t. (file_download debug K (dir_path rs) p t, t)) manifest out t2
        = (Inr x, t2))"
proof -
  note facts = seal_stream_facts [OF assms(1-8)]
  have plain: "\<forall>p\<in>set (packs out). plain_path (bp_id p)" "\<forall>e\<in>set (index out). plain_path (loc_pack_id (snd e))"
    using facts pack_id_plain by blast+
  from fs.upload_packs_stores [OF assms(10,11) plain(1) assms(9)]
  have t1: "tree_ok t1" "packs_stored (packs out) (file_view rs t1)" by simp_all
  from fs.refines_map [OF assms(12) t1(1)] assms(13)
  have t2: "tree_ok t2" and tr: "storage_trace (file_view rs t1) ops res (file_view rs t2)" by auto
  have "file_view rs t2 (bp_id p) = file_view rs t1 (bp_id p)" if "p \<in> set (packs out)" for p
    by (rule storage_trace_other [OF tr]) (use assms(13) that in force)
  with t1(2) have "packs_stored (packs out) (file_view rs t2)" by (simp add: packs_stored_def)
  with facts have there: "\<forall>line\<in>set manifest. \<exists>blob. fetched (file_view rs t2) (index out) line blob"
    and opens: "\<And>bs. list_all2 (fetched (file_view rs t2) (index out)) manifest bs \<Longrightarrow> open_blobs V E uid manifest bs = Inr x"
    by blast+
  let ?down = "\<lambda>p t. (file_download debug K (dir_path rs) p t, t)"
  have given: "open_blobs V E uid manifest bs = Inr x" if "fetch_blobs ?down (index out) manifest t2 = (Inr bs, t3)" for bs t3
    using opens fs.fetch_blobs_fetched [OF that t2 plain(2)] by blast
  have "\<exists>bs. fetch_blobs ?down (index out) manifest t2 = (Inr bs, t2)" if "quiet K"
  proof (rule fetch_blobs_succeeds [OF there])
    fix p d assume "file_view rs t2 p = Some d"
    then show "(file_download debug K (dir_path rs) p t2, t2) = (Inr d, t2)"
      using file_download_eq [OF t2, of p] that by (auto simp: file_view_def quiet_def split: if_splits)
  qed
  then show ?thesis using given by (auto simp: restore_stream_def split: prod.splits sum.splits)
qed

section \<open>Witness\<close>

definition demo_cutter :: ChunkEngine where
  "demo_cutter = engine_new (ev_hash demo_env) default_config"

lemma demo_cut: "chunk_data (ev_hash demo_env) demo_cutter [7]
    = Some (Inr [\<lparr>ck_hash = ''07'', ck_data = [7], ck_size = 1, ck_offset = 0\<rparr>])"
proof -
  have v: "valid_config (eng_config demo_cutter)"
    by (simp add: demo_cutter_def valid_config_def engine_new_def default_config_def)
  then have ok: "cdc_ok (eng_gear demo_cutter, eng_config demo_cutter)" by (simp add: cdc_ok_def)
  let ?ps = "pieces (cdc_bnd (eng_gear demo_cutter, eng_config demo_cutter)) [7]"
  have "concat ?ps = [7]" "[] \<notin> set ?ps" using fastcdc.concat_pieces [OF ok] fastcdc.pieces_sizes [OF ok] by auto
  then have "?ps = [[7]]" by (cases ?ps; cases "tl ?ps") (auto simp: append_eq_Cons_conv concat_eq_Nil_conv)
  moreover have "engine_name (ev_hash demo_env) demo_cutter [7] = ''07''"
    by (simp add: engine_name_def name_with_def demo_cutter_def engine_new_def compute_hash_def demo_env_def
        hex_digit_def) code_simp
  ultimately show ?thesis unfolding chunk_data_pieces [OF v] by (simp add: mk_chunk_def)
qed

lemma demo_sealed_stream:
  "\<exists>pack. seal_stream demo_env demo_rng demo_cutter (demo_engine [demo_subkey False]) ''ab'' (\<lambda>_. replicate 24 9) 1 [7] ()
     = Inr ([(''07'', 1)], pack) \<and> length (packs pack) = 1 \<and> bp_id (hd (packs pack)) = hex_encode (replicate 32 0)"
proof -
  let ?c = "\<lparr>ck_hash = ''07'', ck_data = [7], ck_size = 1, ck_offset = 0\<rparr> :: Chunk"
  have "aad_check (content_identity ''ab'' 1 ?c) = Inr ()"
    by (simp add: aad_check_eq_Inr content_identity_def byte_of_char_def)
  then obtain blob where blob: "encrypt_chunks_parallel demo_env (demo_engine [demo_subkey False]) ''ab''
      [(replicate 24 9, ?c)] = Inr [blob]" and "blob \<noteq> []"
    by (simp add: encrypt_chunks_parallel_eq_Inr demo_chunk_engine content_chunk_aad_eq_Inr)
       (simp add: demo_engine_def encrypt_with_aad_def encrypt_with_nonce_eq_Inr demo_batch_engine_def
         demo_aead_def)
  then have "\<exists>out r'. pack_chunks demo_rng [(''07'', blob)] 1 () = Inr (out, r') \<and> length (packs out) = 1
      \<and> bp_id (hd (packs out)) = hex_encode (replicate 32 0)"
    by (simp add: pack_chunks_def demo_rng_def pack_init_def pack_step_def append_blob_def random_pack_id_def
        flush_open_pack_def Let_def split: prod.split)
  then obtain out r' where "pack_chunks demo_rng [(''07'', blob)] 1 () = Inr (out, r')" "length (packs out) = 1"
    "bp_id (hd (packs out)) = hex_encode (replicate 32 0)" by blast
  then show ?thesis using blob by (simp add: seal_stream_def demo_cut)
qed

theorem archived_stream_restores_witness:
  "\<exists>manifest out t1. seal_stream demo_env demo_rng demo_cutter (demo_engine [demo_subkey False]) ''ab''
        (\<lambda>_. replicate 24 9) 1 [7] () = Inr (manifest, out)
    \<and> upload_packs (file_upload (\<lambda>_. []) calm (dir_path [''r''])) (packs out) [] = (Inr (), t1)
    \<and> restore_stream demo_env (demo_engine [demo_subkey False]) ''ab''
        (\<lambda>p t. (file_download (\<lambda>_. []) calm (dir_path [''r'']) p t, t)) manifest out t1 = (Inr [7], t1)"
proof -
  obtain out where seal: "seal_stream demo_env demo_rng demo_cutter (demo_engine [demo_subkey False]) ''ab''
      (\<lambda>_. replicate 24 9) 1 [7] () = Inr ([(''07'', 1)], out)" and one: "length (packs out) = 1"
    and hd: "bp_id (hd (packs out)) = hex_encode (replicate 32 0)" using demo_sealed_stream by blast
  obtain p where packs: "packs out = [p]" using one by (cases "packs out") auto
  have "is_pack_id (bp_id p)" unfolding is_pack_id_def
    by (rule exI [of _ "replicate 32 0"]) (use hd packs in simp)
  then have plain: "plain_path (bp_id p)" by (rule pack_id_plain)
  have empty: "tree_ok []" "quiet calm" by (simp_all add: tree_ok_def node_at_def quiet_def calm_def)
  have free: "\<not> blocked [] (place [''r''] (bp_id p))" by (simp add: blocked_def node_at_def)
  obtain u t1 where t1: "file_upload (\<lambda>_. []) calm (dir_path [''r'']) (bp_id p) (bp_bytes p) [] = (u, t1)"
    by (rule prod.exhaust)
  with file_upload_succeeds [OF empty(1) plain empty(2) free, of "\<lambda>_. []" "bp_bytes p"]
  have up: "upload_packs (file_upload (\<lambda>_. []) calm (dir_path [''r''])) (packs out) [] = (Inr (), t1)"
    by (simp add: packs)
  have names: "names_distinguish (ev_hash demo_env) demo_cutter [7]" by (simp add: names_distinguish_def demo_cut)
  have cfg: "valid_config (eng_config demo_cutter)" and mx: "max_size (eng_config demo_cutter) + 41 < 2 ^ 32"
    by (simp_all add: demo_cutter_def valid_config_def engine_new_def default_config_def)
  have small: "42 * length [7 :: u8] < 2 ^ 64" and nonces: "\<forall>i :: nat. length (replicate 24 (9 :: u8)) = 24"
    by simp_all
  have ids: "distinct (map bp_id (packs out))" by (simp add: packs)
  have idle: "run_storage (file_upload (\<lambda>_. []) calm (dir_path [''r'']))
      (\<lambda>p t. (file_download (\<lambda>_. []) calm (dir_path [''r'']) p t, t)) (file_delete (\<lambda>_. []) calm (dir_path [''r'']))
      [] t1 = ([], t1)" by simp
  have none: "\<forall>op\<in>set []. plain_path (key_of op) \<and> key_of op \<notin> bp_id ` set (packs out)" by simp
  note restored = archived_stream_restores [OF demo_env_ok demo_rng_ok cfg names mx small nonces seal ids up empty(1)
      idle none, THEN conjunct2, THEN mp, OF empty(2)]
  show ?thesis using seal up restored by blast
qed

end
