(* ===== verification/Gitcellar_Identity.thy ===== *)
theory Gitcellar_Identity
  imports Facade Credential_Store Machine_Id
begin

text \<open>
  \<open>gitcellar-identity/src/lib.rs\<close>: the functions of \<open>passkey-core\<close> with the configuration of
  GitCellar, named \<open>gi_\<close> and the name they delegate to.

  The functions on the users of an installation work in the configuration directory, and another
  application built on \<open>passkey-core\<close> has one of its own: \<open>app_dirs\<close> gives the users of every
  configuration directory, and these functions run in that of GitCellar. Configuration directories
  that lie inside one another, or reach one another through links, are not modelled; nor are the
  re-exports, which declare no operation. \<open>load_active\<close> is in \<open>Facade\<close>.
\<close>

section \<open>The configuration and its directories\<close>

definition gi_config :: PasskeyConfig where
  "gi_config = config_gitcellar"

definition gitcellar_config :: PasskeyConfig where
  "gitcellar_config = gi_config"

definition gi_config_dir :: "platform \<Rightarrow> component list" where
  "gi_config_dir P = config_dir P gi_config"

definition gi_users_dir :: "platform \<Rightarrow> component list" where
  "gi_users_dir P = users_dir P gi_config"

definition gi_user_dir :: "platform \<Rightarrow> string \<Rightarrow> component list" where
  "gi_user_dir P username = user_dir P gi_config username"

definition gi_identity_dir :: "platform \<Rightarrow> string \<Rightarrow> component list" where
  "gi_identity_dir P username = identity_dir_of P gi_config username"

section \<open>Identities\<close>

definition gi_paths :: "user_paths \<Rightarrow> user_paths" where
  "gi_paths c = c\<lparr>up_config := gi_config\<rparr>"

definition gi_identity_exists :: "faults \<Rightarrow> tree \<Rightarrow> user_paths \<Rightarrow> string \<Rightarrow> bool" where
  "gi_identity_exists F t c username \<longleftrightarrow> exists_for_user F t (gi_paths c) username"

definition gi_generate :: "pgp_io \<Rightarrow> string \<Rightarrow> Identity PasskeyResult" where
  "gi_generate G user_id = identity_generate G user_id"

definition gi_load ::
    "'w lpk_host \<Rightarrow> bytes \<Rightarrow> pgp_io \<Rightarrow> faults \<Rightarrow> (component list \<Rightarrow> string) \<Rightarrow> user_paths \<Rightarrow> string \<Rightarrow> tree
     \<Rightarrow> ('w lpk_state, Identity) passkey_sealing" where
  "gi_load h drawn G F disp c username t s = load_user h drawn G F disp (gi_paths c) username t s"

definition gi_exists :: "faults \<Rightarrow> tree \<Rightarrow> user_paths \<Rightarrow> string \<Rightarrow> bool" where
  "gi_exists F t c username \<longleftrightarrow> exists_for_user F t (gi_paths c) username"

definition gi_save ::
    "'w lpk_host \<Rightarrow> bytes \<Rightarrow> bytes \<Rightarrow> pgp_io \<Rightarrow> faults \<Rightarrow> (component list \<Rightarrow> string) \<Rightarrow> user_paths \<Rightarrow> Identity
     \<Rightarrow> string \<Rightarrow> tree \<Rightarrow> 'w lpk_state \<Rightarrow> (panic + unit PasskeyResult) \<times> tree \<times> 'w lpk_state" where
  "gi_save h drawn drawn_nonce G F disp c identity username t s =
     save_for_user h drawn drawn_nonce G F disp identity (gi_paths c) username t s"

section \<open>Users\<close>

type_synonym app_dirs = "component list \<Rightarrow> user_fs"

definition in_app :: "platform \<Rightarrow> PasskeyConfig \<Rightarrow> (user_fs \<Rightarrow> 'r \<times> user_fs) \<Rightarrow> app_dirs \<Rightarrow> 'r \<times> app_dirs" where
  "in_app P c f a = (case f (a (config_dir P c)) of (r, fs) \<Rightarrow> (r, a(config_dir P c := fs)))"

definition gi_users :: "platform \<Rightarrow> app_dirs \<Rightarrow> user_fs" where
  "gi_users P a = a (config_dir P gi_config)"

definition gi_evaluate_state :: "platform \<Rightarrow> io \<Rightarrow> unicode \<Rightarrow> app_dirs \<Rightarrow> IdentityState" where
  "gi_evaluate_state P F U a = evaluate_state F U (gi_users P a)"

definition gi_repair_state :: "platform \<Rightarrow> io \<Rightarrow> unicode \<Rightarrow> app_dirs \<Rightarrow> IdentityState PasskeyResult \<times> app_dirs" where
  "gi_repair_state P F U = in_app P gi_config (repair_state F U)"

definition gi_list_users :: "platform \<Rightarrow> io \<Rightarrow> app_dirs \<Rightarrow> string list" where
  "gi_list_users P F a = list_users F (gi_users P a)"

definition gi_get_active_user :: "platform \<Rightarrow> unicode \<Rightarrow> app_dirs \<Rightarrow> string option" where
  "gi_get_active_user P U a = get_active_user U (gi_users P a)"

definition gi_set_active_user :: "platform \<Rightarrow> io \<Rightarrow> string \<Rightarrow> app_dirs \<Rightarrow> unit PasskeyResult \<times> app_dirs" where
  "gi_set_active_user P F username = in_app P gi_config (set_active_user F username)"

definition gi_clear_active_user :: "platform \<Rightarrow> io \<Rightarrow> app_dirs \<Rightarrow> unit PasskeyResult \<times> app_dirs" where
  "gi_clear_active_user P F = in_app P gi_config (clear_active_user F)"

definition gi_is_multi_user :: "platform \<Rightarrow> io \<Rightarrow> app_dirs \<Rightarrow> bool" where
  "gi_is_multi_user P F a \<longleftrightarrow> is_multi_user F (gi_users P a)"

definition gi_get_user_info ::
    "platform \<Rightarrow> io \<Rightarrow> (string \<Rightarrow> UserInfo option) \<Rightarrow> string \<Rightarrow> app_dirs \<Rightarrow> UserInfo option" where
  "gi_get_user_info P F parse username a = get_user_info F parse (gi_users P a) username"

definition gi_save_user_info ::
    "platform \<Rightarrow> io \<Rightarrow> (UserInfo \<Rightarrow> string + string) \<Rightarrow> string \<Rightarrow> UserInfo \<Rightarrow> app_dirs
     \<Rightarrow> unit PasskeyResult \<times> app_dirs" where
  "gi_save_user_info P F print username info = in_app P gi_config (save_user_info F print username info)"

definition gi_get_current_user_info ::
    "platform \<Rightarrow> io \<Rightarrow> unicode \<Rightarrow> (string \<Rightarrow> UserInfo option) \<Rightarrow> app_dirs \<Rightarrow> UserInfo option" where
  "gi_get_current_user_info P F U parse a = get_current_user_info F U parse (gi_users P a)"

definition gi_create_user :: "platform \<Rightarrow> io \<Rightarrow> string \<Rightarrow> app_dirs \<Rightarrow> unit PasskeyResult \<times> app_dirs" where
  "gi_create_user P F username = in_app P gi_config (create_user F username)"

definition gi_delete_user :: "platform \<Rightarrow> io \<Rightarrow> unicode \<Rightarrow> string \<Rightarrow> app_dirs \<Rightarrow> unit PasskeyResult \<times> app_dirs" where
  "gi_delete_user P F U username = in_app P gi_config (delete_user F U username)"

definition gi_user_exists :: "platform \<Rightarrow> io \<Rightarrow> string \<Rightarrow> app_dirs \<Rightarrow> bool" where
  "gi_user_exists P F username a \<longleftrightarrow> user_exists F (gi_users P a) username"

definition gi_user_has_identity :: "platform \<Rightarrow> io \<Rightarrow> string \<Rightarrow> app_dirs \<Rightarrow> bool" where
  "gi_user_has_identity P F username a \<longleftrightarrow> user_has_identity F (gi_users P a) username"

section \<open>Machine ids and credentials\<close>

definition gi_derive_machine_id :: "unicode \<Rightarrow> Identity \<Rightarrow> string" where
  "gi_derive_machine_id U i = derive_machine_id_from_identity U gi_config i"

definition gi_derive_machine_id_from_public_key :: "pgp_io \<Rightarrow> unicode \<Rightarrow> string \<Rightarrow> string PasskeyResult" where
  "gi_derive_machine_id_from_public_key G U public_key = derive_machine_id G U gi_config public_key"

definition gi_verify_machine_id :: "pgp_io \<Rightarrow> unicode \<Rightarrow> string \<Rightarrow> string \<Rightarrow> bool PasskeyResult" where
  "gi_verify_machine_id G U public_key claimed = verify_machine_id G U gi_config public_key claimed"

definition gi_is_valid_machine_id :: "string \<Rightarrow> bool" where
  "gi_is_valid_machine_id m \<longleftrightarrow> is_valid_machine_id gi_config m"

text \<open>A \<open>CredentialStore\<close> is the name of its service.\<close>

definition credential_store_new :: "PasskeyConfig \<Rightarrow> string" where
  "credential_store_new c = app_name c"

definition gi_credential_store :: string where
  "gi_credential_store = credential_store_new gi_config"

section \<open>Only the installation of GitCellar changes\<close>

text \<open>What any operation on the users does to the directories of all applications.\<close>

inductive gi_step :: "platform \<Rightarrow> unicode \<Rightarrow> (string \<Rightarrow> string) \<Rightarrow> app_dirs \<Rightarrow> app_dirs \<Rightarrow> bool"
  for P :: platform and U :: unicode and debug :: "string \<Rightarrow> string" where
  gi_create: "io_debug F = debug \<Longrightarrow> gi_step P U debug a (snd (gi_create_user P F u a))"
| gi_delete: "io_debug F = debug \<Longrightarrow> gi_step P U debug a (snd (gi_delete_user P F U u a))"
| gi_info: "io_debug F = debug \<Longrightarrow> gi_step P U debug a (snd (gi_save_user_info P F print u info a))"
| gi_set: "io_debug F = debug \<Longrightarrow> gi_step P U debug a (snd (gi_set_active_user P F u a))"
| gi_clear: "io_debug F = debug \<Longrightarrow> gi_step P U debug a (snd (gi_clear_active_user P F a))"
| gi_repair: "io_debug F = debug \<Longrightarrow> gi_step P U debug a (snd (gi_repair_state P F U a))"

lemma snd_in_app: "snd (in_app P c f a) = a(config_dir P c := snd (f (a (config_dir P c))))"
  by (simp add: in_app_def split: prod.split)

text \<open>A step is one of \<open>Multi_User_Runs\<close> in the directory of GitCellar and nothing elsewhere, so any
  sequence of them keeps an installation an installation and every other application as it is.\<close>

lemma gi_step_simulates:
  assumes "gi_step P U debug a b"
  shows "mu_step U debug (gi_users P a) (gi_users P b) \<and> (\<forall>d. d \<noteq> gi_config_dir P \<longrightarrow> b d = a d)"
  using assms
proof cases
  case (gi_create F u)
  then show ?thesis by (simp add: gi_create_user_def gi_users_def gi_config_dir_def snd_in_app mu_step.step_create)
next
  case (gi_delete F u)
  then show ?thesis by (simp add: gi_delete_user_def gi_users_def gi_config_dir_def snd_in_app mu_step.step_delete)
next
  case (gi_info F print u info)
  then show ?thesis by (simp add: gi_save_user_info_def gi_users_def gi_config_dir_def snd_in_app mu_step.step_info)
next
  case (gi_set F u)
  then show ?thesis by (simp add: gi_set_active_user_def gi_users_def gi_config_dir_def snd_in_app mu_step.step_set)
next
  case (gi_clear F)
  then show ?thesis by (simp add: gi_clear_active_user_def gi_users_def gi_config_dir_def snd_in_app mu_step.step_clear)
next
  case (gi_repair F)
  then show ?thesis by (simp add: gi_repair_state_def gi_users_def gi_config_dir_def snd_in_app mu_step.step_repair)
qed

lemma gi_steps_isolated:
  assumes "(gi_step P U debug)\<^sup>*\<^sup>* a b" and "installation U debug (gi_users P a)"
  shows "installation U debug (gi_users P b) \<and> (\<forall>d. d \<noteq> gi_config_dir P \<longrightarrow> b d = a d)"
  using assms
proof (induction rule: rtranclp_induct)
  case (step b c)
  with gi_step_simulates [OF step.hyps(2)] installation_step show ?case by auto
qed simp

text \<open>On a given platform the directory is that of no other application with a plain name.\<close>

lemma app_dirs_differ:
  assumes "CHR ''/'' \<notin> set (app_name c)" and "app_name c \<notin> {[], ''.'', ''..''}"
    and "config_dir_override c = None" and "app_name c \<noteq> app_name gi_config"
  shows "config_dir P c \<noteq> gi_config_dir P"
  using assms
  by (auto simp: gi_config_dir_def config_dir_def gi_config_def config_gitcellar_def or_else_def
      platform_config_dir_def plain_join split: if_splits)

text \<open>An identity is found where it is saved, below the user's own directory.\<close>

lemma gi_dirs:
  assumes "validate_user_dir_name debug u = Inr ()"
  shows "gi_user_dir P u = gi_users_dir P @ [Normal u]"
    and "gi_identity_dir P u = gi_users_dir P @ [Normal u, Normal ''identity'']"
    and "gi_users_dir P = gi_config_dir P @ [Normal ''users'']"
proof -
  note join = plain_components [OF assms]
  show "gi_user_dir P u = gi_users_dir P @ [Normal u]"
    by (simp add: gi_user_dir_def gi_users_dir_def user_dir_def join)
  show "gi_identity_dir P u = gi_users_dir P @ [Normal u, Normal ''identity'']"
    by (simp add: gi_identity_dir_def identity_dir_of_def user_data_path_def gi_users_dir_def
        user_dir_def join plain_join)
  show "gi_users_dir P = gi_config_dir P @ [Normal ''users'']"
    by (simp add: gi_users_dir_def gi_config_dir_def users_dir_def plain_join)
qed

text \<open>The machine id of any identity passes the check of its own application.\<close>

lemma gi_machine_id_valid:
  assumes "is_valid_fingerprint_hex (id_fingerprint i)"
  shows "gi_is_valid_machine_id (gi_derive_machine_id U i)"
    and "gcm_machine_id U i = gi_derive_machine_id U i"
proof -
  have dash: "CHR ''-'' \<notin> set (machine_id_prefix gi_config)"
    by (simp add: gi_config_def config_gitcellar_def)
  show "gi_is_valid_machine_id (gi_derive_machine_id U i)"
    unfolding gi_is_valid_machine_id_def gi_derive_machine_id_def derive_machine_id_from_identity_def
      derive_machine_id_from_fingerprint_def is_valid_machine_id_iff [OF dash] lower_fingerprint(1) [OF assms]
    using lower_fingerprint(3) [OF assms] by blast
  show "gcm_machine_id U i = gi_derive_machine_id U i"
    by (simp add: gcm_machine_id_def gi_derive_machine_id_def gi_config_def)
qed

end
