(* ===== verification/Keywrap_Override.thy ===== *)
theory Keywrap_Override
  imports Keywrap_Laws
begin

text \<open>
  The test hooks of \<open>passkey-core/src/keywrap.rs\<close>. They are compiled into the shipped library: every
  function that resolves the Local Protection Key first looks at two variables of its thread, a fixed
  key and a simulated host. Here are those branches, in front of the definitions of \<open>Keywrap\<close>, and
  what lets the rest of the development leave them out: a thread on which no hook was set runs
  exactly those definitions, and no other thread can set its hooks.
\<close>

section \<open>The hooks of a thread\<close>

record TestHost =
  os_keyring_persistent :: bool
  headless_secret :: "string option"

record test_override =
  to_key :: "bytes option"
  to_host :: "TestHost option"

definition no_override :: test_override where
  "no_override = \<lparr>to_key = None, to_host = None\<rparr>"

type_synonym thread_overrides = "nat \<Rightarrow> test_override"

definition set_test_lpk :: "nat \<Rightarrow> bytes option \<Rightarrow> thread_overrides \<Rightarrow> thread_overrides" where
  "set_test_lpk thread key os = os(thread := (os thread)\<lparr>to_key := key\<rparr>)"

definition set_test_host :: "nat \<Rightarrow> TestHost option \<Rightarrow> thread_overrides \<Rightarrow> thread_overrides" where
  "set_test_host thread host os = os(thread := (os thread)\<lparr>to_host := host\<rparr>)"

section \<open>The functions with their hooks\<close>

text \<open>The file reader given for a simulated host panics when called; no file is named, so it never
  is (\<open>simulated_reader_unused\<close>).\<close>

definition hooked_resolve_host_lpk ::
    "test_override \<Rightarrow> 'w lpk_host \<Rightarrow> LpkMode \<Rightarrow> bytes \<Rightarrow> 'w lpk_state
     \<Rightarrow> (panic + (bytes \<times> LpkSource) PasskeyResult) \<times> 'w lpk_state" where
  "hooked_resolve_host_lpk T h mode drawn s =
     (case to_host T of
        Some host \<Rightarrow>
          choose_lpk (os_keyring_persistent host)
            (\<lambda>s. (Inl (CredentialStore ''simulated test host: the OS keyring is unavailable''), s))
            (headless_lpk_from (lh_prim h) (lh_uni h) (headless_secret host) None (\<lambda>p. Inl [])) s
      | None \<Rightarrow> resolve_host_lpk h mode drawn s)"

definition hooked_cached_lpk ::
    "test_override \<Rightarrow> 'w lpk_host \<Rightarrow> LpkMode \<Rightarrow> bytes \<Rightarrow> 'w lpk_state
     \<Rightarrow> (panic + bytes PasskeyResult) \<times> 'w lpk_state" where
  "hooked_cached_lpk T h mode drawn s =
     (case to_key T of
        Some test_key \<Rightarrow> (Inr (Inr test_key), s)
      | None \<Rightarrow>
          if to_host T \<noteq> None
          then (case hooked_resolve_host_lpk T h mode drawn s of
                  (Inl p, s') \<Rightarrow> (Inl p, s')
                | (Inr (Inl e), s') \<Rightarrow> (Inr (Inl e), s')
                | (Inr (Inr (key, _)), s') \<Rightarrow> (Inr (Inr key), s'))
          else cached_lpk h mode drawn s)"

definition hooked_local_protection_key ::
    "test_override \<Rightarrow> 'w lpk_host \<Rightarrow> bytes \<Rightarrow> 'w lpk_state \<Rightarrow> (panic + bytes PasskeyResult) \<times> 'w lpk_state" where
  "hooked_local_protection_key T h drawn s = hooked_cached_lpk T h Seal drawn s"

definition hooked_local_protection_source ::
    "test_override \<Rightarrow> 'w lpk_host \<Rightarrow> bytes \<Rightarrow> 'w lpk_state
     \<Rightarrow> (panic + LpkSource PasskeyResult) \<times> 'w lpk_state" where
  "hooked_local_protection_source T h drawn s =
     (if to_key T \<noteq> None then (Inr (Inr OsKeyring), s)
      else if to_host T \<noteq> None
      then (case hooked_resolve_host_lpk T h Seal drawn s of
              (Inl p, s') \<Rightarrow> (Inl p, s')
            | (Inr (Inl e), s') \<Rightarrow> (Inr (Inl e), s')
            | (Inr (Inr (_, source)), s') \<Rightarrow> (Inr (Inr source), s'))
      else local_protection_source h drawn s)"

definition hooked_remint ::
    "test_override \<Rightarrow> 'w lpk_host \<Rightarrow> bytes \<Rightarrow> 'w lpk_state \<Rightarrow> (panic + unit PasskeyResult) \<times> 'w lpk_state" where
  "hooked_remint T h drawn s =
     (if to_key T \<noteq> None then (Inr (Inr ()), s)
      else if to_host T \<noteq> None
      then (case hooked_resolve_host_lpk T h Remint drawn s of
              (Inl p, s') \<Rightarrow> (Inl p, s')
            | (Inr (Inl e), s') \<Rightarrow> (Inr (Inl e), s')
            | (Inr (Inr _), s') \<Rightarrow> (Inr (Inr ()), s'))
      else remint_local_protection_key h drawn s)"

definition hooked_local_protection_secret ::
    "test_override \<Rightarrow> 'w lpk_host \<Rightarrow> bytes \<Rightarrow> 'w lpk_state \<Rightarrow> (panic + string PasskeyResult) \<times> 'w lpk_state" where
  "hooked_local_protection_secret T h drawn s =
     (case hooked_local_protection_key T h drawn s of
        (Inl p, s') \<Rightarrow> (Inl p, s')
      | (Inr key, s') \<Rightarrow> (Inr (try_bind key (\<lambda>k. Inr (lh_b64_encode h k))), s'))"

definition hooked_wrap_at_rest ::
    "test_override \<Rightarrow> 'w lpk_host \<Rightarrow> bytes \<Rightarrow> bytes \<Rightarrow> bytes \<Rightarrow> 'w lpk_state
     \<Rightarrow> (panic + bytes PasskeyResult) \<times> 'w lpk_state" where
  "hooked_wrap_at_rest T h drawn drawn_nonce plaintext s =
     (case hooked_local_protection_key T h drawn s of
        (Inl p, s') \<Rightarrow> (Inl p, s')
      | (Inr key, s') \<Rightarrow> (Inr (try_bind key (wrap_with_key (lh_prim h) drawn_nonce plaintext)), s'))"

definition hooked_unwrap_at_rest ::
    "test_override \<Rightarrow> 'w lpk_host \<Rightarrow> bytes \<Rightarrow> bytes \<Rightarrow> 'w lpk_state
     \<Rightarrow> (panic + bytes PasskeyResult) \<times> 'w lpk_state" where
  "hooked_unwrap_at_rest T h drawn dat s =
     (if \<not> is_wrapped dat then (Inr (Inr dat), s)
      else case hooked_cached_lpk T h Open drawn s of
        (Inl p, s') \<Rightarrow> (Inl p, s')
      | (Inr key, s') \<Rightarrow> (Inr (try_bind key (unwrap_with_key (lh_prim h) dat)), s'))"

section \<open>A thread without hooks\<close>

lemmas hooked_defs =
  hooked_cached_lpk_def hooked_local_protection_key_def hooked_local_protection_source_def
  hooked_remint_def hooked_wrap_at_rest_def hooked_unwrap_at_rest_def

lemma no_override_simps [simp]: "to_key no_override = None" "to_host no_override = None"
  by (simp_all add: no_override_def)

lemma unhooked:
  "hooked_resolve_host_lpk no_override = resolve_host_lpk"
  "hooked_cached_lpk no_override = cached_lpk"
  "hooked_local_protection_key no_override = local_protection_key"
  "hooked_local_protection_source no_override = local_protection_source"
  "hooked_remint no_override = remint_local_protection_key"
  "hooked_wrap_at_rest no_override = wrap_at_rest"
  "hooked_unwrap_at_rest no_override = unwrap_at_rest"
  by (simp_all add: fun_eq_iff hooked_defs hooked_resolve_host_lpk_def local_protection_key_def
      wrap_at_rest_def unwrap_at_rest_def split: prod.split sum.split)

text \<open>A call of one of the two setters, on some thread.\<close>

datatype hook_call = SetLpk nat "bytes option" | SetHost nat "TestHost option"

fun hook_thread :: "hook_call \<Rightarrow> nat" where
  "hook_thread (SetLpk thread _) = thread"
| "hook_thread (SetHost thread _) = thread"

fun hook_effect :: "hook_call \<Rightarrow> thread_overrides \<Rightarrow> thread_overrides" where
  "hook_effect (SetLpk thread key) = set_test_lpk thread key"
| "hook_effect (SetHost thread host) = set_test_host thread host"

text \<open>Whatever the other threads set and clear, in any order, a thread keeps its hooks; one that
  never set any runs the functions of \<open>Keywrap\<close>.\<close>

lemma hooks_are_thread_local:
  "t \<notin> hook_thread ` set calls \<Longrightarrow> fold hook_effect calls os t = os t"
proof (induction calls arbitrary: os)
  case (Cons call calls)
  then show ?case by (cases call) (auto simp: set_test_lpk_def set_test_host_def)
qed simp

lemma shipped_thread:
  assumes "os t = no_override" and "t \<notin> hook_thread ` set calls"
  shows "hooked_wrap_at_rest (fold hook_effect calls os t) = wrap_at_rest"
    and "hooked_unwrap_at_rest (fold hook_effect calls os t) = unwrap_at_rest"
  using hooks_are_thread_local [OF assms(2), of os] assms(1) by (simp_all add: unhooked)

section \<open>A thread with hooks\<close>

lemma simulated_reader_unused:
  "headless_lpk_from P U secret None reader = headless_lpk_from P U secret None reader'"
proof -
  have "not_blank U None = None" by (simp add: not_blank_def)
  then show ?thesis by (cases "not_blank U secret") (simp_all add: headless_lpk_from_def)
qed

text \<open>The host's keyring, its marker and the cache of the process are left alone.\<close>

lemma hooked_resolve_state:
  "to_host T \<noteq> None \<Longrightarrow> snd (hooked_resolve_host_lpk T h mode drawn s) = s"
  by (auto simp: hooked_resolve_host_lpk_def choose_lpk_def)

lemma hooked_cached_state:
  "T \<noteq> no_override \<Longrightarrow> snd (hooked_cached_lpk T h mode drawn s) = s"
  using hooked_resolve_state [of T h mode drawn s]
  by (auto simp: hooked_cached_lpk_def no_override_def split: option.split prod.split sum.split)

lemma hooked_leaves_host:
  assumes "T \<noteq> no_override"
  shows "snd (hooked_local_protection_source T h drawn s) = s"
    and "snd (hooked_remint T h drawn s) = s"
    and "snd (hooked_wrap_at_rest T h drawn n p s) = s"
    and "snd (hooked_unwrap_at_rest T h drawn dat s) = s"
proof -
  have host: "to_key T = None \<Longrightarrow> to_host T \<noteq> None"
    using assms by (cases T) (auto simp: no_override_def)
  show "snd (hooked_local_protection_source T h drawn s) = s" "snd (hooked_remint T h drawn s) = s"
    using host hooked_resolve_state [of T h _ drawn s]
    by (auto simp: hooked_local_protection_source_def hooked_remint_def
        split: option.split prod.split sum.split) (metis snd_conv)+
  show "snd (hooked_wrap_at_rest T h drawn n p s) = s" "snd (hooked_unwrap_at_rest T h drawn dat s) = s"
    using hooked_cached_state [OF assms, of h _ drawn s]
    by (auto simp: hooked_wrap_at_rest_def hooked_unwrap_at_rest_def hooked_local_protection_key_def
        split: prod.split sum.split) (metis snd_conv)+
qed

text \<open>A simulated host resolves alike in every mode, so what its thread seals it opens again; and so
  does a thread with a fixed key, which wins over the simulated host.\<close>

lemma hooked_key_wins: "to_key T = Some k \<Longrightarrow> hooked_cached_lpk T h mode drawn s = (Inr (Inr k), s)"
  by (simp add: hooked_cached_lpk_def)

lemma hooked_resolve_same:
  "to_host T \<noteq> None \<Longrightarrow>
     fst (hooked_resolve_host_lpk T h mode drawn s) = fst (hooked_resolve_host_lpk T h mode' drawn' s')"
  by (auto simp: hooked_resolve_host_lpk_def choose_lpk_def simp del: contains_str.simps)

lemma hooked_mode_irrelevant:
  assumes "T \<noteq> no_override"
  shows "fst (hooked_cached_lpk T h mode drawn s) = fst (hooked_cached_lpk T h mode' drawn' s')"
proof (cases "to_key T")
  case None
  then have host: "to_host T \<noteq> None" using assms by (cases T) (auto simp: no_override_def)
  obtain r t where r: "hooked_resolve_host_lpk T h mode drawn s = (r, t)" by fastforce
  obtain r' t' where r': "hooked_resolve_host_lpk T h mode' drawn' s' = (r', t')" by fastforce
  have "r = r'" using hooked_resolve_same [OF host, of h mode drawn s mode' drawn' s'] r r' by simp
  then show ?thesis using None host r r' by (simp add: hooked_cached_lpk_def split: sum.split prod.split)
qed (simp add: hooked_cached_lpk_def)

lemma hooked_round_trip:
  assumes "T \<noteq> no_override" and "gcm_ok (lh_prim h)" and "length n = 12"
    and "hooked_wrap_at_rest T h drawn n p s = (Inr (Inr blob), s')"
  shows "hooked_unwrap_at_rest T h drawn' blob t = (Inr (Inr p), t)"
proof -
  obtain k where k: "fst (hooked_cached_lpk T h Seal drawn s) = Inr (Inr k)"
    and wrap: "wrap_with_key (lh_prim h) n p k = Inr blob"
    using assms(4)
    by (auto simp: hooked_wrap_at_rest_def hooked_local_protection_key_def try_bind_eq_Inr
        split: prod.splits sum.splits)
  have "hooked_cached_lpk T h Open drawn' t = (Inr (Inr k), t)"
    using hooked_mode_irrelevant [OF assms(1), of h Seal drawn s Open drawn' t]
      hooked_cached_state [OF assms(1), of h Open drawn' t] k
    by (metis prod.collapse)
  moreover have "unwrap_with_key (lh_prim h) blob k = Inr p"
    using wrap assms(3) unwrap_wrap [OF assms(2)] by blast
  moreover have "is_wrapped blob" using wrap by (auto simp: wrap_with_key_eq_Inr)
  ultimately show ?thesis by (simp add: hooked_unwrap_at_rest_def)
qed

end
