(* ===== verification/Cbor.thy ===== *)
theory Cbor
  imports Prelude
begin

text \<open>
  The items of CBOR (RFC 8949) that certificates are made of, and one encoding of them with its
  decoder. The program leaves the encoding to \<open>ciborium\<close>, which is a parameter of \<open>Cert_Wire\<close>;
  the one here shows that what is asked of it can be had. Arguments of 24 and more are written in
  eight bytes, and nesting is limited to \<open>nesting_limit\<close>.
\<close>

section \<open>Items\<close>

text \<open>A map with text keys, in the order of its entries; \<open>CborOther\<close> is any other item.\<close>

datatype cbor_item =
    CborInt int
  | CborBytes bytes
  | CborText string
  | CborMap "(string \<times> cbor_item) list"
  | CborOther bytes

primrec nesting :: "cbor_item \<Rightarrow> nat" where
  "nesting (CborInt i) = 1"
| "nesting (CborBytes b) = 1"
| "nesting (CborText s) = 1"
| "nesting (CborMap fs) = Suc (fold max (map snd (map (map_prod (\<lambda>k. k) nesting) fs)) 0)"
| "nesting (CborOther b) = 1"

definition nesting_limit :: nat where
  "nesting_limit = 256"

primrec encodable :: "cbor_item \<Rightarrow> bool" where
  "encodable (CborInt i) \<longleftrightarrow> - (2 ^ 64) \<le> i \<and> i < 2 ^ 64"
| "encodable (CborBytes b) \<longleftrightarrow> length b < 2 ^ 64"
| "encodable (CborText s) \<longleftrightarrow> length s < 2 ^ 64"
| "encodable (CborMap fs) \<longleftrightarrow> length fs < 2 ^ 64
     \<and> list_all (\<lambda>(k, ok). length k < 2 ^ 64 \<and> ok) (map (map_prod (\<lambda>k. k) encodable) fs)"
| "encodable (CborOther b) \<longleftrightarrow> False"

section \<open>Encoding\<close>

definition cbor_head :: "nat \<Rightarrow> nat \<Rightarrow> bytes" where
  "cbor_head major n =
     (if n < 24 then [word_of_nat (32 * major + n)]
      else word_of_nat (32 * major + 27) # rev (le_bytes 8 n))"

definition cbor_text :: "string \<Rightarrow> bytes" where
  "cbor_text s = cbor_head 3 (length s) @ as_bytes s"

primrec cbor_bytes :: "cbor_item \<Rightarrow> bytes" where
  "cbor_bytes (CborInt i) = (if i < 0 then cbor_head 1 (nat (- 1 - i)) else cbor_head 0 (nat i))"
| "cbor_bytes (CborBytes b) = cbor_head 2 (length b) @ b"
| "cbor_bytes (CborText s) = cbor_text s"
| "cbor_bytes (CborMap fs) = cbor_head 5 (length fs)
     @ concat (map (\<lambda>(k, v). cbor_text k @ v) (map (map_prod (\<lambda>k. k) cbor_bytes) fs))"
| "cbor_bytes (CborOther b) = []"

definition encode_item :: "cbor_item \<Rightarrow> string + bytes" where
  "encode_item v =
     (if encodable v \<and> nesting v \<le> nesting_limit then Inr (cbor_bytes v) else Inl ''not encodable'')"

section \<open>Decoding\<close>

definition read_head :: "bytes \<Rightarrow> (nat \<times> nat \<times> bytes) option" where
  "read_head bs =
     (case bs of
        [] \<Rightarrow> None
      | b # r \<Rightarrow>
          (let major = unat b div 32; info = unat b mod 32
           in if info < 24 then Some (major, info, r)
              else if info = 27 \<and> 8 \<le> length r
              then Some (major, le_value (rev (take 8 r)), drop 8 r)
              else None))"

definition read_text :: "bytes \<Rightarrow> (string \<times> bytes) option" where
  "read_text bs =
     (case read_head bs of
        Some (major, n, r) \<Rightarrow>
          if major = 3 \<and> n \<le> length r then Some (map char_of_byte (take n r), drop n r) else None
      | None \<Rightarrow> None)"

fun read_item :: "nat \<Rightarrow> bytes \<Rightarrow> (cbor_item \<times> bytes) option"
  and read_entries :: "nat \<Rightarrow> nat \<Rightarrow> bytes \<Rightarrow> ((string \<times> cbor_item) list \<times> bytes) option" where
  "read_item 0 bs = None"
| "read_item (Suc d) bs =
     (case read_head bs of
        None \<Rightarrow> None
      | Some (major, n, r) \<Rightarrow>
          if major = 0 then Some (CborInt (int n), r)
          else if major = 1 then Some (CborInt (- 1 - int n), r)
          else if major = 2 \<and> n \<le> length r then Some (CborBytes (take n r), drop n r)
          else if major = 3 \<and> n \<le> length r
          then Some (CborText (map char_of_byte (take n r)), drop n r)
          else if major = 5
          then map_option (\<lambda>(fs, r'). (CborMap fs, r')) (read_entries d n r)
          else None)"
| "read_entries d 0 bs = Some ([], bs)"
| "read_entries d (Suc n) bs =
     (case read_text bs of
        None \<Rightarrow> None
      | Some (k, r) \<Rightarrow>
          (case read_item d r of
             None \<Rightarrow> None
           | Some (v, r') \<Rightarrow> map_option (\<lambda>(fs, r''). ((k, v) # fs, r'')) (read_entries d n r')))"

definition decode_item :: "bytes \<Rightarrow> string + cbor_item" where
  "decode_item bs = (case read_item nesting_limit bs of Some (v, _) \<Rightarrow> Inr v | None \<Rightarrow> Inl ''malformed'')"

section \<open>What is encoded decodes\<close>

lemma map_char_of_as_bytes [simp]: "map char_of_byte (as_bytes s) = s"
  by (simp add: as_bytes_def map_idI)

lemma read_head_head:
  assumes "major < 8" and "n < 2 ^ 64"
  shows "read_head (cbor_head major n @ r) = Some (major, n, r)"
proof (cases "n < 24")
  case True
  then have "unat (word_of_nat (32 * major + n) :: u8) = 32 * major + n"
    using assms(1) by (simp only: unat_of_nat) simp
  with True show ?thesis by (simp add: cbor_head_def read_head_def Let_def)
next
  case False
  have "unat (word_of_nat (32 * major + 27) :: u8) = 32 * major + 27"
    using assms(1) by (simp only: unat_of_nat) simp
  moreover have "le_value (le_bytes 8 n) = n"
    using assms(2) by (simp add: le_value_le_bytes)
  ultimately show ?thesis using False by (simp add: cbor_head_def read_head_def Let_def)
qed

lemma read_text_text: "length s < 2 ^ 64 \<Longrightarrow> read_text (cbor_text s @ r) = Some (s, r)"
  using read_head_head [of 3 "length s" "as_bytes s @ r"] by (simp add: cbor_text_def read_text_def)

lemma fold_max_le: "fold max xs a \<le> (d :: nat) \<longleftrightarrow> a \<le> d \<and> (\<forall>x \<in> set xs. x \<le> d)"
  by (induction xs arbitrary: a) auto

lemma read_entries_bytes:
  assumes "\<And>k v r. (k, v) \<in> set fs \<Longrightarrow> length k < 2 ^ 64 \<and> read_item d (cbor_bytes v @ r) = Some (v, r)"
  shows "read_entries d (length fs) (concat (map (\<lambda>(k, v). cbor_text k @ cbor_bytes v) fs) @ r) = Some (fs, r)"
  using assms
proof (induction fs)
  case (Cons f fs)
  obtain k v where f: "f = (k, v)" by (cases f)
  have "read_item d (cbor_bytes v @ rest) = Some (v, rest)" and "length k < 2 ^ 64" for rest
    using Cons.prems [of k v] f by auto
  moreover have "read_entries d (length fs) (concat (map (\<lambda>(k, v). cbor_text k @ cbor_bytes v) fs) @ r) = Some (fs, r)"
    by (rule Cons.IH) (use Cons.prems in auto)
  ultimately show ?case by (simp add: f read_text_text)
qed simp

lemma read_item_bytes:
  "encodable v \<Longrightarrow> nesting v \<le> d \<Longrightarrow> read_item d (cbor_bytes v @ r) = Some (v, r)"
proof (induction v arbitrary: d r)
  case (CborInt i)
  then obtain e where d: "d = Suc e" by (cases d) auto
  show ?case
  proof (cases "i < 0")
    case True
    then have "nat (- 1 - i) < 2 ^ 64" using CborInt.prems(1) by simp
    with True show ?thesis by (simp add: d read_head_head)
  next
    case False
    then have "nat i < 2 ^ 64" using CborInt.prems(1) by simp
    with False show ?thesis by (simp add: d read_head_head)
  qed
next
  case (CborBytes b)
  then obtain e where d: "d = Suc e" by (cases d) auto
  show ?case using CborBytes.prems(1) read_head_head [of 2 "length b" "b @ r"] by (simp add: d)
next
  case (CborText s)
  then obtain e where d: "d = Suc e" by (cases d) auto
  show ?case
    using CborText.prems(1) read_head_head [of 3 "length s" "as_bytes s @ r"] by (simp add: d cbor_text_def)
next
  case (CborMap fs)
  then obtain e where d: "d = Suc e" by (cases d) auto
  have deep: "nesting v \<le> e" if "(k, v) \<in> set fs" for k v
    using CborMap.prems(2) that by (auto simp: d fold_max_le)
  have ok: "encodable v" "length k < 2 ^ 64" if "(k, v) \<in> set fs" for k v
    using CborMap.prems(1) that by (auto simp: list_all_iff)
  have "read_item e (cbor_bytes v @ rest) = Some (v, rest)" if "(k, v) \<in> set fs" for k v rest
    using CborMap.IH [of "(k, v)" v] that deep ok by simp
  then have "read_entries e (length fs) (concat (map (\<lambda>(k, v). cbor_text k @ cbor_bytes v) fs) @ r) = Some (fs, r)"
    by (intro read_entries_bytes) (use ok in auto)
  moreover have "cbor_bytes (CborMap fs)
      = cbor_head 5 (length fs) @ concat (map (\<lambda>(k, v). cbor_text k @ cbor_bytes v) fs)"
    by (simp add: case_prod_unfold comp_def)
  moreover have "length fs < 2 ^ 64" using CborMap.prems(1) by simp
  ultimately show ?case by (simp add: d read_head_head del: cbor_bytes.simps)
qed simp

lemma decode_encode_item: "encode_item v = Inr b \<Longrightarrow> decode_item b = Inr v"
  using read_item_bytes [of v nesting_limit "[]"] by (auto simp: encode_item_def decode_item_def split: if_splits)

lemma encode_item_map_head:
  assumes "encode_item (CborMap fs) = Inr b" and "length fs < 24"
  shows "\<exists>r. b = (0xA0 + word_of_nat (length fs)) # r"
proof -
  have "b = cbor_bytes (CborMap fs)" using assms(1) by (auto simp: encode_item_def split: if_splits)
  then show ?thesis using assms(2) by (simp add: cbor_head_def)
qed

end
