(* ===== verification/Cert_Wire_Laws.thy ===== *)
theory Cert_Wire_Laws
  imports Cert_Wire
begin

text \<open>
  The theorems about the wire form of the certificates: what is stored reads back and is of its own
  kind, and what a key signed as one kind of statement is accepted as no other.
\<close>

section \<open>The library's laws\<close>

lemma wire_decode: "wire_ok W \<Longrightarrow> w_encode W v = Inr b \<Longrightarrow> w_decode W b = Inr v"
  by (simp add: wire_ok_def)

lemma wire_inject: "wire_ok W \<Longrightarrow> w_encode W v = Inr b \<Longrightarrow> w_encode W v' = Inr b \<Longrightarrow> v = v'"
  using wire_decode [of W v b] wire_decode [of W v' b] by simp

lemma wire_map_head:
  "wire_ok W \<Longrightarrow> w_encode W (CborMap fs) = Inr b \<Longrightarrow> length fs < 24 \<Longrightarrow>
     \<exists>r. b = (0xA0 + word_of_nat (length fs)) # r"
  unfolding wire_ok_def by blast

lemma wire_fields:
  "wire_ok W \<Longrightarrow> distinct (map fst fs) \<Longrightarrow>
     \<exists>f. w_struct W (CborMap fs) (map fst fs) = Inr f \<and> map f (map fst fs) = map snd fs"
  unfolding wire_ok_def by blast

lemma wire_missing:
  "wire_ok W \<Longrightarrow> \<not> set names \<subseteq> fst ` set fs \<Longrightarrow> \<exists>e. w_struct W (CborMap fs) names = Inl e"
  unfolding wire_ok_def by blast

lemma wire_scalars:
  assumes "wire_ok W"
  shows "w_byte_buf W (CborBytes b) = Inr b" and "w_text W (CborText s) = Inr s"
    and "w_u32 W (CborInt (uint n)) = Inr n"
    and "- (2 ^ 63) \<le> i \<Longrightarrow> i < 2 ^ 63 \<Longrightarrow> w_i64 W (CborInt i) = Inr i"
    and "s \<in> set names \<Longrightarrow> w_variant W (CborText s) names = Inr s"
  using assms by (simp_all add: wire_ok_def)

lemma read_role_name: "wire_ok W \<Longrightarrow> read_role W (CborText (role_name r)) = Inr r"
  by (cases r) (simp_all add: read_role_def wire_scalars)

lemma read_reason_name: "wire_ok W \<Longrightarrow> read_reason W (CborText (reason_name r)) = Inr r"
  by (cases r) (simp_all add: read_reason_def wire_scalars)

lemmas wire_reads = wire_scalars read_role_name read_reason_name

section \<open>Round trips\<close>

definition i64_range :: "int \<Rightarrow> bool" where
  "i64_range i \<longleftrightarrow> - (2 ^ 63) \<le> i \<and> i < 2 ^ 63"

definition device_shape :: "DeviceCertificate \<Rightarrow> bool" where
  "device_shape c \<longleftrightarrow> length (dc_device_pubkey (dc_payload c)) = 32
     \<and> length (dc_master_pubkey (dc_payload c)) = 32 \<and> length (dc_signer_pubkey (dc_payload c)) = 32
     \<and> length (dc_signature c) = 64"

definition revocation_shape :: "RevocationCertificate \<Rightarrow> bool" where
  "revocation_shape c \<longleftrightarrow> length (rv_target_device_pubkey (rv_payload c)) = 32
     \<and> length (rv_master_pubkey (rv_payload c)) = 32 \<and> length (rv_signer_pubkey (rv_payload c)) = 32
     \<and> length (rv_signature c) = 64"

lemma deserialize_eq_Inr:
  "deserialize_32 W v = Inr b \<longleftrightarrow> w_byte_buf W v = Inr b \<and> length b = 32"
  "deserialize_64 W v = Inr b \<longleftrightarrow> w_byte_buf W v = Inr b \<and> length b = 64"
  by (auto simp: deserialize_32_def deserialize_64_def try_bind_eq_Inr)

lemma byte_array_read_back:
  assumes "wire_ok W"
  shows "length b = 32 \<Longrightarrow> deserialize_32 W (serialize_bytes b) = Inr b"
    and "length b = 64 \<Longrightarrow> deserialize_64 W (serialize_bytes b) = Inr b"
  using assms by (simp_all add: deserialize_eq_Inr serialize_bytes_def wire_scalars)

lemma read_device_item:
  assumes "wire_ok W" and "device_shape c" and "i64_range (dc_enrolled_at (dc_payload c))"
  shows "read_device W (device_item c) = Inr c"
proof -
  let ?p = "dc_payload c"
  obtain f where f: "w_struct W (device_payload_item ?p) [''cert_version'', ''device_pubkey'',
      ''master_pubkey'', ''label'', ''platform'', ''enrolled_at'', ''signer_role'', ''signer_pubkey''] = Inr f"
    and fields: "f ''cert_version'' = CborInt (uint (dc_cert_version ?p))"
      "f ''device_pubkey'' = serialize_bytes (dc_device_pubkey ?p)"
      "f ''master_pubkey'' = serialize_bytes (dc_master_pubkey ?p)"
      "f ''label'' = CborText (dc_label ?p)" "f ''platform'' = CborText (dc_platform ?p)"
      "f ''enrolled_at'' = CborInt (dc_enrolled_at ?p)"
      "f ''signer_role'' = CborText (role_name (dc_signer_role ?p))"
      "f ''signer_pubkey'' = serialize_bytes (dc_signer_pubkey ?p)"
    using wire_fields [OF assms(1), of "case device_payload_item ?p of CborMap fs \<Rightarrow> fs"]
    by (auto simp: device_payload_item_def)
  have payload: "read_device_payload W (device_payload_item ?p) = Inr ?p"
    using assms(2,3)
    by (simp add: read_device_payload_def f fields wire_reads [OF assms(1)] byte_array_read_back [OF assms(1)]
        device_shape_def i64_range_def)
  obtain g where "w_struct W (device_item c) [''payload'', ''signature''] = Inr g"
    "g ''payload'' = device_payload_item ?p" "g ''signature'' = serialize_bytes (dc_signature c)"
    using wire_fields [OF assms(1), of "case device_item c of CborMap fs \<Rightarrow> fs"] by (auto simp: device_item_def)
  then show ?thesis
    using assms(2) by (simp add: read_device_def payload byte_array_read_back [OF assms(1)] device_shape_def)
qed

lemma read_revocation_item:
  assumes "wire_ok W" and "revocation_shape c" and "i64_range (rv_revoked_at (rv_payload c))"
  shows "read_revocation W (revocation_item c) = Inr c"
proof -
  let ?p = "rv_payload c"
  obtain f where f: "w_struct W (revocation_payload_item ?p) [''cert_version'', ''target_device_pubkey'',
      ''master_pubkey'', ''revoked_at'', ''reason'', ''signer_role'', ''signer_pubkey''] = Inr f"
    and fields: "f ''cert_version'' = CborInt (uint (rv_cert_version ?p))"
      "f ''target_device_pubkey'' = serialize_bytes (rv_target_device_pubkey ?p)"
      "f ''master_pubkey'' = serialize_bytes (rv_master_pubkey ?p)"
      "f ''revoked_at'' = CborInt (rv_revoked_at ?p)"
      "f ''reason'' = CborText (reason_name (rv_reason ?p))"
      "f ''signer_role'' = CborText (role_name (rv_signer_role ?p))"
      "f ''signer_pubkey'' = serialize_bytes (rv_signer_pubkey ?p)"
    using wire_fields [OF assms(1), of "case revocation_payload_item ?p of CborMap fs \<Rightarrow> fs"]
    by (auto simp: revocation_payload_item_def)
  have payload: "read_revocation_payload W (revocation_payload_item ?p) = Inr ?p"
    using assms(2,3)
    by (simp add: read_revocation_payload_def f fields wire_reads [OF assms(1)]
        byte_array_read_back [OF assms(1)] revocation_shape_def i64_range_def)
  obtain g where "w_struct W (revocation_item c) [''payload'', ''signature''] = Inr g"
    "g ''payload'' = revocation_payload_item ?p" "g ''signature'' = serialize_bytes (rv_signature c)"
    using wire_fields [OF assms(1), of "case revocation_item c of CborMap fs \<Rightarrow> fs"]
    by (auto simp: revocation_item_def)
  then show ?thesis
    using assms(2)
    by (simp add: read_revocation_def payload byte_array_read_back [OF assms(1)] revocation_shape_def)
qed

text \<open>The outer maps have the same fields; the payloads do not.\<close>

lemma read_other_kind:
  assumes "wire_ok W"
  shows "read_device W (revocation_item r) \<noteq> Inr c" and "read_revocation W (device_item c) \<noteq> Inr r"
proof -
  obtain e where e: "w_struct W (revocation_payload_item (rv_payload r)) [''cert_version'', ''device_pubkey'',
      ''master_pubkey'', ''label'', ''platform'', ''enrolled_at'', ''signer_role'', ''signer_pubkey''] = Inl e"
    unfolding revocation_payload_item_def using wire_missing [OF assms] by fastforce
  obtain g where "w_struct W (revocation_item r) [''payload'', ''signature''] = Inr g"
    "g ''payload'' = revocation_payload_item (rv_payload r)"
    using wire_fields [OF assms, of "case revocation_item r of CborMap fs \<Rightarrow> fs"]
    by (auto simp: revocation_item_def)
  with e show "read_device W (revocation_item r) \<noteq> Inr c"
    by (simp add: read_device_def read_device_payload_def)
  obtain e where e: "w_struct W (device_payload_item (dc_payload c)) [''cert_version'',
      ''target_device_pubkey'', ''master_pubkey'', ''revoked_at'', ''reason'', ''signer_role'',
      ''signer_pubkey''] = Inl e"
    unfolding device_payload_item_def using wire_missing [OF assms] by fastforce
  obtain g where "w_struct W (device_item c) [''payload'', ''signature''] = Inr g"
    "g ''payload'' = device_payload_item (dc_payload c)"
    using wire_fields [OF assms, of "case device_item c of CborMap fs \<Rightarrow> fs"]
    by (auto simp: device_item_def)
  with e show "read_revocation W (device_item c) \<noteq> Inr r"
    by (simp add: read_revocation_def read_revocation_payload_def)
qed

lemma read_device_shape: "read_device W v = Inr c \<Longrightarrow> device_shape c"
  by (auto simp: read_device_def read_device_payload_def try_bind_eq_Inr deserialize_eq_Inr device_shape_def)

lemma read_revocation_shape: "read_revocation W v = Inr c \<Longrightarrow> revocation_shape c"
  by (auto simp: read_revocation_def read_revocation_payload_def try_bind_eq_Inr deserialize_eq_Inr
      revocation_shape_def)

lemmas serde_cbor_defs =
  serde_cbor_def device_to_cbor_def device_from_cbor_def revocation_to_cbor_def revocation_from_cbor_def
  encode_device_payload_def encode_revocation_payload_def

text \<open>C20: A stored device or revocation certificate reads back as it was and is refused by the parser of
  the other kind; and whatever bytes are read as a certificate, its keys have 32 bytes and its
  signature 64.\<close>

theorem certificates_round_trip:
  assumes "wire_ok W" and "device_shape c" "i64_range (dc_enrolled_at (dc_payload c))"
    and "revocation_shape r" "i64_range (rv_revoked_at (rv_payload r))"
    and "device_to_cbor (serde_cbor W) c = Inr stored" "revocation_to_cbor (serde_cbor W) r = Inr stored'"
  shows "device_from_cbor (serde_cbor W) stored = Inr c
    \<and> revocation_from_cbor (serde_cbor W) stored' = Inr r
    \<and> (\<forall>r'. revocation_from_cbor (serde_cbor W) stored \<noteq> Inr r')
    \<and> (\<forall>c'. device_from_cbor (serde_cbor W) stored' \<noteq> Inr c')
    \<and> (\<forall>raw c'. device_from_cbor (serde_cbor W) raw = Inr c' \<longrightarrow> device_shape c')
    \<and> (\<forall>raw r'. revocation_from_cbor (serde_cbor W) raw = Inr r' \<longrightarrow> revocation_shape r')"
proof -
  have "w_decode W stored = Inr (device_item c)" "w_decode W stored' = Inr (revocation_item r)"
    using assms(6,7) wire_decode [OF assms(1)] by (simp_all add: serde_cbor_defs)
  then show ?thesis
    using read_device_item [OF assms(1-3)] read_revocation_item [OF assms(1,4,5)]
      read_other_kind [OF assms(1)] read_device_shape read_revocation_shape
    by (auto simp: serde_cbor_defs try_bind_eq_Inr)
qed

section \<open>A concrete library\<close>

text \<open>The encoding of \<open>Cbor\<close>, and readers that accept exactly the items of their type.\<close>

definition demo_struct :: "cbor_item \<Rightarrow> string list \<Rightarrow> string + (string \<Rightarrow> cbor_item)" where
  "demo_struct v names =
     (case v of
        CborMap fs \<Rightarrow>
          if list_all (\<lambda>n. n \<in> set (map fst fs)) names then Inr (\<lambda>n. the (map_of fs n))
          else Inl ''missing field''
      | _ \<Rightarrow> Inl ''invalid type'')"

definition demo_wire :: wire where
  "demo_wire = \<lparr>w_encode = encode_item, w_decode = decode_item, w_struct = demo_struct,
     w_byte_buf = (\<lambda>v. case v of CborBytes b \<Rightarrow> Inr b | _ \<Rightarrow> Inl ''invalid type''),
     w_text = (\<lambda>v. case v of CborText s \<Rightarrow> Inr s | _ \<Rightarrow> Inl ''invalid type''),
     w_u32 = (\<lambda>v. case v of CborInt i \<Rightarrow> if 0 \<le> i \<and> i < 2 ^ 32 then Inr (word_of_int i) else Inl ''invalid value''
        | _ \<Rightarrow> Inl ''invalid type''),
     w_i64 = (\<lambda>v. case v of CborInt i \<Rightarrow> if - (2 ^ 63) \<le> i \<and> i < 2 ^ 63 then Inr i else Inl ''invalid value''
        | _ \<Rightarrow> Inl ''invalid type''),
     w_variant = (\<lambda>v names. case v of CborText s \<Rightarrow> if s \<in> set names then Inr s else Inl ''unknown variant''
        | _ \<Rightarrow> Inl ''invalid type''),
     w_invalid_length = (\<lambda>n expected. ''invalid length'')\<rparr>"

lemma demo_struct_fields:
  assumes "distinct (map fst fs)"
  shows "\<exists>f. demo_struct (CborMap fs) (map fst fs) = Inr f \<and> map f (map fst fs) = map snd fs"
  using assms by (auto simp: demo_struct_def list_all_iff)

lemma demo_struct_missing: "\<not> set names \<subseteq> fst ` set fs \<Longrightarrow> \<exists>e. demo_struct (CborMap fs) names = Inl e"
  by (auto simp: demo_struct_def list_all_iff)

lemma demo_wire_ok: "wire_ok demo_wire"
proof -
  have "uint (n :: u32) < 2 ^ 32" for n using uint_lt2p [of n] by simp
  then show ?thesis
    using decode_encode_item encode_item_map_head demo_struct_fields demo_struct_missing
    by (simp add: wire_ok_def demo_wire_def)
qed

lemma demo_wire_encode: "encodable v \<Longrightarrow> nesting v \<le> nesting_limit \<Longrightarrow> w_encode demo_wire v = Inr (cbor_bytes v)"
  by (simp add: demo_wire_def encode_item_def)

definition demo_stored_device :: DeviceCertificate where
  "demo_stored_device = \<lparr>dc_payload = \<lparr>dc_cert_version = 1, dc_device_pubkey = replicate 32 7,
     dc_master_pubkey = replicate 32 2, dc_label = ''pc'', dc_platform = ''linux'', dc_enrolled_at = -5,
     dc_signer_role = Device, dc_signer_pubkey = replicate 32 4\<rparr>, dc_signature = replicate 64 3\<rparr>"

definition demo_stored_revocation :: RevocationCertificate where
  "demo_stored_revocation = \<lparr>rv_payload = \<lparr>rv_cert_version = 1, rv_target_device_pubkey = replicate 32 7,
     rv_master_pubkey = replicate 32 2, rv_revoked_at = 9, rv_reason = DeviceLost, rv_signer_role = Master,
     rv_signer_pubkey = replicate 32 2\<rparr>, rv_signature = replicate 64 3\<rparr>"

lemma demo_device_stored:
  "device_to_cbor (serde_cbor demo_wire) demo_stored_device = Inr (cbor_bytes (device_item demo_stored_device))"
proof -
  have "encodable (device_item demo_stored_device)" "nesting (device_item demo_stored_device) \<le> nesting_limit"
    by (simp_all add: device_item_def device_payload_item_def demo_stored_device_def serialize_bytes_def
        nesting_limit_def)
  then show ?thesis by (simp add: serde_cbor_defs demo_wire_encode)
qed

lemma demo_revocation_stored:
  "revocation_to_cbor (serde_cbor demo_wire) demo_stored_revocation
     = Inr (cbor_bytes (revocation_item demo_stored_revocation))"
proof -
  have "encodable (revocation_item demo_stored_revocation)"
    "nesting (revocation_item demo_stored_revocation) \<le> nesting_limit"
    by (simp_all add: revocation_item_def revocation_payload_item_def demo_stored_revocation_def
        serialize_bytes_def nesting_limit_def)
  then show ?thesis by (simp add: serde_cbor_defs demo_wire_encode)
qed

theorem certificates_round_trip_witness:
  "device_from_cbor (serde_cbor demo_wire) (cbor_bytes (device_item demo_stored_device)) = Inr demo_stored_device
   \<and> (\<forall>r. revocation_from_cbor (serde_cbor demo_wire) (cbor_bytes (device_item demo_stored_device)) \<noteq> Inr r)"
proof -
  have "device_shape demo_stored_device" "i64_range (dc_enrolled_at (dc_payload demo_stored_device))"
    "revocation_shape demo_stored_revocation" "i64_range (rv_revoked_at (rv_payload demo_stored_revocation))"
    by (simp_all add: device_shape_def revocation_shape_def i64_range_def demo_stored_device_def
        demo_stored_revocation_def)
  from certificates_round_trip [OF demo_wire_ok this demo_device_stored demo_revocation_stored]
  show ?thesis by simp
qed

section \<open>One key, three kinds of statement\<close>

lemma role_name_inject [simp]: "role_name a = role_name b \<longleftrightarrow> a = b"
  by (cases a; cases b) simp_all

lemma reason_name_inject [simp]: "reason_name a = reason_name b \<longleftrightarrow> a = b"
  by (cases a; cases b) simp_all

lemma device_payload_item_inject: "device_payload_item p = device_payload_item q \<Longrightarrow> p = q"
  by (cases p; cases q) (simp add: device_payload_item_def serialize_bytes_def word_uint_eq_iff)

lemma revocation_payload_item_inject: "revocation_payload_item p = revocation_payload_item q \<Longrightarrow> p = q"
  by (cases p; cases q) (simp add: revocation_payload_item_def serialize_bytes_def word_uint_eq_iff)

lemma payload_items_differ: "device_payload_item p \<noteq> revocation_payload_item q"
  by (simp add: device_payload_item_def revocation_payload_item_def)

text \<open>A statement of length-prefixed fields starts with a decimal digit, a payload does not.\<close>

lemma lp_fields_first: "lp_fields (t # fs) = b # r \<Longrightarrow> 48 \<le> unat b \<and> unat b < 58"
proof -
  assume start: "lp_fields (t # fs) = b # r"
  obtain d ds where n: "nat_to_string (length t) = d # ds" by (cases "nat_to_string (length t)") auto
  then have "b = byte_of_char d" using start by (simp add: lp_def lp_push_def)
  then show ?thesis using nat_to_string_digits [of d "length t"] n by simp
qed

lemma payload_not_lp:
  assumes "wire_ok W"
  shows "w_encode W (device_payload_item p) \<noteq> Inr (lp_fields (t # fs))"
    and "w_encode W (revocation_payload_item q) \<noteq> Inr (lp_fields (t # fs))"
proof -
  have no: "w_encode W (CborMap es) \<noteq> Inr (lp_fields (t # fs))" if len: "length es = 8 \<or> length es = 7" for es
  proof
    assume "w_encode W (CborMap es) = Inr (lp_fields (t # fs))"
    from wire_map_head [OF assms this] len
    obtain r where r: "lp_fields (t # fs) = (0xA0 + word_of_nat (length es)) # r" by auto
    from lp_fields_first [OF r] len show False by auto
  qed
  show "w_encode W (device_payload_item p) \<noteq> Inr (lp_fields (t # fs))"
    unfolding device_payload_item_def by (rule no) simp
  show "w_encode W (revocation_payload_item q) \<noteq> Inr (lp_fields (t # fs))"
    unfolding revocation_payload_item_def by (rule no) simp
qed

lemma succession_lp: "\<exists>fs. succession_canonical U s = lp_fields (IDENTITY_SUCCESSION_VERSION # fs)"
  by (rule exI, rule succession.canonical_fields)

text \<open>C6: If all that verifies under an Ed25519 key is device payloads, revocation payloads and successions
  it signed, and length-prefixed statements of other domains, then a device certificate accepted as
  signed by it has one of those device payloads, a revocation one of those revocations, and a
  succession is one of those successions: although no payload names its kind, no signature moves
  from one to another.\<close>

theorem accepted_statement_was_signed:
  assumes "wire_ok W"
    and "\<And>m sig. ed_accepts (D, pk) m sig \<Longrightarrow>
        (\<exists>p \<in> Ps. encode_device_payload (serde_cbor W) p = Inr m)
      \<or> (\<exists>q \<in> Rs. encode_revocation_payload (serde_cbor W) q = Inr m)
      \<or> (\<exists>t \<in> Ss. m = succession_canonical U t)
      \<or> (\<exists>t fs. t \<noteq> IDENTITY_SUCCESSION_VERSION \<and> m = lp_fields (t # fs))"
  shows "(device_verify D (serde_cbor W) c master devices = Inr () \<and> dc_signer_pubkey (dc_payload c) = pk
        \<longrightarrow> dc_payload c \<in> Ps)
    \<and> (revocation_verify D (serde_cbor W) r master devices = Inr () \<and> rv_signer_pubkey (rv_payload r) = pk
        \<longrightarrow> rv_payload r \<in> Rs)
    \<and> (verify_identity_succession D U pk s sig v = Inr ()
        \<longrightarrow> (\<exists>t \<in> Ss. succession_canonical U s = succession_canonical U t))"
proof (intro conjI impI)
  have lp: "\<exists>t fs. m = lp_fields (t # fs)" if "m = succession_canonical U t" for m t
    using that succession_lp by blast
  show "dc_payload c \<in> Ps"
    if "device_verify D (serde_cbor W) c master devices = Inr () \<and> dc_signer_pubkey (dc_payload c) = pk"
  proof -
    from that obtain m where m: "w_encode W (device_payload_item (dc_payload c)) = Inr m" "ed_accepts (D, pk) m (dc_signature c)"
      using device.accepted_signer [of D "serde_cbor W" c master devices]
      by (auto simp: device_signature_good_def serde_cbor_def)
    from assms(2) [OF m(2)] m(1) show ?thesis
      using wire_inject [OF assms(1) m(1)] device_payload_item_inject payload_items_differ
        payload_not_lp(1) [OF assms(1)] lp
      by (auto simp: serde_cbor_defs) metis+
  qed
  show "rv_payload r \<in> Rs"
    if "revocation_verify D (serde_cbor W) r master devices = Inr () \<and> rv_signer_pubkey (rv_payload r) = pk"
  proof -
    from that obtain m where m: "w_encode W (revocation_payload_item (rv_payload r)) = Inr m" "ed_accepts (D, pk) m (rv_signature r)"
      using revocation.accepted_signer [of D "serde_cbor W" r master devices]
      by (auto simp: revocation_signature_good_def serde_cbor_def)
    from assms(2) [OF m(2)] m(1) show ?thesis
      using wire_inject [OF assms(1) m(1)] revocation_payload_item_inject payload_items_differ
        payload_not_lp(2) [OF assms(1)] lp
      by (auto simp: serde_cbor_defs) metis+
  qed
  show "\<exists>t \<in> Ss. succession_canonical U s = succession_canonical U t"
    if "verify_identity_succession D U pk s sig v = Inr ()"
  proof -
    have acc: "ed_accepts (D, pk) (succession_canonical U s) sig"
      using that by (auto simp: verify_identity_succession_def try_bind_eq_Inr ed_accepts_def split: if_splits)
    obtain fs where fs: "succession_canonical U s = lp_fields (IDENTITY_SUCCESSION_VERSION # fs)"
      using succession_lp by blast
    from assms(2) [OF acc] show ?thesis
      using payload_not_lp [OF assms(1)] by (auto simp: fs serde_cbor_defs simp del: lp_fields_simps)
  qed
qed

definition demo_signed_payload :: bytes where
  "demo_signed_payload = cbor_bytes (device_payload_item (dc_payload demo_device_cert))"

text \<open>A key that signed the payload of one device certificate and nothing else.\<close>

definition demo_one_payload :: ed25519 where
  "demo_one_payload = demo_ed\<lparr>ed_verify_strict := \<lambda>p m s. s = rev p @ m \<and> m = demo_signed_payload\<rparr>"

lemma demo_payload_encoded:
  "w_encode demo_wire (device_payload_item (dc_payload demo_device_cert)) = Inr demo_signed_payload"
proof -
  have "encodable (device_payload_item (dc_payload demo_device_cert))"
    "nesting (device_payload_item (dc_payload demo_device_cert)) \<le> nesting_limit"
    by (simp_all add: device_payload_item_def demo_device_cert_def serialize_bytes_def nesting_limit_def
        MASTER_VERSION_def)
  then show ?thesis by (simp add: demo_wire_encode demo_signed_payload_def)
qed

theorem accepted_statement_was_signed_witness:
  "device_verify demo_one_payload (serde_cbor demo_wire)
       (demo_device_cert\<lparr>dc_signature := [3, 4] @ demo_signed_payload\<rparr>) [2, 1] [[4, 3]] = Inr ()
   \<and> (\<forall>sig. revocation_verify demo_one_payload (serde_cbor demo_wire)
       (demo_stored_revocation\<lparr>rv_signature := sig, rv_payload := (rv_payload demo_stored_revocation)
          \<lparr>rv_master_pubkey := [2, 1], rv_signer_role := Device, rv_signer_pubkey := [4, 3]\<rparr>\<rparr>)
       [2, 1] [[4, 3]] \<noteq> Inr ())"
proof
  have only: "(\<exists>p \<in> {dc_payload demo_device_cert}. encode_device_payload (serde_cbor demo_wire) p = Inr m)
      \<or> (\<exists>q \<in> {}. encode_revocation_payload (serde_cbor demo_wire) q = Inr m)
      \<or> (\<exists>t \<in> {}. m = succession_canonical demo_unicode t)
      \<or> (\<exists>t fs. t \<noteq> IDENTITY_SUCCESSION_VERSION \<and> m = lp_fields (t # fs))"
    if "ed_accepts (demo_one_payload, [4, 3]) m sig" for m sig
    using that demo_payload_encoded
    by (simp add: ed_accepts_def verify_with_pubkey_eq_Inr demo_one_payload_def serde_cbor_defs)
  show "device_verify demo_one_payload (serde_cbor demo_wire)
       (demo_device_cert\<lparr>dc_signature := [3, 4] @ demo_signed_payload\<rparr>) [2, 1] [[4, 3]] = Inr ()"
    using demo_payload_encoded
    by (simp add: device_verify_def Let_def validate_label_eq_Inr serde_cbor_defs verify_with_verifying_key_def
        demo_one_payload_def try_bind_def split: sum.split)
       (auto simp: demo_device_cert_def demo_ed_def validate_label_def MAX_LABEL_BYTES_def)
  show "\<forall>sig. revocation_verify demo_one_payload (serde_cbor demo_wire)
       (demo_stored_revocation\<lparr>rv_signature := sig, rv_payload := (rv_payload demo_stored_revocation)
          \<lparr>rv_master_pubkey := [2, 1], rv_signer_role := Device, rv_signer_pubkey := [4, 3]\<rparr>\<rparr>)
       [2, 1] [[4, 3]] \<noteq> Inr ()"
    using accepted_statement_was_signed [OF demo_wire_ok only] by (intro allI notI) fastforce
qed

end
