(* ===== verification/Enrollment.thy ===== *)
theory Enrollment
  imports Keystore_Laws Cert_Wire_Laws
begin

text \<open>
  Enrolling a device, across \<open>keystore.rs\<close>, \<open>device_cert.rs\<close>, \<open>revocation_cert.rs\<close> and \<open>master.rs\<close>: the
  device generates its key, the master certifies it, the device stores the certificate and the
  master's key; later processes on the device use what is stored, and servers check it.
\<close>

section \<open>The steps of the ceremony\<close>

text \<open>\<open>None\<close> when a step fails or panics; otherwise the certificate and what is on disk.\<close>

definition enroll ::
    "faults \<Rightarrow> ed25519 \<Rightarrow> cbor \<Rightarrow> MaterializedMaster \<Rightarrow> bytes \<Rightarrow> string \<Rightarrow> string \<Rightarrow> int
     \<Rightarrow> 'l FileSystemKeystore \<Rightarrow> tree \<Rightarrow> 'l \<Rightarrow> (DeviceCertificate \<times> tree \<times> 'l) option" where
  "enroll F D B master drawn label platform enrolled_at ks t s =
     (case generate_device_keypair F D drawn ks t s of
        (Inr (Inr pk), ks1, t1, s1) \<Rightarrow>
          (case device_sign_with_master D B master pk label platform enrolled_at of
             Inl e \<Rightarrow> None
           | Inr c \<Rightarrow>
               (case import_cert F B ks1 c t1 of
                  (Inl e, t2) \<Rightarrow> None
                | (Inr _, t2) \<Rightarrow>
                    (case import_master_pubkey F D ks1 (public_key master) t2 of
                       (Inl e, t3) \<Rightarrow> None
                     | (Inr _, t3) \<Rightarrow> Some (c, t3, s1))))
      | _ \<Rightarrow> None)"

text \<open>What Ed25519 has beyond \<open>ed25519_ok\<close>: the sizes of public keys and signatures.\<close>

definition ed25519_sizes :: "ed25519 \<Rightarrow> bool" where
  "ed25519_sizes D \<longleftrightarrow> (\<forall>sk. length sk = 32 \<longrightarrow> length (ed_public D sk) = 32)
     \<and> (\<forall>sk m. length (ed_sign D sk m) = 64)"

lemma enroll_steps:
  assumes "enroll F D B master drawn label platform enrolled_at ks t s = Some (c, t3, s1)"
  obtains pk ks1 t1 t2 where "generate_device_keypair F D drawn ks t s = (Inr (Inr pk), ks1, t1, s1)"
    and "device_sign_with_master D B master pk label platform enrolled_at = Inr c"
    and "import_cert F B ks1 c t1 = (Inr (), t2)"
    and "import_master_pubkey F D ks1 (public_key master) t2 = (Inr (), t3)"
  using assms by (auto simp: enroll_def split: prod.splits sum.splits)

text \<open>C19: After an enrollment on a device without a complete key pair, a process started later on the
  device, knowing only the directory, finds there the certificate, the master's key and the key the
  certificate names; the certificate verifies under the master whatever devices are eligible; what the
  device signs verifies under the key in it; and a revocation the device signs for any other device is
  accepted exactly as long as the device is eligible.\<close>

theorem enrolled_device_works:
  assumes "wire_ok W" "ed25519_ok D" "ed25519_sizes D" "master_wf D master" "length (secret_bytes master) = 32"
    and "at_dir ks ds" "tree_ok t" "readable F" "length drawn = 32" "i64_range enrolled_at"
    and "node_at t (ds @ [DEVICE_PRIVATE_FILENAME]) = None \<or> node_at t (ds @ [DEVICE_PUBLIC_FILENAME]) = None"
    and "\<forall>sealed. fst (sealer ks drawn s) = Inr (Inr sealed) \<longrightarrow> fst (opener sealed l) = Inr (Inr drawn)"
    and "enroll F D (serde_cbor W) master drawn label platform enrolled_at ks t s = Some (c, t3, s1)"
    and "later = keystore_with_sealer (key_dir ds) sl"
  shows "export_cert F (serde_cbor W) later t3 = Inr c
    \<and> export_master_pubkey F D later t3 = Inr (public_key master)
    \<and> export_pubkey F D later t3 = Inr (dc_device_pubkey (dc_payload c))
    \<and> device_verify D (serde_cbor W) c (public_key master) devices = Inr ()
    \<and> (\<exists>sig. fst (keystore_sign F D opener later t3 msg l) = Inr (Inr sig)
         \<and> ed_verify_strict D (dc_device_pubkey (dc_payload c)) msg sig)
    \<and> (revocation_sign_with_device D (serde_cbor W) drawn (public_key master) target revoked_at why = Inr r
        \<and> dc_device_pubkey (dc_payload c) \<noteq> public_key master \<longrightarrow>
        (revocation_verify D (serde_cbor W) r (public_key master) devices = Inr ()
          \<longleftrightarrow> dc_device_pubkey (dc_payload c) \<in> set devices))"
proof -
  obtain pk ks1 t1 t2 where gen: "generate_device_keypair F D drawn ks t s = (Inr (Inr pk), ks1, t1, s1)"
    and sign: "device_sign_with_master D (serde_cbor W) master pk label platform enrolled_at = Inr c"
    and cert: "import_cert F (serde_cbor W) ks1 c t1 = (Inr (), t2)"
    and mast: "import_master_pubkey F D ks1 (public_key master) t2 = (Inr (), t3)"
    using assms(13) by (rule enroll_steps)
  from generated_key_held [of F D drawn ks t s pk ks1 t1 s1 ds opener l, OF gen assms(6,7,11,12)]
  have pk: "pk = ed_public D drawn" and ks1: "at_dir ks1 ds" and t1: "tree_ok t1"
    and held: "holds_key D opener ds t1 l drawn" using assms(6) by (simp_all add: at_dir_def)
  have ed: "ed_parse D (ed_public D sk) = Inr ()" "ed_verify_strict D (ed_public D sk) m (ed_sign D sk m)"
    for sk m using assms(2) by (simp_all add: ed25519_ok_def)
  have key: "valid_key D drawn" using assms(3,9) ed by (simp add: valid_key_def ed25519_sizes_def)
  have master: "length (public_key master) = 32"
    using assms(3-5) by (simp add: master_wf_def ed25519_sizes_def)
  have c: "dc_device_pubkey (dc_payload c) = pk" "device_shape c" "i64_range (dc_enrolled_at (dc_payload c))"
    using sign assms(3,9,10) pk master
    by (auto simp: device_sign_with_master_def try_bind_eq_Inr Let_def device_shape_def master_sign_def
        ed25519_sizes_def)
  have parses: "\<forall>raw. cbor_device (serde_cbor W) c = Inr raw \<longrightarrow> cbor_parse_device (serde_cbor W) raw = Inr c"
    using read_device_item [OF assms(1) c(2,3)] wire_decode [OF assms(1)] by (simp add: serde_cbor_def)
  from import_cert_holds [OF cert ks1 t1 parses] have h2: "holds_cert (serde_cbor W) ds t2 c" "tree_ok t2"
    "other_files_stay ds DEVICE_CERT_FILENAME t1 t2" by simp_all
  from import_master_holds [OF mast ks1 h2(2) master] have h3: "holds_master D ds t3 (public_key master)"
    "tree_ok t3" "other_files_stay ds MASTER_PUBLIC_FILENAME t2 t3" by simp_all
  have "holds_key D opener ds t2 l drawn" by (rule held_key_stays [OF h2(3) _ held]) simp
  then have "holds_key D opener ds t3 l drawn" by (rule held_key_stays [OF h3(3), rotated]) simp
  moreover have later: "at_dir later ds" "cached_pubkey later = None"
    by (simp_all add: assms(14) at_dir_def keystore_with_sealer_def)
  ultimately have "fst (keystore_sign F D opener later t3 msg l) = Inr (Inr (ed_sign D drawn msg))"
    "export_pubkey F D later t3 = Inr pk"
    using held_key_signs(1,2) [OF _ key later(1) h3(2) assms(8)] pk by simp_all
  moreover have "export_cert F (serde_cbor W) later t3 = Inr c"
    by (rule held_cert_exports [OF held_cert_stays [OF h3(3) h2(1)] later(1) h3(2) assms(8)])
  moreover have "export_master_pubkey F D later t3 = Inr (public_key master)"
    by (rule held_master_exports [OF h3(1) later(1) h3(2) assms(8)])
  moreover have "device_verify D (serde_cbor W) c (public_key master) devices = Inr ()"
    by (rule master_cert_verifies [OF assms(2,4) sign])
  moreover have "revocation_verify D (serde_cbor W) r (public_key master) devices = Inr () \<longleftrightarrow> pk \<in> set devices"
    if "revocation_sign_with_device D (serde_cbor W) drawn (public_key master) target revoked_at why = Inr r"
      and "pk \<noteq> public_key master"
    using device_revocation_verdict [OF assms(2) that(1), of devices] that(2) pk by auto
  ultimately show ?thesis using ed pk c(1) by auto
qed

text \<open>A toy scheme with keys and signatures of the right sizes, a master and an empty disk.\<close>

definition demo_sized :: ed25519 where
  "demo_sized = \<lparr>ed_public = map (\<lambda>b. b + 1), ed_sign = (\<lambda>s m. take 64 (s @ m @ replicate 64 0)),
     ed_parse = (\<lambda>p. Inr ()),
     ed_verify_strict = (\<lambda>p m sg. sg = take 64 (map (\<lambda>b. b - 1) p @ m @ replicate 64 0)),
     ed_verify = (\<lambda>p m sg. False), bip39_seed = (\<lambda>s. Inr [])\<rparr>"

definition demo_sized_master :: MaterializedMaster where
  "demo_sized_master = \<lparr>secret_bytes = replicate 32 1, public_key = replicate 32 2\<rparr>"

lemma demo_sized_ok: "ed25519_ok demo_sized" "ed25519_sizes demo_sized" "master_wf demo_sized demo_sized_master"
  by (auto simp: ed25519_ok_def ed25519_sizes_def master_wf_def demo_sized_def demo_sized_master_def comp_def
      min_def)

definition demo_enrolled_payload :: DeviceCertificatePayload where
  "demo_enrolled_payload = \<lparr>dc_cert_version = MASTER_VERSION, dc_device_pubkey = replicate 32 6,
     dc_master_pubkey = replicate 32 2, dc_label = ''pc'', dc_platform = ''linux'', dc_enrolled_at = 5,
     dc_signer_role = Master, dc_signer_pubkey = replicate 32 2\<rparr>"

lemma demo_enrolled_encodes:
  "cbor_device_payload (serde_cbor demo_wire) demo_enrolled_payload
     = Inr (cbor_bytes (device_payload_item demo_enrolled_payload))"
  "length sig = 64 \<Longrightarrow> cbor_device (serde_cbor demo_wire) \<lparr>dc_payload = demo_enrolled_payload, dc_signature = sig\<rparr>
     = Inr (cbor_bytes (device_item \<lparr>dc_payload = demo_enrolled_payload, dc_signature = sig\<rparr>))"
  by (simp_all add: serde_cbor_def demo_wire_encode device_payload_item_def device_item_def
      demo_enrolled_payload_def serialize_bytes_def nesting_limit_def MASTER_VERSION_def del: cbor_bytes.simps)

definition demo_enrolled :: DeviceCertificate where
  "demo_enrolled = \<lparr>dc_payload = demo_enrolled_payload,
     dc_signature = take 64 (replicate 32 1 @ cbor_bytes (device_payload_item demo_enrolled_payload) @ replicate 64 0)\<rparr>"

lemma demo_enrolled_signed:
  "device_sign_with_master demo_sized (serde_cbor demo_wire) demo_sized_master (replicate 32 6) ''pc'' ''linux'' 5
     = Inr demo_enrolled"
proof -
  have "\<lparr>dc_cert_version = MASTER_VERSION, dc_device_pubkey = replicate 32 6,
     dc_master_pubkey = public_key demo_sized_master, dc_label = ''pc'', dc_platform = ''linux'', dc_enrolled_at = 5,
     dc_signer_role = Master, dc_signer_pubkey = public_key demo_sized_master\<rparr> = demo_enrolled_payload"
    by (simp add: demo_enrolled_payload_def demo_sized_master_def)
  then show ?thesis
    by (simp add: device_sign_with_master_def validate_label_def MAX_LABEL_BYTES_def Let_def
        encode_device_payload_def demo_enrolled_encodes master_sign_def demo_enrolled_def)
       (simp add: demo_sized_def demo_sized_master_def)
qed

lemma demo_enrolls:
  "\<exists>t3. enroll calm demo_sized (serde_cbor demo_wire) demo_sized_master (replicate 32 5) ''pc'' ''linux'' 5
      demo_keystore [] () = Some (demo_enrolled, t3, ())"
proof -
  note steps = ensure_dir_def demo_keystore_def keystore_with_sealer_def key_dir_def stat_def private_path_def
    public_path_def cert_path_def master_pub_path_def write_atomic_def tmp_path_def write_file_def
    rename_file_def rename_node_def set_mode_def calm_def node_at_def remove_node_def ks_io_def key_files Let_def
  obtain raw where raw: "device_to_cbor (serde_cbor demo_wire) demo_enrolled = Inr raw"
    using demo_enrolled_encodes(2) by (auto simp: device_to_cbor_def demo_enrolled_def)
  have pk: "ed_public demo_sized (replicate 32 5) = replicate 32 6" and parse: "ed_parse demo_sized p = Inr ()" for p
    by (simp_all add: demo_sized_def)
  show ?thesis
    by (simp add: enroll_def generate_device_keypair_def generate_fresh_def import_cert_def
        import_master_pubkey_def demo_enrolled_signed raw pk parse steps)
qed

theorem enrolled_device_works_witness:
  "\<exists>t3. enroll calm demo_sized (serde_cbor demo_wire) demo_sized_master (replicate 32 5) ''pc'' ''linux'' 5
      demo_keystore [] () = Some (demo_enrolled, t3, ())
    \<and> export_cert calm (serde_cbor demo_wire) demo_keystore t3 = Inr demo_enrolled
    \<and> device_verify demo_sized (serde_cbor demo_wire) demo_enrolled (replicate 32 2) [] = Inr ()"
proof -
  obtain t3 where e: "enroll calm demo_sized (serde_cbor demo_wire) demo_sized_master (replicate 32 5)
      ''pc'' ''linux'' 5 demo_keystore [] () = Some (demo_enrolled, t3, ())"
    using demo_enrolls by blast
  have at: "at_dir demo_keystore [''k'']" and ok: "tree_ok []" and rd: "readable calm"
    and m: "length (secret_bytes demo_sized_master) = 32" and seed: "length (replicate 32 (5 :: u8)) = 32"
    and i: "i64_range 5" and empty: "node_at [] ([''k''] @ [DEVICE_PRIVATE_FILENAME]) = None"
    by (simp_all add: at_dir_def demo_keystore_def keystore_with_sealer_def tree_ok_def node_at_def
        readable_def calm_def demo_sized_master_def i64_range_def)
  have opens: "\<forall>sealed. fst (sealer demo_keystore (replicate 32 5) ()) = Inr (Inr sealed) \<longrightarrow>
      fst ((\<lambda>raw l. (Inr (Inr (tl raw)), l)) sealed ()) = Inr (Inr (replicate 32 5))"
    by (simp add: demo_keystore_def keystore_with_sealer_def)
  from enrolled_device_works [where opener = "\<lambda>raw l. (Inr (Inr (tl raw)), l)" and l = "()" and devices = "[]",
      OF demo_wire_ok demo_sized_ok m at ok rd seed i disjI1 [OF empty] opens e refl,
      of "sealer demo_keystore"] e
  show ?thesis by (auto simp: demo_keystore_def keystore_with_sealer_def demo_sized_master_def)
qed

end
