(* ===== verification/Spec2Isabelle.thy ===== *)
theory Spec2Isabelle
  imports Chunking_Laws Packing_Laws Cert_Laws Broadcast_Laws Recovery_Laws File_Storage S3_Storage
    Credential_Store Keystore_Laws Cloud_Backup Machine_Id Key_Transfer Legacy_Extract Facade Auth_Tokens
    Identity_Runs Ffi_Sessions Pipeline Gitcellar_Identity Keywrap_Override Enrollment
begin

text \<open>
  A verification development of the cryptographic core of GitCellar: the crates \<open>vault-core\<close>,
  \<open>gitcellar-crypto\<close> and \<open>passkey-core\<close>.

  \<^bold>\<open>The program.\<close> \<open>vault-core\<close> stores repository data: it cuts a stream into chunks by content
  (\<open>chunking.rs\<close>), names them by a digest, seals each under its identity (\<open>encryption.rs\<close>,
  \<open>chunk_format.rs\<close>), and gathers sealed chunks in padded packs (\<open>pack.rs\<close>). \<open>gitcellar-crypto\<close>
  owns the keys: an OpenPGP identity derives the repository's chunk keys and signs protocol
  messages (\<open>encryption.rs\<close>); what it signs is one of several length-prefixed statements
  (\<open>canonical.rs\<close>), namely repository-key grants (\<open>grant_signing.rs\<close>) and incident manifests
  (\<open>broadcast.rs\<close>), and, under the recovery master of \<open>master.rs\<close>, identity successions
  (\<open>identity_succession.rs\<close>) and the device and revocation certificates. \<open>passkey-core\<close> keeps
  the identity on a machine: challenges to answer and their verification (\<open>auth\<close>), sealing at rest
  (\<open>keywrap.rs\<close>), identity files (\<open>identity\<close>), recovery codes (\<open>recovery\<close>), the session in the OS
  keyring (\<open>credential_store\<close>), account names and directories (\<open>paths\<close>) and the users of an
  installation (\<open>multi_user\<close>). Chunks and packs go to a storage backend (\<open>vault-core/src/storage\<close>),
  through \<open>bounded-http\<close> where it is remote; device keys to the key store (\<open>keystore.rs\<close>); and an
  identity leaves the machine as a cloud backup (\<open>cloud_backup.rs\<close>) or a key file (\<open>transfer.rs\<close>).
  Programs in other languages use \<open>vault-core\<close> through its C interface (\<open>ffi.rs\<close>).

  \<^bold>\<open>The theories.\<close> Each component has its definitions in the order of the code, and its theorems
  in the same theory or in the one with suffix \<open>_Laws\<close>.

  \<^item> \<open>Prelude\<close>, \<open>Codec\<close>, \<open>Text\<close>: machine integers, the \<open>?\<close> operator as \<open>try_bind\<close> on sums, byte
    strings, decimal and hexadecimal printing, the string functions of \<open>std\<close>.
  \<^item> \<open>Vault_Error\<close>, \<open>Crypto_Error\<close>: the error enums of the three crates and their conversions.
  \<^item> \<open>Chunking\<close>, \<open>Chunking_Laws\<close> (\<open>chunking.rs\<close>): the boundary search is the first hit of the
    masks; over the interface \<open>cdc_boundary\<close> both loops return and cut alike, so the incremental
    chunker equals the batch engine and loses nothing.
  \<^item> \<open>Chunk_Format\<close>, \<open>Chunk_Encryption\<close>, \<open>Chunk_Encryption_Laws\<close>: identities are encoded
    injectively, both ciphers provide the interface \<open>encryption_engine\<close>, and a chunk opens only
    under its own identity and version.
  \<^item> \<open>Packing\<close>, \<open>Packing_Laws\<close> (\<open>pack.rs\<close>): the state of the packing loop has an invariant from
    which every chunk of a batch is found again, and the size ladder is a bounded closure.
  \<^item> \<open>Signed_Canonical\<close>: the field encoder and the interfaces \<open>prefix_code\<close>,
    \<open>signed_statement\<close>, \<open>signed_object\<close> and \<open>signature_scheme\<close>; every canonical and both key
    kinds (OpenPGP, Ed25519) are interpretations of them.
  \<^item> \<open>Auth_Challenge\<close>, \<open>Grant_Signing\<close> with \<open>Grant_Laws\<close>, \<open>Identity_Succession\<close>, \<open>Master\<close>,
    \<open>Certs\<close> with \<open>Cert_Laws\<close>, \<open>Broadcast\<close> with \<open>Broadcast_Laws\<close>: what is signed, what is
    accepted, that what is built is accepted, and that what is accepted was signed. Replays are
    runs over arbitrary message lists.
  \<^item> \<open>Cert_Wire\<close>, \<open>Cert_Wire_Laws\<close>: the certificates as items of CBOR; a stored one reads back, and no
    signature of a key moves between device certificates, revocations and successions. \<open>Cbor\<close> is an
    encoding that has what is asked of \<open>ciborium\<close>. \<open>Enrollment\<close>: the ceremony that puts key store, master
    and certificates together leaves a device that works.
  \<^item> \<open>Pgp_Engine\<close>, \<open>Pgp_Engine_Laws\<close> (\<open>gitcellar-crypto/src/encryption.rs\<close>): which subkey is
    used, what is derived from it, and the batch pipelines.
  \<^item> \<open>Keywrap\<close>, \<open>Keywrap_Laws\<close>: the cache, the OS keyring and the minted marker are an explicit
    state; what was sealed opens after a restart and a lost key is reported. \<open>Keywrap_Race\<close>: processes
    that resolve the key at once, cut into their single accesses and interleaved by a schedule.
    \<open>Keywrap_Runs\<close>: over any life of an installation with one key source, what was sealed stays readable.
    \<open>Keywrap_Override\<close>: the test hooks that the shipped functions look at first, and that a thread which
    sets none runs the functions of \<open>Keywrap\<close>, whatever other threads set.
  \<^item> \<open>Username\<close>, \<open>Passkey_Config\<close>, \<open>Multi_User\<close>, \<open>Multi_User_Laws\<close>, \<open>Multi_User_Runs\<close>: names are
    single path components; the state machine over the users is evaluated and repaired; a step
    relation with every operation and any failure keeps an installation well-typed, and from any
    reachable one every user can become ready. \<open>Facade\<close> (\<open>gitcellar-crypto/src/lib.rs\<close>): saving for
    the active or default user, and the paths of the active user. \<open>Gitcellar_Identity\<close>
    (\<open>gitcellar-identity/src/lib.rs\<close>): the functions that fix the configuration; any run of them leaves
    every other application's installation alone.
  \<^item> \<open>Auth_Tokens\<close> (\<open>auth/verification.rs\<close>, \<open>auth/jwt.rs\<close>), \<open>Machine_Id\<close> (\<open>auth/machine_id.rs\<close>): an
    answer authenticates one challenge; a machine id names one key.
  \<^item> \<open>Storage\<close>, \<open>File_Storage\<close>, \<open>S3_Storage\<close> (\<open>vault-core/src/storage\<close>): the backend contract as a
    locale whose runs are traces of a map, and both backends as refinements of it, over
    \<open>File_System\<close> (a directory tree with failing and partial operations) and over an HTTP service.
  \<^item> \<open>Bounded_Http\<close> (\<open>bounded-http\<close>): what is read is bounded by the ceiling.
  \<^item> \<open>Phrase\<close>, \<open>Recovery\<close>, \<open>Edit_Distance\<close>, \<open>Recovery_Laws\<close> (\<open>recovery\<close>): codes survive their display
    form; the dynamic program computes the least number of edits.
  \<^item> \<open>Credential_Store\<close> (\<open>credential_store\<close>): a session over any store that keeps the contract.
  \<^item> \<open>Keystore\<close>, \<open>Keystore_Laws\<close> (\<open>keystore.rs\<close>), \<open>Identity_Store\<close>, \<open>Identity_Laws\<close>
    (\<open>passkey-core/src/identity\<close>): files are replaced atomically, a key is never written unsealed,
    and what was saved loads again. \<open>Identity_Runs\<close>: over any run of operations the identity files
    refine a map from names to identities, at-rest sealing included.
  \<^item> \<open>Cloud_Backup\<close>, \<open>Key_Transfer\<close> (\<open>transfer.rs\<close>), \<open>Legacy_Extract\<close>: what leaves a machine restores.
  \<^item> \<open>Ffi\<close>, \<open>Ffi_Triples\<close>, \<open>Ffi_Laws\<close>, \<open>Ffi_Sessions\<close> (\<open>vault-core/src/ffi.rs\<close>): the C interface over a
    heap of typed blocks. Separation triples give each function what it allocates and frees; a client
    that keeps to its handles meets no undefined behaviour and can give back all that was allocated,
    and what it reads behind the pointers is what the Rust functions compute.
  \<^item> \<open>Pipeline\<close>: the layers of the library put together as a client does, over any storage backend: a stream
    that was cut, sealed, packed and uploaded is what a restore returns.
  \<^item> This theory: the separation of what one key signs across the protocols.

  \<^bold>\<open>Representation.\<close> A Rust struct is a record, an enum a datatype, \<open>u8\<close>, \<open>u32\<close>, \<open>u64\<close> are words,
  a \<open>usize\<close> that counts elements is a \<open>nat\<close> whose checked or wrapping operations are written out
  with \<open>usize_max\<close> (64 bits). A \<open>String\<close> is the list of its UTF-8 bytes as characters.
  \<open>Result\<close> is a sum with the error left, and a panic is a \<open>Left\<close> of its own or \<open>None\<close>, as the
  theory says. Cryptographic primitives, Sequoia, serde, the operating system, the random generator
  and the clock are parameters; what a theorem needs of them is a named predicate (\<open>aead_ok\<close>,
  \<open>ed25519_ok\<close>, \<open>signs_for\<close>, \<open>rng_ok\<close>, \<open>host_ok\<close>, ...) which its witness satisfies with a concrete
  instance. None of them says that forging is impossible: theorems of that kind state what the keys
  have signed as a premise, or exhibit the colliding ciphertext.

  \<^bold>\<open>Loops.\<close> No fuel is used. Loops over data are structural or have a measure; \<open>chunk_data\<close> and
  \<open>emit_chunks\<close>, which do not return on every configuration, are \<open>partial_function (option)\<close>, and
  their theorems state that they return for \<open>0 < min_size <= max_size\<close> (and that the zero
  configuration does not).

  \<^bold>\<open>Not modelled.\<close> Re-exports and the accessors of records; \<open>vault_version\<close>;
  the serde and CBOR encodings of foreign crates, which are parameters; build scripts; memory zeroing except where the caller's buffer is visibly overwritten;
  logging; interleavings of threads other than the race for the local protection key (parallel
  batches are their order-preserving result, an awaited call is its result, a mutex its value);
  spare capacity of vectors; path separators of Windows.
\<close>

section \<open>Signed statements across the protocols\<close>

lemma lp_fields_tag: "lp_fields (t # fs) = lp_fields (u # gs) \<Longrightarrow> t = u"
  by (simp del: lp_fields_simps)

lemma manifest_bytes_fields: "manifest_bytes x = lp_fields (INCIDENT_MANIFEST_DOMAIN # manifest_fields x)"
  by (rule manifest.canonical_fields)

lemma first_key_fields:
  "first_key_evidence_canonical H a h k c =
     lp_fields (FIRST_KEY_EVIDENCE_VERSION # [a, h, hex_encode k, hex_encode (sha256 H c)])"
  using first_key_evidence.canonical_fields [of H "(a, h, k, c)"] by simp

lemmas statement_fields =
  challenge_canonical_def canonical_fields manifest_bytes_fields succession.canonical_fields
  first_key_fields

lemmas statement_tags =
  GRANT_CANONICAL_VERSION_def DELEGATED_GRANT_CANONICAL_VERSION_def INCIDENT_MANIFEST_DOMAIN_def
  IDENTITY_SUCCESSION_VERSION_def FIRST_KEY_EVIDENCE_VERSION_def

text \<open>C30: What an identity key signs when it answers a server's challenge is the purpose-tagged
  nonce and nothing else: never a grant (with or without a delegation), an incident manifest, a
  succession statement or first-key evidence, whatever challenge the server sends. The other
  statements are just as disjoint from one another.\<close>

theorem challenge_answers_are_nothing_else:
  assumes "sign_auth_challenge X E p c = Inr sig"
  shows "(\<exists>m. challenge_signing_payload p c = Inr m \<and> sign_data X E m = Inr sig
        \<and> m \<noteq> canonical_with_delegation U g del \<and> m \<noteq> manifest_bytes x
        \<and> m \<noteq> succession_canonical U s \<and> m \<noteq> first_key_evidence_canonical H a h k cc)
    \<and> canonical_with_delegation U g del \<noteq> manifest_bytes x
    \<and> canonical_with_delegation U g del \<noteq> succession_canonical U s
    \<and> canonical_with_delegation U g del \<noteq> first_key_evidence_canonical H a h k cc
    \<and> manifest_bytes x \<noteq> succession_canonical U s
    \<and> manifest_bytes x \<noteq> first_key_evidence_canonical H a h k cc
    \<and> succession_canonical U s \<noteq> first_key_evidence_canonical H a h k cc"
proof (intro conjI)
  from assms obtain m where m: "challenge_signing_payload p c = Inr m" "sign_data X E m = Inr sig"
    by (auto simp: sign_auth_challenge_def try_bind_eq_Inr)
  then have "m = challenge_canonical p c"
    by (simp add: challenge_signing_payload_eq split: if_splits)
  with m show "\<exists>m. challenge_signing_payload p c = Inr m \<and> sign_data X E m = Inr sig
        \<and> m \<noteq> canonical_with_delegation U g del \<and> m \<noteq> manifest_bytes x
        \<and> m \<noteq> succession_canonical U s \<and> m \<noteq> first_key_evidence_canonical H a h k cc"
    by (cases p) (auto simp: statement_fields statement_tags dest!: lp_fields_tag
        simp del: lp_fields_simps split: option.splits)
qed (auto simp: statement_fields statement_tags dest!: lp_fields_tag
        simp del: lp_fields_simps split: option.splits)

theorem challenge_answers_are_nothing_else_witness:
  "\<exists>m. challenge_signing_payload Login (replicate 64 (CHR ''a'')) = Inr m
     \<and> m \<noteq> canonical_with_delegation demo_unicode
         (grant_new demo_unicode ''u'' 1 ''cd 34'' ''AB12'' ''a2V5'' 7) None"
proof -
  have "sign_auth_challenge demo_pgp (demo_engine [demo_subkey False]) Login (replicate 64 (CHR ''a''))
      = Inr (1 # as_bytes ''cert'' @ challenge_canonical Login (replicate 64 (CHR ''a'')))"
    by (simp add: sign_auth_challenge_def challenge_signing_payload_eq is_well_formed_challenge_def
        is_lower_hex_def list_all_iff sign_data_eq_Inr)
       (simp add: demo_engine_def demo_pgp_def)
  from challenge_answers_are_nothing_else [OF this] show ?thesis by blast
qed

end
